theory Spec2Isabelle
  imports Complex_Main "HOL-Library.Code_Target_Nat"
begin

section \<open>JavaScript strings\<close>

text \<open>
  A JavaScript string is modelled as a list of 8-bit characters (code units below 256).
  The functions below follow the methods of \<^verbatim>\<open>String.prototype\<close> that the sources call.
  White space is the part of \<^verbatim>\<open>\s\<close> that lies in this range: TAB, LF, VT, FF, CR, SP
  and NBSP.
\<close>

definition dq :: char where "dq = CHR 0x22"
definition bs :: char where "bs = CHR 0x5C"
definition nl :: char where "nl = CHR 0x0A"

definition isWhiteSpace :: "char \<Rightarrow> bool" where
  "isWhiteSpace c = (c \<in> set [CHR 0x09, CHR 0x0A, CHR 0x0B, CHR 0x0C, CHR 0x0D, CHR 0x20, CHR 0xA0])"

definition trimStart :: "string \<Rightarrow> string" where
  "trimStart s = dropWhile isWhiteSpace s"

definition trimEnd :: "string \<Rightarrow> string" where
  "trimEnd s = rev (dropWhile isWhiteSpace (rev s))"

definition trim :: "string \<Rightarrow> string" where
  "trim s = trimEnd (trimStart s)"

definition startsWith :: "string \<Rightarrow> string \<Rightarrow> bool" where
  "startsWith s p = (take (length p) s = p)"

definition endsWith :: "string \<Rightarrow> string \<Rightarrow> bool" where
  "endsWith s p = (length p \<le> length s \<and> drop (length s - length p) s = p)"

text \<open>\<^verbatim>\<open>s.includes(t)\<close>: \<open>t\<close> occurs in \<open>s\<close> as a contiguous substring.\<close>

fun includes_js :: "string \<Rightarrow> string \<Rightarrow> bool" where
  "includes_js [] t = (t = [])"
| "includes_js (c # cs) t = (startsWith (c # cs) t \<or> includes_js cs t)"

text \<open>\<^verbatim>\<open>s.split(sep)\<close> for a separator of one character; the result is never empty.\<close>

fun splitOn :: "char \<Rightarrow> string \<Rightarrow> string list" where
  "splitOn sep [] = [[]]"
| "splitOn sep (c # cs) =
     (if c = sep then [] # splitOn sep cs
      else (case splitOn sep cs of [] \<Rightarrow> [[c]] | w # ws \<Rightarrow> (c # w) # ws))"

text \<open>\<^verbatim>\<open>xs.join(sep)\<close>.\<close>

fun join :: "string \<Rightarrow> string list \<Rightarrow> string" where
  "join sep [] = []"
| "join sep [x] = x"
| "join sep (x # y # ys) = x @ sep @ join sep (y # ys)"

text \<open>\<^verbatim>\<open>xs.slice(i, j)\<close> for \<open>0 \<le> i\<close> and \<open>0 \<le> j\<close>.\<close>

definition slice :: "nat \<Rightarrow> nat \<Rightarrow> 'a list \<Rightarrow> 'a list" where
  "slice i j xs = take (j - i) (drop i xs)"

text \<open>\<^verbatim>\<open>JSON.stringify\<close> of a string: the quoted form with the escapes of ECMA-262.\<close>

definition hexDigit :: "nat \<Rightarrow> char" where
  "hexDigit n = (''0123456789abcdef'' ! (n mod 16))"

definition quoteJSONChar :: "char \<Rightarrow> string" where
  "quoteJSONChar c =
     (if c = dq then [bs, dq]
      else if c = bs then [bs, bs]
      else if c = CHR 0x08 then [bs, CHR ''b'']
      else if c = CHR 0x0C then [bs, CHR ''f'']
      else if c = CHR 0x0A then [bs, CHR ''n'']
      else if c = CHR 0x0D then [bs, CHR ''r'']
      else if c = CHR 0x09 then [bs, CHR ''t'']
      else if (of_char c :: nat) < 32
        then [bs, CHR ''u'', CHR ''0'', CHR ''0'',
              hexDigit ((of_char c :: nat) div 16), hexDigit (of_char c :: nat)]
      else [c])"

definition JSON_stringify :: "string \<Rightarrow> string" where
  "JSON_stringify s = dq # concat (map quoteJSONChar s) @ [dq]"

text \<open>
  The replacement text of \<^verbatim>\<open>String.prototype.replace\<close> (\<^verbatim>\<open>GetSubstitution\<close> of ECMA-262):
  in the template, \<^verbatim>\<open>$$\<close> is a dollar sign, \<^verbatim>\<open>$&\<close> the matched text, \<^verbatim>\<open>$`\<close> and \<^verbatim>\<open>$'\<close>
  the text before and after the match, and \<^verbatim>\<open>$n\<close>, \<^verbatim>\<open>$nn\<close> the capture of that number
  when the pattern has one; any other dollar sign stands for itself. None of the patterns
  of the sources has a named group.
\<close>

definition isDigit :: "char \<Rightarrow> bool" where
  "isDigit c = (48 \<le> (of_char c :: nat) \<and> (of_char c :: nat) \<le> 57)"

definition digitValue :: "char \<Rightarrow> nat" where
  "digitValue c = of_char c - 48"

fun getSubstitution :: "string \<Rightarrow> string \<Rightarrow> string \<Rightarrow> string list \<Rightarrow> string \<Rightarrow> string" where
  "getSubstitution m pre post caps [] = []"
| "getSubstitution m pre post caps [c] = [c]"
| "getSubstitution m pre post caps (c # d # r) =
     (if c \<noteq> CHR ''$'' then c # getSubstitution m pre post caps (d # r)
      else if d = CHR ''$'' then CHR ''$'' # getSubstitution m pre post caps r
      else if d = CHR ''&'' then m @ getSubstitution m pre post caps r
      else if d = CHR 0x60 then pre @ getSubstitution m pre post caps r
      else if d = CHR 0x27 then post @ getSubstitution m pre post caps r
      else if isDigit d then
        (case r of
           e # r' \<Rightarrow>
             if isDigit e \<and> 10 * digitValue d + digitValue e \<le> length caps then
               (if 1 \<le> 10 * digitValue d + digitValue e
                then caps ! (10 * digitValue d + digitValue e - 1) @ getSubstitution m pre post caps r'
                else c # d # e # getSubstitution m pre post caps r')
             else if 1 \<le> digitValue d \<and> digitValue d \<le> length caps
               then caps ! (digitValue d - 1) @ getSubstitution m pre post caps r
             else c # d # getSubstitution m pre post caps r
         | [] \<Rightarrow>
             if 1 \<le> digitValue d \<and> digitValue d \<le> length caps
               then caps ! (digitValue d - 1)
             else [c, d])
      else c # getSubstitution m pre post caps (d # r))"

text \<open>The first occurrence of a pattern in a text: the text before it and the text after
  it.\<close>

fun findFirst :: "string \<Rightarrow> string \<Rightarrow> (string \<times> string) option" where
  "findFirst pat [] = (if pat = [] then Some ([], []) else None)"
| "findFirst pat (c # cs) =
     (if startsWith (c # cs) pat then Some ([], drop (length pat) (c # cs))
      else map_option (\<lambda>(b, a). (c # b, a)) (findFirst pat cs))"

text \<open>\<^verbatim>\<open>s.replace(pat, template)\<close> for a pattern that is a string: the first occurrence
  only.\<close>

definition replaceStr :: "string \<Rightarrow> string \<Rightarrow> string \<Rightarrow> string" where
  "replaceStr s pat template =
     (case findFirst pat s of
        None \<Rightarrow> s
      | Some (b, a) \<Rightarrow> b @ getSubstitution pat b a [] template @ a)"

text \<open>\<^verbatim>\<open>s.replace(/^word(\s)/, template)\<close> for a word of literal characters: the word at
  the start of the text and the white space character after it, which is capture 1.\<close>

definition replaceLeadingWord :: "string \<Rightarrow> string \<Rightarrow> string \<Rightarrow> string" where
  "replaceLeadingWord s word template =
     (if startsWith s word \<and> length word < length s \<and> isWhiteSpace (s ! length word)
      then getSubstitution (word @ [s ! length word]) [] (drop (Suc (length word)) s)
             [[s ! length word]] template @ drop (Suc (length word)) s
      else s)"

text \<open>\<^verbatim>\<open>s.replace(/x/g, template)\<close> for one literal character \<open>x\<close> and a template
  without dollar sign.\<close>

definition replaceAllChar :: "string \<Rightarrow> char \<Rightarrow> string \<Rightarrow> string" where
  "replaceAllChar s x t = concat (map (\<lambda>c. if c = x then t else [c]) s)"

text \<open>\<^verbatim>\<open>s.replace(/^"|"$/g, '')\<close>: a double quote at the start and one at the end are
  removed.\<close>

definition stripQuotes :: "string \<Rightarrow> string" where
  "stripQuotes s =
     (let s1 = (if s \<noteq> [] \<and> hd s = dq then tl s else s)
      in if s1 \<noteq> [] \<and> last s1 = dq then butlast s1 else s1)"

section \<open>Command Executor: \<^verbatim>\<open>POST /api/docker/execute\<close>\<close>

text \<open>
  The outcome of one process started on the host: its exit status and what it wrote to
  standard output and standard error. The shell of the host is a function from the command
  line and the state of the outside world (the container runtime with its containers, the
  file system) to the outcome of the command and the new state.
\<close>

record proc_result =
  exit_status :: nat
  proc_stdout :: string
  proc_stderr :: string

type_synonym 'w shell = "string \<Rightarrow> 'w \<Rightarrow> proc_result \<times> 'w"

text \<open>The state a handler runs in: the outside world, and the command lines run so far,
  each with its outcome.\<close>

record 'w hx =
  hx_world :: 'w
  hx_ran :: "(string \<times> proc_result) list"

text \<open>The exception \<^verbatim>\<open>execSync\<close> throws: its message and its \<^verbatim>\<open>stderr\<close> property.\<close>

record exec_exn =
  exn_message :: string
  exn_stderr :: string

text \<open>
  Modelled from the spec: \<^verbatim>\<open>execSync\<close> of Node's \<^verbatim>\<open>child_process\<close> (a platform
  function, not a source of this repository). The call runs the command line in the shell
  and returns the standard output of the process. It throws when the process wrote more
  than \<open>maxBuffer\<close> bytes to either stream (the spec: exceeding the buffer ceiling is a
  fatal error for that call, not a truncation) and when the process exits with a non-zero
  status.
\<close>

definition execSync ::
  "'w shell \<Rightarrow> nat \<Rightarrow> string \<Rightarrow> 'w hx \<Rightarrow> (exec_exn + string) \<times> 'w hx" where
  "execSync sh maxBuffer cmdline s =
     (case sh cmdline (hx_world s) of
        (p, w') \<Rightarrow>
          (if maxBuffer < length (proc_stdout p) \<or> maxBuffer < length (proc_stderr p)
             then Inl \<lparr>exn_message = ''spawnSync /bin/sh ENOBUFS'',
                       exn_stderr = take maxBuffer (proc_stderr p)\<rparr>
           else if exit_status p \<noteq> 0
             then Inl \<lparr>exn_message = ''Command failed: '' @ cmdline @ [nl] @ proc_stderr p,
                       exn_stderr = proc_stderr p\<rparr>
           else Inr (proc_stdout p),
           \<lparr>hx_world = w', hx_ran = hx_ran s @ [(cmdline, p)]\<rparr>))"

text \<open>Node's default for \<^verbatim>\<open>maxBuffer\<close>, used by the calls that pass none.\<close>

definition defaultMaxBuffer :: nat where
  "defaultMaxBuffer = 1024 * 1024"

text \<open>
  The request, after \<^verbatim>\<open>await request.json()\<close>: \<open>Inl msg\<close> is a body that is not JSON
  (the call throws, with message \<open>msg\<close>); in a body that is JSON, \<open>req_command = None\<close>
  is a command that is missing or not an array, and an empty \<open>req_containerId\<close> is a
  container id that is missing.
\<close>

record exec_request =
  req_containerId :: string
  req_command :: "string list option"

type_synonym exec_body = "string + exec_request"

text \<open>The JSON response with its HTTP status; a field that the handler does not set is
  \<open>None\<close>. The accented letters of the Spanish messages are written without accent.\<close>

record exec_response =
  resp_status :: nat
  resp_success :: "bool option"
  resp_output :: "string option"
  resp_error :: "string option"
  resp_details :: "string option"
  resp_stderr :: "string option"

definition emptyResponse :: exec_response where
  "emptyResponse = \<lparr>resp_status = 200, resp_success = None, resp_output = None,
     resp_error = None, resp_details = None, resp_stderr = None\<rparr>"

text \<open>The rewriting of the tokens before they are run (\<^verbatim>\<open>modifiedCommand\<close>).\<close>

definition isEchoRedirect :: "string list \<Rightarrow> bool" where
  "isEchoRedirect command =
     (command \<noteq> [] \<and> hd command = ''echo'' \<and> 2 < length command \<and>
      command ! (length command - 2) = ''>'')"

definition isMkdirWithoutP :: "string list \<Rightarrow> bool" where
  "isMkdirWithoutP command =
     (command \<noteq> [] \<and> hd command = ''mkdir'' \<and> ''-p'' \<notin> set command)"

definition modifiedCommand :: "string list \<Rightarrow> string list" where
  \<open>modifiedCommand command =
     (let m1 = (if isEchoRedirect command
                then [''bash'', ''-c'',
                      ''echo '' @ join '' '' (slice 1 (length command - 2) command) @
                      '' > "'' @ last command @ ''"'']
                else command)
      in if isMkdirWithoutP command then ''mkdir'' # ''-p'' # drop 1 command else m1)\<close>

definition escapedCommand :: "string list \<Rightarrow> string" where
  "escapedCommand command = join '' '' (map JSON_stringify (modifiedCommand command))"

definition execCommandLine :: "string \<Rightarrow> string list \<Rightarrow> string" where
  "execCommandLine cid command = ''docker exec '' @ cid @ '' '' @ escapedCommand command"

definition execMaxBuffer :: nat where
  "execMaxBuffer = 1024 * 1024 * 5"

text \<open>
  The handler. Its second call of \<^verbatim>\<open>execSync\<close> (\<^verbatim>\<open>docker exec <id> pwd\<close>) is inside a
  \<^verbatim>\<open>try\<close> of its own and its result is only logged.
\<close>

definition execute_POST :: "'w shell \<Rightarrow> exec_body \<Rightarrow> 'w hx \<Rightarrow> exec_response \<times> 'w hx" where
  "execute_POST sh body s =
     (case body of
        Inl msg \<Rightarrow> (emptyResponse\<lparr>resp_success := Some False,
                     resp_error := Some ''Error al procesar la solicitud'',
                     resp_details := Some msg\<rparr>, s)
      | Inr req \<Rightarrow>
          (case req_command req of
             None \<Rightarrow> (emptyResponse\<lparr>resp_status := 400,
                       resp_error := Some ''Parametros invalidos. Se requiere containerId y un array de command''\<rparr>, s)
           | Some command \<Rightarrow>
               if req_containerId req = [] then
                 (emptyResponse\<lparr>resp_status := 400,
                   resp_error := Some ''Parametros invalidos. Se requiere containerId y un array de command''\<rparr>, s)
               else
                 (case execSync sh defaultMaxBuffer
                         (''docker container inspect '' @ req_containerId req) s of
                    (Inl _, s1) \<Rightarrow>
                      (emptyResponse\<lparr>resp_status := 404,
                         resp_error := Some (''El contenedor '' @ req_containerId req @ '' no existe'')\<rparr>, s1)
                  | (Inr _, s1) \<Rightarrow>
                      (case execSync sh defaultMaxBuffer
                              (''docker exec '' @ req_containerId req @ '' pwd'') s1 of
                         (_, s2) \<Rightarrow>
                           (case execSync sh execMaxBuffer
                                   (execCommandLine (req_containerId req) command) s2 of
                              (Inr out, s3) \<Rightarrow>
                                (emptyResponse\<lparr>resp_success := Some True,
                                   resp_output := Some (trim out)\<rparr>, s3)
                            | (Inl e, s3) \<Rightarrow>
                                (emptyResponse\<lparr>resp_success := Some False,
                                   resp_error := Some ''Error al ejecutar comando'',
                                   resp_details := Some (exn_message e),
                                   resp_stderr := Some (exn_stderr e),
                                   resp_output := Some (if exn_stderr e \<noteq> [] then exn_stderr e
                                                        else exn_message e)\<rparr>, s3))))))"

section \<open>Command Repair Heuristics: \<^verbatim>\<open>shell_fix_command\<close>\<close>

text \<open>
  \<^verbatim>\<open>dockerServiceServer.executeCommand(containerId, command)\<close> is the executor the repair
  runs its commands with. It returns the output of the command or throws an error with a
  message; the container changes from one call to the next, so the executor takes the
  state of the outside world and returns the new one. \<open>Inl msg\<close> is the thrown error.
\<close>

type_synonym 'w executor = "string \<Rightarrow> string list \<Rightarrow> 'w \<Rightarrow> (string + string) \<times> 'w"

text \<open>
  The calls of the executor are recorded in the order they are made, each with the place
  it is made from (a lookup while the fix is computed, or the run of the fixed command),
  its command and its outcome.
\<close>

datatype call_kind = Lookup | Rerun

record 'w fx =
  fx_world :: 'w
  fx_calls :: "(call_kind \<times> string list \<times> (string + string)) list"

definition callExec ::
  "'w executor \<Rightarrow> call_kind \<Rightarrow> string \<Rightarrow> string list \<Rightarrow> 'w fx \<Rightarrow> (string + string) \<times> 'w fx" where
  "callExec ex k cid cmd s =
     (case ex cid cmd (fx_world s) of
        (r, w') \<Rightarrow> (r, \<lparr>fx_world = w', fx_calls = fx_calls s @ [(k, cmd, r)]\<rparr>))"

text \<open>
  \<^verbatim>\<open>new RegExp(`^${mainCommand}(\\s)`)\<close> is built from a token of the failed command. When
  every character of the token is a pattern character of ECMA-262 (none of
  \<^verbatim>\<open>^ $ \ . * + ? ( ) [ ] { } |\<close>), the pattern is that word followed by one white space
  character. For any other token the regular expression engine decides: it is a parameter
  \<open>rx\<close> of the model, from the token, the text and the template to the new text, or to the
  message of the \<^verbatim>\<open>SyntaxError\<close> the constructor throws.
\<close>

type_synonym regexp_engine = "string \<Rightarrow> string \<Rightarrow> string \<Rightarrow> string + string"

definition isSyntaxCharacter :: "char \<Rightarrow> bool" where
  "isSyntaxCharacter c = (c \<in> set ''^$.*+?()[]{}|'' \<or> c = bs)"

definition replaceMainCommand :: "regexp_engine \<Rightarrow> string \<Rightarrow> string \<Rightarrow> string \<Rightarrow> string + string" where
  "replaceMainCommand rx s mainCommand template =
     (if \<exists>c \<in> set mainCommand. isSyntaxCharacter c then rx mainCommand s template
      else Inr (replaceLeadingWord s mainCommand template))"

datatype strategy =
  unknown | file_not_found | permission_denied | command_not_found | syntax_error
  | general_fallback

record fix_args =
  container_id :: string
  failed_command :: string
  error_message :: string

text \<open>The object the callback returns; a property that is not set is \<open>None\<close>.\<close>

record fix_report =
  original_command :: string
  fixed_command :: "string option"
  fix_strategy :: "strategy option"
  fix_success :: bool
  fix_output :: "string option"
  fix_error :: "string option"

text \<open>\<^verbatim>\<open>`bash -c "${originalCommand.replace(/"/g, '\\"')}"`\<close>\<close>

definition wrapInBash :: "string \<Rightarrow> string" where
  \<open>wrapInBash originalCommand =
     ''bash -c "'' @ replaceAllChar originalCommand dq [bs, dq] @ ''"''\<close>

text \<open>Branch 1 of the repair: the error text contains \<^verbatim>\<open>No such file or directory\<close>.\<close>

definition fixFileNotFound ::
  "'w executor \<Rightarrow> string \<Rightarrow> string \<Rightarrow> 'w fx \<Rightarrow> (string + string) \<times> 'w fx" where
  \<open>fixFileNotFound ex cid originalCommand s =
     (let fileName = last (splitOn (CHR '' '') originalCommand) in
      if fileName \<noteq> [] \<and> \<not> startsWith fileName ''-'' then
        (let cleanFileName = filter (\<lambda>c. c \<noteq> dq \<and> c \<noteq> CHR 0x27) fileName in
         case callExec ex Lookup cid
                [''find'', ''/uploads'', ''-name'', cleanFileName, ''-type'', ''f''] s of
           (Inl e, s1) \<Rightarrow> (Inl e, s1)
         | (Inr foundFiles, s1) \<Rightarrow>
             if trim foundFiles \<noteq> [] then
               (Inr (replaceStr originalCommand fileName (hd (splitOn nl (trim foundFiles)))), s1)
             else if includes_js cleanFileName '' '' then
               (Inr (replaceStr originalCommand fileName ([dq] @ cleanFileName @ [dq])), s1)
             else
               (case callExec ex Lookup cid
                       [''bash'', ''-c'',
                        ''find / -name "'' @ cleanFileName @ ''" -type f 2>/dev/null | head -1''] s1 of
                  (Inl e, s2) \<Rightarrow> (Inl e, s2)
                | (Inr findAllResult, s2) \<Rightarrow>
                    if trim findAllResult \<noteq> [] then
                      (Inr (replaceStr originalCommand fileName (trim findAllResult)), s2)
                    else (Inr originalCommand, s2)))
      else (Inr originalCommand, s))\<close>

text \<open>Branch 2: the error text contains \<^verbatim>\<open>Permission denied\<close>.\<close>

definition fixPermissionDenied :: "string \<Rightarrow> string" where
  \<open>fixPermissionDenied originalCommand =
     (if \<not> startsWith originalCommand ''sudo '' then ''sudo '' @ originalCommand
      else ''bash -c "'' @ originalCommand @ ''"'')\<close>

text \<open>Branch 3: the error text contains \<^verbatim>\<open>command not found\<close> or \<^verbatim>\<open>not found\<close>. First the
  aliases of the Python and Node interpreters, then the lookup of the first token with
  \<^verbatim>\<open>which\<close> when the command is still the original one.\<close>

definition fixInterpreterAlias ::
  "'w executor \<Rightarrow> string \<Rightarrow> string \<Rightarrow> 'w fx \<Rightarrow> (string + string) \<times> 'w fx" where
  \<open>fixInterpreterAlias ex cid originalCommand s =
     (let mainCommand = hd (splitOn (CHR '' '') originalCommand) in
      if mainCommand = ''python'' \<or> mainCommand = ''python3'' then
        (case callExec ex Lookup cid
                [''bash'', ''-c'',
                 ''command -v python || command -v python3 || echo "No Python found"''] s of
           (Inl e, s1) \<Rightarrow> (Inl e, s1)
         | (Inr pythonVersions, s1) \<Rightarrow>
             if includes_js pythonVersions ''python3''
               then (Inr (replaceLeadingWord originalCommand ''python'' ''python3$1''), s1)
             else if includes_js pythonVersions ''python''
               then (Inr (replaceLeadingWord originalCommand ''python3'' ''python$1''), s1)
             else (Inr originalCommand, s1))
      else if mainCommand = ''node'' \<or> mainCommand = ''npm'' then
        (case callExec ex Lookup cid
                [''bash'', ''-c'',
                 ''command -v node || command -v nodejs || echo "No Node.js found"''] s of
           (Inl e, s1) \<Rightarrow> (Inl e, s1)
         | (Inr nodeCheck, s1) \<Rightarrow>
             if includes_js nodeCheck ''nodejs'' \<and> \<not> includes_js nodeCheck ''node''
               then (Inr (replaceLeadingWord originalCommand ''node'' ''nodejs$1''), s1)
             else (Inr originalCommand, s1))
      else (Inr originalCommand, s))\<close>

definition fixCommandNotFound ::
  "'w executor \<Rightarrow> regexp_engine \<Rightarrow> string \<Rightarrow> string \<Rightarrow> 'w fx \<Rightarrow> (string + string) \<times> 'w fx" where
  \<open>fixCommandNotFound ex rx cid originalCommand s =
     (let mainCommand = hd (splitOn (CHR '' '') originalCommand) in
      case fixInterpreterAlias ex cid originalCommand s of
        (Inl e, s1) \<Rightarrow> (Inl e, s1)
      | (Inr fixedCommand, s1) \<Rightarrow>
          if fixedCommand = originalCommand then
            (case callExec ex Lookup cid
                    [''bash'', ''-c'', ''which '' @ mainCommand @ '' || echo "Not found"''] s1 of
               (Inl e, s2) \<Rightarrow> (Inl e, s2)
             | (Inr whichCommand, s2) \<Rightarrow>
                 if \<not> includes_js whichCommand ''Not found'' then
                   (replaceMainCommand rx originalCommand mainCommand (trim whichCommand @ ''$1''), s2)
                 else (Inr originalCommand, s2))
          else (Inr fixedCommand, s1))\<close>

text \<open>
  The chain of the four branches, in the order of the source, and the fallback after it:
  the strategy chosen and the fixed command, or the message of an error thrown on the
  way.
\<close>

definition computeFix ::
  "'w executor \<Rightarrow> regexp_engine \<Rightarrow> fix_args \<Rightarrow> 'w fx \<Rightarrow> (string + strategy \<times> string) \<times> 'w fx" where
  \<open>computeFix ex rx args s =
     (let originalCommand = failed_command args; errorMsg = error_message args in
      if includes_js errorMsg ''No such file or directory'' then
        (case fixFileNotFound ex (container_id args) originalCommand s of
           (Inl e, s1) \<Rightarrow> (Inl e, s1)
         | (Inr fixedCommand, s1) \<Rightarrow> (Inr (file_not_found, fixedCommand), s1))
      else if includes_js errorMsg ''Permission denied'' then
        (Inr (permission_denied, fixPermissionDenied originalCommand), s)
      else if includes_js errorMsg ''command not found'' \<or> includes_js errorMsg ''not found'' then
        (case fixCommandNotFound ex rx (container_id args) originalCommand s of
           (Inl e, s1) \<Rightarrow> (Inl e, s1)
         | (Inr fixedCommand, s1) \<Rightarrow> (Inr (command_not_found, fixedCommand), s1))
      else if includes_js errorMsg ''unexpected token'' \<or> includes_js errorMsg ''syntax error'' then
        (Inr (syntax_error, wrapInBash originalCommand), s)
      else if originalCommand \<noteq> wrapInBash originalCommand then
        (Inr (general_fallback, wrapInBash originalCommand), s)
      else (Inr (unknown, originalCommand), s))\<close>

text \<open>The tokens the fixed command is run with (\<^verbatim>\<open>commandParts\<close>).\<close>

definition commandParts :: "string \<Rightarrow> string list" where
  \<open>commandParts fixedCommand =
     (if startsWith fixedCommand ''bash -c''
        then [''bash'', ''-c'', stripQuotes (trim (drop 8 fixedCommand))]
      else if includes_js fixedCommand '' '' then splitOn (CHR '' '') fixedCommand
      else [fixedCommand])\<close>

text \<open>
  The callback: the outer \<^verbatim>\<open>try\<close> catches what the computation of the fix throws, the
  inner one what the run of the fixed command throws.
\<close>

definition shell_fix_command ::
  "'w executor \<Rightarrow> regexp_engine \<Rightarrow> fix_args \<Rightarrow> 'w fx \<Rightarrow> fix_report \<times> 'w fx" where
  "shell_fix_command ex rx args s =
     (case computeFix ex rx args s of
        (Inl e, s1) \<Rightarrow>
          (\<lparr>original_command = failed_command args, fixed_command = None,
            fix_strategy = None, fix_success = False, fix_output = None,
            fix_error = Some e\<rparr>, s1)
      | (Inr (strat, fixedCommand), s1) \<Rightarrow>
          (case callExec ex Rerun (container_id args) (commandParts fixedCommand) s1 of
             (Inr out, s2) \<Rightarrow>
               (\<lparr>original_command = failed_command args, fixed_command = Some fixedCommand,
                 fix_strategy = Some strat, fix_success = True, fix_output = Some out,
                 fix_error = None\<rparr>, s2)
           | (Inl msg, s2) \<Rightarrow>
               (\<lparr>original_command = failed_command args, fixed_command = Some fixedCommand,
                 fix_strategy = Some strat, fix_success = False, fix_output = Some msg,
                 fix_error = None\<rparr>, s2)))"

text \<open>
  Scenario 1 of the spec: the command \<^verbatim>\<open>foo --version\<close> failed with
  \<^verbatim>\<open>bash: foo: command not found\<close>; \<open>whichFoo\<close> is the lookup the repair then makes.
\<close>

definition scenario1 :: "string \<Rightarrow> fix_args" where
  "scenario1 cid = \<lparr>container_id = cid, failed_command = ''foo --version'',
     error_message = ''bash: foo: command not found''\<rparr>"

definition whichFoo :: "string list" where
  \<open>whichFoo = [''bash'', ''-c'', ''which foo || echo "Not found"'']\<close>

text \<open>What a computation leaves in the record of calls: lookups only, and when one of
  them threw, the computation ended with that error.\<close>

definition lookupsOnly ::
  "(call_kind \<times> string list \<times> (string + string)) list \<Rightarrow> (string + 'a) \<Rightarrow> bool" where
  "lookupsOnly L res =
     ((\<forall>x \<in> set L. fst x = Lookup) \<and>
      (\<forall>x \<in> set L. \<forall>e. snd (snd x) = Inl e \<longrightarrow> res = Inl e))"

section \<open>Container Registry: the route handlers\<close>

text \<open>
  One container as the handlers report it (\<^verbatim>\<open>ContainerInfo\<close>). \<open>ci_created = None\<close> is a
  record without the property \<^verbatim>\<open>created\<close>. The properties \<^verbatim>\<open>rawStatus\<close> and \<^verbatim>\<open>ports\<close> of the
  responses are read by none of the functions modelled here and are left out.
\<close>

record container_info =
  ci_id :: string
  ci_name :: string
  ci_image :: string
  ci_status :: string
  ci_created :: "string option"

text \<open>The reply to one request: the body of a response with a status of success, the
  status and error text of any other response, or no response at all (\<^verbatim>\<open>fetch\<close>
  throws).\<close>

datatype 'a reply = Ok 'a | Failed nat string | NoReply string

text \<open>
  What the handlers take from the platform besides the shell: the clock
  (\<^verbatim>\<open>Date.now()\<close> and \<^verbatim>\<open>new Date().toISOString()\<close>), whether \<^verbatim>\<open>JSON.parse(text)[0]\<close>
  evaluates, and the writing of the Dockerfile (\<open>True\<close> when \<^verbatim>\<open>writeFileSync\<close> returns).
\<close>

record 'w platform =
  pf_shell :: "'w shell"
  pf_now :: "'w \<Rightarrow> nat"
  pf_iso :: "'w \<Rightarrow> string"
  pf_jsonFirst :: "string \<Rightarrow> bool"
  pf_writeDockerfile :: "'w \<Rightarrow> bool \<times> 'w"

text \<open>A natural number in decimal, as a template literal prints it.\<close>

fun showNat :: "nat \<Rightarrow> string" where
  "showNat n = (if n < 10 then [hexDigit n] else showNat (n div 10) @ [hexDigit (n mod 10)])"

definition defaultImage :: string where
  "defaultImage = ''codeai-execution-env:latest''"

definition listCmd5 :: string where
  \<open>listCmd5 = ''docker ps -a --format "{{.ID}}|{{.Names}}|{{.Image}}|{{.Status}}|{{.CreatedAt}}"''\<close>

definition listCmd3 :: string where
  \<open>listCmd3 = ''docker ps -a --format "{{.ID}}|{{.Names}}|{{.Image}}"''\<close>

text \<open>\<^verbatim>\<open>output.trim().split('\n').filter(line => line.trim() !== '')\<close>\<close>

definition outputLines :: "string \<Rightarrow> string list" where
  "outputLines out = filter (\<lambda>line. trim line \<noteq> []) (splitOn nl (trim out))"

text \<open>The normalised status, from the status text of the runtime.\<close>

definition statusText :: "string \<Rightarrow> string" where
  "statusText status =
     (if includes_js status ''Up'' then ''running''
      else if includes_js status ''Exited'' then ''exited''
      else if includes_js status ''Created'' then ''created''
      else ''unknown'')"

definition typeError :: string where
  "typeError = ''Cannot read properties of undefined (reading includes)''"

text \<open>
  One line of the listing with five fields. A line with fewer than four fields leaves
  \<^verbatim>\<open>status\<close> undefined, and \<^verbatim>\<open>status.includes\<close> throws a \<^verbatim>\<open>TypeError\<close>.
\<close>

definition parseLine5 :: "string \<Rightarrow> string + container_info" where
  "parseLine5 line =
     (case splitOn (CHR ''|'') line of
        i # name # img # status # rest \<Rightarrow>
          Inr \<lparr>ci_id = i, ci_name = name, ci_image = img, ci_status = statusText status,
               ci_created = (case rest of [] \<Rightarrow> None | c # _ \<Rightarrow> Some c)\<rparr>
      | _ \<Rightarrow> Inl typeError)"

text \<open>\<^verbatim>\<open>xs.map(f)\<close> for an \<open>f\<close> that may throw: the first error ends the loop.\<close>

fun mapThrowing :: "('a \<Rightarrow> string + 'b) \<Rightarrow> 'a list \<Rightarrow> string + 'b list" where
  "mapThrowing f [] = Inr []"
| "mapThrowing f (x # xs) =
     (case f x of
        Inl e \<Rightarrow> Inl e
      | Inr y \<Rightarrow> (case mapThrowing f xs of Inl e \<Rightarrow> Inl e | Inr ys \<Rightarrow> Inr (y # ys)))"

text \<open>The filter of the application: the name or the image contains \<^verbatim>\<open>codeai\<close>.\<close>

definition isAppContainer :: "string \<Rightarrow> string \<Rightarrow> bool" where
  "isAppContainer name img = (includes_js name ''codeai'' \<or> includes_js img ''codeai'')"

subsection \<open>\<^verbatim>\<open>GET /api/docker/containers\<close>\<close>

definition containers_GET :: "'w platform \<Rightarrow> 'w hx \<Rightarrow> container_info list reply \<times> 'w hx" where
  "containers_GET pf s =
     (case execSync (pf_shell pf) defaultMaxBuffer listCmd5 s of
        (Inl e, s1) \<Rightarrow> (Failed 500 ''Error al obtener lista de contenedores'', s1)
      | (Inr out, s1) \<Rightarrow>
          (case mapThrowing parseLine5 (outputLines out) of
             Inl e \<Rightarrow> (Failed 500 ''Error al obtener lista de contenedores'', s1)
           | Inr containers \<Rightarrow>
               (Ok (filter (\<lambda>c. isAppContainer (ci_name c) (ci_image c)) containers), s1)))"

subsection \<open>\<^verbatim>\<open>POST /api/docker/cleanup-others\<close> and \<^verbatim>\<open>POST /api/docker/cleanup\<close>\<close>

text \<open>
  One line of the listing with three fields: a field that the line does not have is
  undefined. The filter reads the name first and the image only when the name does not
  match; reading \<^verbatim>\<open>includes\<close> of an undefined field throws.
\<close>

definition parseLine3 :: "string \<Rightarrow> string \<times> string option \<times> string option" where
  "parseLine3 line =
     (case splitOn (CHR ''|'') line of
        [] \<Rightarrow> ([], None, None)
      | [i] \<Rightarrow> (i, None, None)
      | [i, name] \<Rightarrow> (i, Some name, None)
      | i # name # img # _ \<Rightarrow> (i, Some name, Some img))"

definition appFilter3 :: "string \<times> string option \<times> string option \<Rightarrow> string + bool" where
  "appFilter3 c =
     (case c of
        (i, None, _) \<Rightarrow> Inl typeError
      | (i, Some name, img) \<Rightarrow>
          if includes_js name ''codeai'' then Inr True
          else (case img of None \<Rightarrow> Inl typeError
                | Some im \<Rightarrow> Inr (includes_js im ''codeai'')))"

text \<open>\<^verbatim>\<open>xs.filter(f)\<close> for an \<open>f\<close> that may throw.\<close>

fun filterThrowing :: "('a \<Rightarrow> string + bool) \<Rightarrow> 'a list \<Rightarrow> string + 'a list" where
  "filterThrowing f [] = Inr []"
| "filterThrowing f (x # xs) =
     (case f x of
        Inl e \<Rightarrow> Inl e
      | Inr b \<Rightarrow> (case filterThrowing f xs of
                    Inl e \<Rightarrow> Inl e
                  | Inr ys \<Rightarrow> Inr (if b then x # ys else ys)))"

text \<open>The containers the cleanup handlers work on: the lines of the listing that pass the
  filter, and for \<^verbatim>\<open>cleanup-others\<close> those whose id is not the one to keep.\<close>

definition cleanupTargets :: "string option \<Rightarrow> string \<Rightarrow> string + (string \<times> string option \<times> string option) list" where
  "cleanupTargets keep out =
     filterThrowing
       (\<lambda>c. case appFilter3 c of
               Inl e \<Rightarrow> Inl e
             | Inr b \<Rightarrow> Inr (b \<and> (case keep of None \<Rightarrow> True | Some k \<Rightarrow> fst c \<noteq> k)))
       (map parseLine3 (outputLines out))"

text \<open>The outcome the handlers report for one container.\<close>

datatype removal = Removed | RemovalError string

text \<open>The sequential removal: each container is stopped and removed inside a \<^verbatim>\<open>try\<close> of
  its own.\<close>

fun removeEach :: "'w shell \<Rightarrow> string list \<Rightarrow> 'w hx \<Rightarrow> (string \<times> removal) list \<times> 'w hx" where
  "removeEach sh [] s = ([], s)"
| "removeEach sh (i # ids) s =
     (case execSync sh defaultMaxBuffer (''docker stop '' @ i) s of
        (Inl e, s1) \<Rightarrow>
          (case removeEach sh ids s1 of
             (rs, s') \<Rightarrow> ((i, RemovalError (exn_message e)) # rs, s'))
      | (Inr _, s1) \<Rightarrow>
          (case execSync sh defaultMaxBuffer (''docker rm '' @ i) s1 of
             (Inl e, s2) \<Rightarrow>
               (case removeEach sh ids s2 of
                  (rs, s') \<Rightarrow> ((i, RemovalError (exn_message e)) # rs, s'))
           | (Inr _, s2) \<Rightarrow>
               (case removeEach sh ids s2 of
                  (rs, s') \<Rightarrow> ((i, Removed) # rs, s'))))"

text \<open>The removal in one batch: one \<^verbatim>\<open>docker stop\<close> and one \<^verbatim>\<open>docker rm\<close> for all ids;
  \<open>None\<close> when either throws.\<close>

definition removeBatch :: "'w shell \<Rightarrow> string list \<Rightarrow> 'w hx \<Rightarrow> (string \<times> removal) list option \<times> 'w hx" where
  "removeBatch sh ids s =
     (case execSync sh defaultMaxBuffer (''docker stop '' @ join '' '' ids) s of
        (Inl e, s1) \<Rightarrow> (None, s1)
      | (Inr _, s1) \<Rightarrow>
          (case execSync sh defaultMaxBuffer (''docker rm '' @ join '' '' ids) s1 of
             (Inl e, s2) \<Rightarrow> (None, s2)
           | (Inr _, s2) \<Rightarrow> (Some (map (\<lambda>i. (i, Removed)) ids), s2)))"

definition cleanup_others_POST ::
  "'w platform \<Rightarrow> string \<Rightarrow> 'w hx \<Rightarrow> (string \<times> removal) list reply \<times> 'w hx" where
  "cleanup_others_POST pf keepContainerId s =
     (if keepContainerId = [] then
        (Failed 400 ''Se requiere especificar el ID del contenedor a mantener'', s)
      else
        (case execSync (pf_shell pf) defaultMaxBuffer listCmd3 s of
           (Inl e, s1) \<Rightarrow> (Failed 500 ''Error al limpiar recursos Docker'', s1)
         | (Inr out, s1) \<Rightarrow>
             (case cleanupTargets (Some keepContainerId) out of
                Inl e \<Rightarrow> (Failed 500 ''Error al limpiar recursos Docker'', s1)
              | Inr containers \<Rightarrow>
                  if containers = [] then (Ok [], s1)
                  else
                    (case removeBatch (pf_shell pf) (map fst containers) s1 of
                       (Some results, s2) \<Rightarrow> (Ok results, s2)
                     | (None, s2) \<Rightarrow>
                         (case removeEach (pf_shell pf) (map fst containers) s2 of
                            (results, s3) \<Rightarrow> (Ok results, s3))))))"

definition cleanup_POST :: "'w platform \<Rightarrow> 'w hx \<Rightarrow> (string \<times> removal) list reply \<times> 'w hx" where
  "cleanup_POST pf s =
     (case execSync (pf_shell pf) defaultMaxBuffer listCmd3 s of
        (Inl e, s1) \<Rightarrow> (Failed 500 ''Error al limpiar recursos Docker'', s1)
      | (Inr out, s1) \<Rightarrow>
          (case cleanupTargets None out of
             Inl e \<Rightarrow> (Failed 500 ''Error al limpiar recursos Docker'', s1)
           | Inr containers \<Rightarrow>
               (case removeEach (pf_shell pf) (map fst containers) s1 of
                  (results, s2) \<Rightarrow> (Ok results, s2))))"

subsection \<open>\<^verbatim>\<open>POST /api/docker/container\<close>\<close>

text \<open>\<^verbatim>\<open>DockerContainerConfig\<close>: an optional array that is absent is the empty list.\<close>

record container_config =
  cfg_image :: string
  cfg_name :: "string option"
  cfg_ports :: "string list"
  cfg_volumes :: "string list"
  cfg_envVars :: "(string \<times> string) list"
  cfg_command :: "string list"
  cfg_workdir :: "string option"

definition dockerRunCmd :: "string \<Rightarrow> string \<Rightarrow> container_config \<Rightarrow> string" where
  "dockerRunCmd name img config =
     ''docker run -d --name '' @ name @
     concat (map (\<lambda>port. '' -p '' @ port) (cfg_ports config)) @
     concat (map (\<lambda>(k, v). '' -e '' @ k @ ''='' @ v) (cfg_envVars config)) @
     concat (map (\<lambda>volume. '' -v '' @ volume) (cfg_volumes config)) @
     (case cfg_workdir config of
        None \<Rightarrow> []
      | Some d \<Rightarrow> if d = [] then [] else '' -w '' @ d) @
     '' '' @ img @
     (if cfg_command config = [] then [] else '' '' @ join '' '' (cfg_command config))"

text \<open>A command whose outcome the handler ignores (a \<^verbatim>\<open>try\<close> around it that only
  logs).\<close>

definition runIgnored :: "'w shell \<Rightarrow> string \<Rightarrow> 'w hx \<Rightarrow> 'w hx" where
  "runIgnored sh cmdline s = snd (execSync sh defaultMaxBuffer cmdline s)"

definition generatedName :: "'w platform \<Rightarrow> 'w hx \<Rightarrow> string" where
  "generatedName pf s = ''codeai-container-'' @ showNat (pf_now pf (hx_world s))"

definition container_POST ::
  "'w platform \<Rightarrow> container_config \<Rightarrow> 'w hx \<Rightarrow> container_info reply \<times> 'w hx" where
  "container_POST pf config s =
     (let img = (if cfg_image config = [] then defaultImage else cfg_image config);
          name = (case cfg_name config of
                    None \<Rightarrow> generatedName pf s
                  | Some n \<Rightarrow> if n = [] then generatedName pf s else n)
      in case execSync (pf_shell pf) defaultMaxBuffer (dockerRunCmd name img config) s of
           (Inl e, s1) \<Rightarrow> (Failed 500 ''No se pudo crear el contenedor Docker'', s1)
         | (Inr out, s1) \<Rightarrow>
             (let containerId = trim out;
                  s2 = runIgnored (pf_shell pf) (''docker exec '' @ containerId @ '' python3 --version'') s1;
                  s3 = runIgnored (pf_shell pf) (''docker exec '' @ containerId @ '' node --version'') s2;
                  s4 = runIgnored (pf_shell pf) (''docker exec '' @ containerId @ '' ls -la /app'') s3;
                  s5 = runIgnored (pf_shell pf) (''docker exec '' @ containerId @ '' cat /etc/os-release'') s4;
                  s6 = runIgnored (pf_shell pf) (''docker exec '' @ containerId @ '' mkdir -p /app/uploads'') s5
              in case execSync (pf_shell pf) defaultMaxBuffer
                        (''docker container inspect '' @ containerId) s6 of
                   (Inl e, s7) \<Rightarrow> (Failed 500 ''No se pudo crear el contenedor Docker'', s7)
                 | (Inr inspected, s7) \<Rightarrow>
                     if pf_jsonFirst pf inspected then
                       (Ok \<lparr>ci_id = containerId, ci_name = name, ci_image = img,
                            ci_status = ''running'',
                            ci_created = Some (pf_iso pf (hx_world s7))\<rparr>, s7)
                     else (Failed 500 ''No se pudo crear el contenedor Docker'', s7)))"

subsection \<open>\<^verbatim>\<open>DELETE /api/docker/container/[id]\<close>\<close>

definition container_DELETE :: "'w platform \<Rightarrow> string \<Rightarrow> 'w hx \<Rightarrow> unit reply \<times> 'w hx" where
  "container_DELETE pf containerId s =
     (if containerId = [] then (Failed 400 ''ID de contenedor no proporcionado'', s)
      else
        (case execSync (pf_shell pf) defaultMaxBuffer
                (''docker container inspect '' @ containerId) s of
           (Inl e, s1) \<Rightarrow> (Failed 404 (''El contenedor '' @ containerId @ '' no existe''), s1)
         | (Inr _, s1) \<Rightarrow>
             (case execSync (pf_shell pf) defaultMaxBuffer (''docker stop '' @ containerId) s1 of
                (Inl e, s2) \<Rightarrow> (Failed 500 ''Error al eliminar el contenedor'', s2)
              | (Inr _, s2) \<Rightarrow>
                  (case execSync (pf_shell pf) defaultMaxBuffer (''docker rm '' @ containerId) s2 of
                     (Inl e, s3) \<Rightarrow> (Failed 500 ''Error al eliminar el contenedor'', s3)
                   | (Inr _, s3) \<Rightarrow> (Ok (), s3)))))"

subsection \<open>\<^verbatim>\<open>POST /api/docker/initialize\<close>\<close>

text \<open>
  The first block of the handler removes the containers of the application; every
  failure in it is caught and the handler goes on.
\<close>

definition initializeCleanup :: "'w shell \<Rightarrow> 'w hx \<Rightarrow> 'w hx" where
  "initializeCleanup sh s =
     (case execSync sh defaultMaxBuffer listCmd3 s of
        (Inl e, s1) \<Rightarrow> s1
      | (Inr out, s1) \<Rightarrow>
          (case cleanupTargets None out of
             Inl e \<Rightarrow> s1
           | Inr containers \<Rightarrow>
               if containers = [] \<or> join '' '' (map fst containers) = [] then s1
               else
                 runIgnored sh (''docker rm '' @ join '' '' (map fst containers))
                   (runIgnored sh (''docker stop '' @ join '' '' (map fst containers)) s1)))"

text \<open>The second block builds the image when the runtime does not have it; \<open>False\<close> when
  it throws.\<close>

definition initializeImage :: "'w platform \<Rightarrow> 'w hx \<Rightarrow> bool \<times> 'w hx" where
  "initializeImage pf s =
     (case execSync (pf_shell pf) defaultMaxBuffer
             (''docker images -q '' @ defaultImage) s of
        (Inl e, s1) \<Rightarrow> (False, s1)
      | (Inr images, s1) \<Rightarrow>
          if trim images \<noteq> [] then (True, s1)
          else
            (case execSync (pf_shell pf) defaultMaxBuffer ''test -f Dockerfile'' s1 of
               (Inr _, s2) \<Rightarrow>
                 (case execSync (pf_shell pf) defaultMaxBuffer
                         (''docker build -t '' @ defaultImage @ '' .'') s2 of
                    (Inl e, s3) \<Rightarrow> (False, s3)
                  | (Inr _, s3) \<Rightarrow> (True, s3))
             | (Inl _, s2) \<Rightarrow>
                 (case pf_writeDockerfile pf (hx_world s2) of
                    (False, w) \<Rightarrow> (False, s2\<lparr>hx_world := w\<rparr>)
                  | (True, w) \<Rightarrow>
                      (case execSync (pf_shell pf) defaultMaxBuffer
                              (''docker build -t '' @ defaultImage @ '' .'') (s2\<lparr>hx_world := w\<rparr>) of
                         (Inl e, s3) \<Rightarrow> (False, s3)
                       | (Inr _, s3) \<Rightarrow> (True, s3)))))"

definition initialize_POST :: "'w platform \<Rightarrow> 'w hx \<Rightarrow> container_info option reply \<times> 'w hx" where
  "initialize_POST pf s =
     (case execSync (pf_shell pf) defaultMaxBuffer ''docker --version'' s of
        (Inl e, s1) \<Rightarrow> (Failed 500 ''Docker no esta instalado o no esta en ejecucion'', s1)
      | (Inr _, s1) \<Rightarrow>
          (case initializeImage pf (initializeCleanup (pf_shell pf) s1) of
             (False, s2) \<Rightarrow> (Failed 500 ''No se pudo crear la imagen Docker'', s2)
           | (True, s2) \<Rightarrow>
               (let containerName = generatedName pf s2 in
                case execSync (pf_shell pf) defaultMaxBuffer
                       (''docker run -d --name '' @ containerName @ '' '' @ defaultImage) s2 of
                  (Inl e, s3) \<Rightarrow> (Failed 500 ''No se pudo crear el contenedor Docker'', s3)
                | (Inr out, s3) \<Rightarrow>
                    (case execSync (pf_shell pf) defaultMaxBuffer
                            (''docker exec '' @ trim out @ '' python3 --version'') s3 of
                       (Inl e, s4) \<Rightarrow> (Failed 500 ''No se pudo crear el contenedor Docker'', s4)
                     | (Inr _, s4) \<Rightarrow>
                         (case execSync (pf_shell pf) defaultMaxBuffer
                                 (''docker exec '' @ trim out @ '' node --version'') s4 of
                            (Inl e, s5) \<Rightarrow> (Failed 500 ''No se pudo crear el contenedor Docker'', s5)
                          | (Inr _, s5) \<Rightarrow>
                              (Ok (Some \<lparr>ci_id = trim out, ci_name = containerName,
                                         ci_image = defaultImage, ci_status = ''running'',
                                         ci_created = Some (pf_iso pf (hx_world s5))\<rparr>), s5))))))"

subsection \<open>The containers of the application in a listing\<close>

text \<open>The ids of the lines of a listing whose name or image contains \<^verbatim>\<open>codeai\<close>, and the
  commands that stop or remove containers among given ids.\<close>

definition appLineIds :: "string \<Rightarrow> string list" where
  "appLineIds out =
     map (\<lambda>line. fst (parseLine3 line))
       (filter (\<lambda>line. appFilter3 (parseLine3 line) = Inr True) (outputLines out))"

definition removalCommands :: "string list \<Rightarrow> string set" where
  "removalCommands allowed =
     {c. \<exists>ids. set ids \<subseteq> set allowed \<and>
            (c = ''docker stop '' @ join '' '' ids \<or> c = ''docker rm '' @ join '' '' ids)}"

section \<open>Pool Reconciler: \<^verbatim>\<open>DockerService\<close> and \<^verbatim>\<open>DockerServiceServer\<close>\<close>

text \<open>
  The two services reach the handlers through \<^verbatim>\<open>fetch\<close>. The server is a record of the
  four endpoints they call, each a function of the state of the server; the handlers of
  the previous section are one such server.
\<close>

record 'w server =
  sv_getContainers :: "'w \<Rightarrow> container_info list reply \<times> 'w"
  sv_postContainer :: "container_config \<Rightarrow> 'w \<Rightarrow> container_info reply \<times> 'w"
  sv_deleteContainer :: "string \<Rightarrow> 'w \<Rightarrow> unit reply \<times> 'w"
  sv_postInitialize :: "'w \<Rightarrow> container_info option reply \<times> 'w"

definition routesServer :: "'w platform \<Rightarrow> ('w hx) server" where
  "routesServer pf =
     \<lparr>sv_getContainers = containers_GET pf, sv_postContainer = container_POST pf,
      sv_deleteContainer = container_DELETE pf, sv_postInitialize = initialize_POST pf\<rparr>"

text \<open>The requests a service sent, in order, the listings it received, in order, and the
  state of the server.\<close>

datatype request =
  GetContainers | PostContainer container_config | DeleteContainer string | PostInitialize

record 'w net =
  net_world :: 'w
  net_sent :: "request list"
  net_listed :: "container_info list list"

definition fetchContainers :: "'w server \<Rightarrow> 'w net \<Rightarrow> container_info list reply \<times> 'w net" where
  "fetchContainers sv n =
     (case sv_getContainers sv (net_world n) of
        (r, w) \<Rightarrow>
          (r, n\<lparr>net_world := w, net_sent := net_sent n @ [GetContainers],
                net_listed := (case r of Ok cs \<Rightarrow> net_listed n @ [cs] | _ \<Rightarrow> net_listed n)\<rparr>))"

definition fetchCreate :: "'w server \<Rightarrow> container_config \<Rightarrow> 'w net \<Rightarrow> container_info reply \<times> 'w net" where
  "fetchCreate sv config n =
     (case sv_postContainer sv config (net_world n) of
        (r, w) \<Rightarrow> (r, n\<lparr>net_world := w, net_sent := net_sent n @ [PostContainer config]\<rparr>))"

definition fetchDelete :: "'w server \<Rightarrow> string \<Rightarrow> 'w net \<Rightarrow> unit reply \<times> 'w net" where
  "fetchDelete sv containerId n =
     (case sv_deleteContainer sv containerId (net_world n) of
        (r, w) \<Rightarrow> (r, n\<lparr>net_world := w, net_sent := net_sent n @ [DeleteContainer containerId]\<rparr>))"

definition fetchInitialize :: "'w server \<Rightarrow> 'w net \<Rightarrow> container_info option reply \<times> 'w net" where
  "fetchInitialize sv n =
     (case sv_postInitialize sv (net_world n) of
        (r, w) \<Rightarrow> (r, n\<lparr>net_world := w, net_sent := net_sent n @ [PostInitialize]\<rparr>))"

text \<open>\<^verbatim>\<open>response.statusText\<close> for the statuses the handlers answer with.\<close>

definition statusTextOf :: "nat \<Rightarrow> string" where
  "statusTextOf st =
     (if st = 400 then ''Bad Request'' else if st = 404 then ''Not Found''
      else if st = 500 then ''Internal Server Error'' else [])"

subsection \<open>\<^verbatim>\<open>DockerService\<close>\<close>

text \<open>
  The state of the service: the pool of the containers it has seen, and how far its
  initialisation is. \<^verbatim>\<open>initPromise\<close> is set by the first call of \<^verbatim>\<open>initialize\<close> and never
  reset, so an initialisation that failed fails again, with the same error, each time it
  is awaited. The log entries of \<^verbatim>\<open>addLog\<close> are left out.
\<close>

datatype init_state = NotInitialized | InitFailed string | Initialized

record docker_service =
  containerPool :: "string \<rightharpoonup> container_info"
  initState :: init_state

definition ensureInitialized ::
  "'w server \<Rightarrow> docker_service \<Rightarrow> 'w net \<Rightarrow> (string + unit) \<times> docker_service \<times> 'w net" where
  "ensureInitialized sv ds n =
     (case initState ds of
        Initialized \<Rightarrow> (Inr (), ds, n)
      | InitFailed e \<Rightarrow> (Inl e, ds, n)
      | NotInitialized \<Rightarrow>
          (case fetchInitialize sv n of
             (Ok c, n1) \<Rightarrow>
               (Inr (),
                ds\<lparr>containerPool := (case c of None \<Rightarrow> containerPool ds
                                       | Some info \<Rightarrow> (containerPool ds)(ci_id info \<mapsto> info)),
                   initState := Initialized\<rparr>, n1)
           | (Failed st t, n1) \<Rightarrow>
               (Inl (''Error al inicializar Docker: '' @ statusTextOf st),
                ds\<lparr>initState := InitFailed (''Error al inicializar Docker: '' @ statusTextOf st)\<rparr>, n1)
           | (NoReply e, n1) \<Rightarrow> (Inl e, ds\<lparr>initState := InitFailed e\<rparr>, n1)))"

definition getAllContainers ::
  "'w server \<Rightarrow> docker_service \<Rightarrow> 'w net \<Rightarrow> (string + container_info list) \<times> docker_service \<times> 'w net" where
  "getAllContainers sv ds n =
     (case fetchContainers sv n of
        (Ok containers, n1) \<Rightarrow>
          (Inr containers,
           ds\<lparr>containerPool := fold (\<lambda>c pool. pool(ci_id c \<mapsto> c)) containers (containerPool ds)\<rparr>,
           n1)
      | (Failed st t, n1) \<Rightarrow> (Inl (''Error al obtener contenedores: '' @ statusTextOf st), ds, n1)
      | (NoReply e, n1) \<Rightarrow> (Inl e, ds, n1))"

definition removeContainer ::
  "'w server \<Rightarrow> string \<Rightarrow> docker_service \<Rightarrow> 'w net \<Rightarrow> (string + unit) \<times> docker_service \<times> 'w net" where
  "removeContainer sv containerId ds n =
     (case containerPool ds containerId of
        None \<Rightarrow> (Inl (''Contenedor '' @ containerId @ '' no encontrado''), ds, n)
      | Some info \<Rightarrow>
          (case fetchDelete sv containerId n of
             (Ok _, n1) \<Rightarrow> (Inr (), ds\<lparr>containerPool := (containerPool ds)(containerId := None)\<rparr>, n1)
           | (Failed st t, n1) \<Rightarrow> (Inl (''Error al eliminar contenedor: '' @ statusTextOf st), ds, n1)
           | (NoReply e, n1) \<Rightarrow> (Inl e, ds, n1)))"

text \<open>The loop of \<^verbatim>\<open>forceCleanupExceptLatest\<close>: what a removal throws is caught for that
  container, and the loop goes on with the next one.\<close>

fun removeAllExcept ::
  "'w server \<Rightarrow> string \<Rightarrow> container_info list \<Rightarrow> docker_service \<Rightarrow> 'w net \<Rightarrow> docker_service \<times> 'w net" where
  "removeAllExcept sv keep [] ds n = (ds, n)"
| "removeAllExcept sv keep (c # cs) ds n =
     (if ci_id c \<noteq> keep then
        (case removeContainer sv (ci_id c) ds n of
           (_, ds1, n1) \<Rightarrow> removeAllExcept sv keep cs ds1 n1)
      else removeAllExcept sv keep cs ds n)"

definition forceCleanupExceptLatest ::
  "'w server \<Rightarrow> string \<Rightarrow> docker_service \<Rightarrow> 'w net \<Rightarrow> bool \<times> docker_service \<times> 'w net" where
  "forceCleanupExceptLatest sv keepContainerId ds n =
     (case getAllContainers sv ds n of
        (Inl e, ds1, n1) \<Rightarrow> (False, ds1, n1)
      | (Inr containers, ds1, n1) \<Rightarrow>
          (case removeAllExcept sv keepContainerId containers ds1 n1 of
             (ds2, n2) \<Rightarrow> (True, ds2, n2)))"

text \<open>
  The comparator of the sort. \<open>parseDate\<close> is \<^verbatim>\<open>new Date(text).getTime()\<close>, a function of the
  platform: \<open>None\<close> is \<^verbatim>\<open>NaN\<close>, and a comparator that returns \<^verbatim>\<open>NaN\<close> counts as returning 0.
\<close>

definition compareCreated :: "(string \<Rightarrow> int option) \<Rightarrow> container_info \<Rightarrow> container_info \<Rightarrow> int" where
  "compareCreated parseDate a b =
     (case (ci_created a, ci_created b) of
        (Some x, Some y) \<Rightarrow>
          if x = [] \<or> y = [] then 0
          else (case (parseDate y, parseDate x) of
                  (Some ty, Some tx) \<Rightarrow> ty - tx
                | _ \<Rightarrow> 0)
      | _ \<Rightarrow> 0)"

text \<open>
  \<^verbatim>\<open>Array.prototype.sort\<close> is a function of the platform. ECMA-262 fixes its result when
  the comparator is a consistent comparison function for the values of the array
  (\<open>consistentOn\<close>: with \<open><\<close>, \<open>=\<close> and \<open>>\<close> read as a negative, zero and positive result, \<open>=\<close> is
  reflexive and symmetric and each of the three is transitive): the array in the order of
  the comparator, stable, which is what the insertion sort \<open>stableSort\<close> computes. The
  comparator here is consistent when every container has a creation time that parses, and
  when none has. For any other comparator ECMA-262 leaves the order to the
  implementation: the result is some permutation of the array, and the parameter \<open>pick\<close>
  of the model says which, by the positions the implementation takes the elements from
  one after the other (\<open>permute\<close>).
\<close>

definition consistentOn :: "('a \<Rightarrow> 'a \<Rightarrow> int) \<Rightarrow> 'a list \<Rightarrow> bool" where
  "consistentOn cmp xs =
     ((\<forall>a \<in> set xs. cmp a a = 0) \<and>
      (\<forall>a \<in> set xs. \<forall>b \<in> set xs. cmp a b = 0 \<longrightarrow> cmp b a = 0) \<and>
      (\<forall>a \<in> set xs. \<forall>b \<in> set xs. \<forall>c \<in> set xs.
         (cmp a b = 0 \<and> cmp b c = 0 \<longrightarrow> cmp a c = 0) \<and>
         (cmp a b < 0 \<and> cmp b c < 0 \<longrightarrow> cmp a c < 0) \<and>
         (cmp a b > 0 \<and> cmp b c > 0 \<longrightarrow> cmp a c > 0)))"

fun insertSorted :: "('a \<Rightarrow> 'a \<Rightarrow> int) \<Rightarrow> 'a \<Rightarrow> 'a list \<Rightarrow> 'a list" where
  "insertSorted cmp x [] = [x]"
| "insertSorted cmp x (y # ys) =
     (if cmp x y \<le> 0 then x # y # ys else y # insertSorted cmp x ys)"

definition stableSort :: "('a \<Rightarrow> 'a \<Rightarrow> int) \<Rightarrow> 'a list \<Rightarrow> 'a list" where
  "stableSort cmp xs = foldr (insertSorted cmp) xs []"

fun permute :: "nat list \<Rightarrow> 'a list \<Rightarrow> 'a list" where
  "permute [] xs = xs"
| "permute (i # positions) xs =
     (if xs = [] then []
      else xs ! (i mod length xs) #
           permute positions (take (i mod length xs) xs @ drop (Suc (i mod length xs)) xs))"

type_synonym 'a sort_order = "('a \<Rightarrow> 'a \<Rightarrow> int) \<Rightarrow> 'a list \<Rightarrow> nat list"

definition sortWith :: "'a sort_order \<Rightarrow> ('a \<Rightarrow> 'a \<Rightarrow> int) \<Rightarrow> 'a list \<Rightarrow> 'a list" where
  "sortWith pick cmp xs =
     (if consistentOn cmp xs then stableSort cmp xs else permute (pick cmp xs) xs)"

definition defaultConfig :: container_config where
  "defaultConfig = \<lparr>cfg_image = defaultImage, cfg_name = None, cfg_ports = [], cfg_volumes = [],
     cfg_envVars = [], cfg_command = [], cfg_workdir = None\<rparr>"

text \<open>\<^verbatim>\<open>c.status === 'running' && (!config || c.image === config.image)\<close>\<close>

definition reusable :: "container_config option \<Rightarrow> container_info \<Rightarrow> bool" where
  "reusable config c =
     (ci_status c = ''running'' \<and>
      (case config of None \<Rightarrow> True | Some cfg \<Rightarrow> ci_image c = cfg_image cfg))"

text \<open>The second half of \<^verbatim>\<open>getAvailableContainer\<close>: no container can be reused, and a new
  one is created; \<open>containers\<close> is the first listing.\<close>

definition createContainer ::
  "'w server \<Rightarrow> container_config option \<Rightarrow> container_info list \<Rightarrow> docker_service \<Rightarrow> 'w net \<Rightarrow>
     (string + container_info) \<times> docker_service \<times> 'w net" where
  "createContainer sv config containers ds n =
     (case fetchCreate sv (case config of None \<Rightarrow> defaultConfig | Some cfg \<Rightarrow> cfg) n of
        (Ok info, n1) \<Rightarrow>
          (let ds1 = ds\<lparr>containerPool := (containerPool ds)(ci_id info \<mapsto> info)\<rparr> in
           if containers \<noteq> [] then
             (case forceCleanupExceptLatest sv (ci_id info) ds1 n1 of
                (_, ds2, n2) \<Rightarrow> (Inr info, ds2, n2))
           else (Inr info, ds1, n1))
      | (Failed st t, n1) \<Rightarrow> (Inl (''Error al crear contenedor: '' @ statusTextOf st), ds, n1)
      | (NoReply e, n1) \<Rightarrow> (Inl e, ds, n1))"

definition getAvailableContainer ::
  "(string \<Rightarrow> int option) \<Rightarrow> container_info sort_order \<Rightarrow> 'w server \<Rightarrow>
     container_config option \<Rightarrow> docker_service \<Rightarrow> 'w net \<Rightarrow>
     (string + container_info) \<times> docker_service \<times> 'w net" where
  "getAvailableContainer parseDate pick sv config ds n =
     (case ensureInitialized sv ds n of
        (Inl e, ds0, n0) \<Rightarrow> (Inl e, ds0, n0)
      | (Inr _, ds0, n0) \<Rightarrow>
          (case getAllContainers sv ds0 n0 of
             (Inl e, ds1, n1) \<Rightarrow> (Inl e, ds1, n1)
           | (Inr containers, ds1, n1) \<Rightarrow>
               if 1 < length containers then
                 (let latestContainer = hd (sortWith pick (compareCreated parseDate) containers) in
                  case forceCleanupExceptLatest sv (ci_id latestContainer) ds1 n1 of
                    (_, ds2, n2) \<Rightarrow>
                      if reusable config latestContainer then (Inr latestContainer, ds2, n2)
                      else createContainer sv config containers ds2 n2)
               else if length containers = 1 \<and> reusable config (hd containers)
                 then (Inr (hd containers), ds1, n1)
               else createContainer sv config containers ds1 n1))"

subsection \<open>\<^verbatim>\<open>DockerServiceServer\<close>\<close>


text \<open>
  \<^verbatim>\<open>DockerServiceServer.executeCommand\<close>, over the handler of the Command Executor: it
  throws when the response is not \<^verbatim>\<open>ok\<close> (a status outside 200 to 299) and otherwise
  returns \<^verbatim>\<open>data.output || ''\<close>; it does not read \<^verbatim>\<open>data.success\<close>.
\<close>

definition executeCommandServer :: "'w shell \<Rightarrow> ('w hx) executor" where
  "executeCommandServer sh containerId command s =
     (case execute_POST sh (Inr \<lparr>req_containerId = containerId, req_command = Some command\<rparr>) s of
        (response, s') \<Rightarrow>
          (if 200 \<le> resp_status response \<and> resp_status response < 300
             then Inr (case resp_output response of None \<Rightarrow> [] | Some out \<Rightarrow> out)
           else Inl (''Error al ejecutar comando: '' @ statusTextOf (resp_status response)),
           s'))"










text \<open>A server all of whose listings hold only containers with a given property.\<close>

definition listsOnly :: "(container_info \<Rightarrow> bool) \<Rightarrow> 'w server \<Rightarrow> bool" where
  "listsOnly P sv = (\<forall>w cs w'. sv_getContainers sv w = (Ok cs, w') \<longrightarrow> (\<forall>c \<in> set cs. P c))"

text \<open>What one call leaves in the record of a service: requests \<open>new\<close> and listings
  \<open>newL\<close> after those that were there; every removal requested is of a listed container,
  and every listing satisfies \<open>P\<close> when all those of the server do.\<close>

definition tracked ::
  "(container_info \<Rightarrow> bool) \<Rightarrow> 'w server \<Rightarrow> 'w net \<Rightarrow> 'w net \<Rightarrow> request list \<Rightarrow> container_info list list \<Rightarrow> bool" where
  "tracked P sv n n' new newL =
     (net_sent n' = net_sent n @ new \<and> net_listed n' = net_listed n @ newL \<and>
      (\<forall>i. DeleteContainer i \<in> set new \<longrightarrow> (\<exists>cs \<in> set newL. i \<in> ci_id ` set cs)) \<and>
      (listsOnly P sv \<longrightarrow> (\<forall>cs \<in> set newL. \<forall>c \<in> set cs. P c)))"

text \<open>
  A container runtime to run the handlers on, for the scenarios below. Its state is the
  table of its containers, the newest first, each with id, name and image. It lists the
  table in the format asked for, every container up; \<^verbatim>\<open>docker run -d --name N I\<close> adds a
  container unless the name is taken; \<^verbatim>\<open>docker rm\<close> deletes the containers named; any
  other command succeeds and prints an empty JSON array element.
\<close>

type_synonym runtime = "(string \<times> string \<times> string) list"

definition succeeded :: "string \<Rightarrow> proc_result" where
  "succeeded out = \<lparr>exit_status = 0, proc_stdout = out, proc_stderr = []\<rparr>"

definition demoShell :: "runtime shell" where
  \<open>demoShell cmdline w =
     (if cmdline = listCmd5 then
        (succeeded (concat (map (\<lambda>(i, name, img).
            i @ ''|'' @ name @ ''|'' @ img @ ''|Up 2 seconds|2026-01-01 00:00:00 +0000 UTC'' @ [nl]) w)), w)
      else if cmdline = listCmd3 then
        (succeeded (concat (map (\<lambda>(i, name, img). i @ ''|'' @ name @ ''|'' @ img @ [nl]) w)), w)
      else if startsWith cmdline ''docker run -d --name '' then
        (let ws = splitOn (CHR '' '') cmdline; name = ws ! 4; img = ws ! 5 in
         if name \<in> set (map (\<lambda>(i, nm, im). nm) w) then
           (\<lparr>exit_status = 125, proc_stdout = [],
             proc_stderr = ''docker: Error response from daemon: Conflict.''\<rparr>, w)
         else (succeeded (''c'' @ showNat (length w) @ [nl]),
               (''c'' @ showNat (length w), name, img) # w))
      else if startsWith cmdline ''docker rm '' then
        (succeeded [],
         filter (\<lambda>(i, nm, im). i \<notin> set (drop 2 (splitOn (CHR '' '') cmdline))) w)
      else (succeeded ''[{}]'', w))\<close>

definition demoPlatform :: "runtime platform" where
  "demoPlatform =
     \<lparr>pf_shell = demoShell, pf_now = (\<lambda>w. 1000 + length w),
      pf_iso = (\<lambda>w. ''2026-01-01T00:00:00.000Z''), pf_jsonFirst = (\<lambda>t. True),
      pf_writeDockerfile = (\<lambda>w. (True, w))\<rparr>"








text \<open>A registry with one container of the application and one that is not.\<close>

definition mixedRegistry :: "runtime hx" where
  "mixedRegistry =
     \<lparr>hx_world = [(''c1'', ''codeai-container-7'', defaultImage), (''c0'', ''sandbox'', ''python:3.11'')],
      hx_ran = []\<rparr>"


text \<open>
  A host for scenario 1 of the repair: in the container \<^verbatim>\<open>c1\<close> there is no program
  \<^verbatim>\<open>foo\<close>. The lookup with \<^verbatim>\<open>which\<close> prints \<^verbatim>\<open>Not found\<close>, the run of \<^verbatim>\<open>foo --version\<close> ends
  with status 127 and the message of the runtime on standard error, and every other
  command line succeeds.
\<close>

definition fooMissing :: string where
  \<open>fooMissing =
     ''OCI runtime exec failed: exec failed: unable to start container process: exec: "foo": executable file not found in $PATH: unknown''\<close>

definition fooShell :: "unit shell" where
  "fooShell cmdline w =
     (if cmdline = execCommandLine ''c1'' [''foo'', ''--version'']
        then (\<lparr>exit_status = 127, proc_stdout = [], proc_stderr = fooMissing @ [nl]\<rparr>, w)
      else if cmdline = execCommandLine ''c1'' whichFoo
        then (succeeded (''Not found'' @ [nl]), w)
      else (succeeded ''[{}]'', w))"

definition freshHost :: "(unit hx) fx" where
  "freshHost = \<lparr>fx_world = \<lparr>hx_world = (), hx_ran = []\<rparr>, fx_calls = []\<rparr>"
section \<open>Structured responses: \<^verbatim>\<open>GeminiService.getStructuredResponse\<close>\<close>

text \<open>
  The values of JSON. An object is the list of its properties in the order of insertion.
  A number is a real; the functions below only ask whether it is zero.
\<close>

datatype json =
  JNull | JBool bool | JNumber real | JString string | JArray "json list"
  | JObject "(string \<times> json) list"

text \<open>
  \<^verbatim>\<open>JSON.parse\<close> is a function of the platform and a parameter \<open>parse\<close> of the model:
  \<open>None\<close> when it throws a \<^verbatim>\<open>SyntaxError\<close>.
\<close>

type_synonym json_parser = "string \<Rightarrow> json option"

text \<open>What \<^verbatim>\<open>if (value)\<close> tests, \<^verbatim>\<open>typeof value === 'object' && value !== null\<close>, and
  \<^verbatim>\<open>Array.isArray(value)\<close>.\<close>

fun truthy :: "json \<Rightarrow> bool" where
  "truthy JNull = False"
| "truthy (JBool b) = b"
| "truthy (JNumber x) = (x \<noteq> 0)"
| "truthy (JString s) = (s \<noteq> [])"
| "truthy (JArray xs) = True"
| "truthy (JObject ps) = True"

fun isObjectValue :: "json \<Rightarrow> bool" where
  "isObjectValue (JArray xs) = True"
| "isObjectValue (JObject ps) = True"
| "isObjectValue _ = False"

fun isArrayValue :: "json \<Rightarrow> bool" where
  "isArrayValue (JArray xs) = True"
| "isArrayValue _ = False"

definition fence :: string where
  "fence = [CHR 0x60, CHR 0x60, CHR 0x60]"

text \<open>
  Capture 1 of the first match of \<^verbatim>\<open>/```(?:json)?\s*\n?([\s\S]*?)\n?```/\<close>. The match
  starts at the first fence of the text and exists when another fence follows it. After
  the opening fence the pattern takes \<^verbatim>\<open>json\<close> when it is there and then all white space;
  the capture is lazy, so it ends before the next fence, and before the line feed in
  front of that fence when there is one.
\<close>

definition codeBlockCapture :: "string \<Rightarrow> string option" where
  "codeBlockCapture text =
     (case findFirst fence text of
        None \<Rightarrow> None
      | Some (before, rest) \<Rightarrow>
          (case findFirst fence rest of
             None \<Rightarrow> None
           | Some (body, after) \<Rightarrow>
               (let b1 = (if startsWith body ''json'' then drop 4 body else body);
                    b2 = dropWhile isWhiteSpace b1
                in Some (if b2 \<noteq> [] \<and> last b2 = nl then butlast b2 else b2))))"

text \<open>
  The two scanning loops, one for \<^verbatim>\<open>{ }\<close> with a result that is an object, one for
  \<^verbatim>\<open>[ ]\<close> with a result that is an array. \<open>cs\<close> is the text from index \<open>i\<close> on, \<open>count\<close>
  the counter of open brackets (it can fall below zero) and \<open>start\<close> the index of the
  bracket that opened the candidate (\<open>None\<close> is \<^verbatim>\<open>-1\<close>).
\<close>

fun scanBrackets ::
  "json_parser \<Rightarrow> (json \<Rightarrow> bool) \<Rightarrow> char \<Rightarrow> char \<Rightarrow> string \<Rightarrow> string \<Rightarrow> nat \<Rightarrow> int \<Rightarrow> nat option \<Rightarrow>
     json option" where
  "scanBrackets parse accept opening closing text [] i count start = None"
| "scanBrackets parse accept opening closing text (c # cs) i count start =
     (if c = opening then
        scanBrackets parse accept opening closing text cs (i + 1) (count + 1)
          (if count = 0 then Some i else start)
      else if c = closing then
        (case (if count - 1 = 0 then start else None) of
           None \<Rightarrow> scanBrackets parse accept opening closing text cs (i + 1) (count - 1) start
         | Some st \<Rightarrow>
             (case parse (slice st (i + 1) text) of
                None \<Rightarrow> scanBrackets parse accept opening closing text cs (i + 1) (count - 1) start
              | Some result \<Rightarrow>
                  if accept result then Some result
                  else scanBrackets parse accept opening closing text cs (i + 1) (count - 1) start))
      else scanBrackets parse accept opening closing text cs (i + 1) count start)"

text \<open>
  \<^verbatim>\<open>extractJsonFromText\<close>. The value \<open>JNull\<close> is the \<^verbatim>\<open>null\<close> the function returns when it
  found nothing (and when what it found is \<^verbatim>\<open>null\<close>). Its last steps repair the text with
  regular expressions (quotes, comments), match again and collect key and value pairs;
  they run only when every step before found nothing, and they are the parameter
  \<open>repair\<close> of the model, from the text to what they return.
\<close>

definition extractJsonFromText :: "json_parser \<Rightarrow> (string \<Rightarrow> json) \<Rightarrow> string \<Rightarrow> json" where
  "extractJsonFromText parse repair text =
     (case parse text of
        Some v \<Rightarrow> v
      | None \<Rightarrow>
          (case (case codeBlockCapture text of
                   None \<Rightarrow> None
                 | Some captured \<Rightarrow> if captured = [] then None else parse captured) of
             Some v \<Rightarrow> v
           | None \<Rightarrow>
               (case scanBrackets parse isObjectValue (CHR ''{'') (CHR ''}'') text text 0 0 None of
                  Some v \<Rightarrow> v
                | None \<Rightarrow>
                    (case (if includes_js text ''['' \<and> includes_js text '']''
                           then scanBrackets parse isArrayValue (CHR ''['') (CHR '']'') text text 0 0 None
                           else None) of
                       Some v \<Rightarrow> v
                     | None \<Rightarrow> repair text))))"

text \<open>
  A schema (\<^verbatim>\<open>StructuredOutputConfig\<close>): its properties in order, each with its type and, for
  an array, the type of the items and the names of their properties. A property whose
  schema is not an object is \<open>None\<close>.
\<close>

record item_schema =
  it_type :: string
  it_properties :: "string list option"

record prop_schema =
  ps_type :: string
  ps_items :: "item_schema option"

record schema =
  sc_properties :: "(string \<times> prop_schema option) list option"
  sc_required :: "string list"

definition exampleItem :: "item_schema \<Rightarrow> json" where
  "exampleItem items =
     JObject (case it_properties items of
                None \<Rightarrow> []
              | Some keys \<Rightarrow> map (\<lambda>itemKey. (itemKey, JString (''Ejemplo de '' @ itemKey))) keys)"

definition basicValue :: "string \<Rightarrow> string \<Rightarrow> prop_schema \<Rightarrow> json" where
  "basicValue text key prop =
     (if ps_type prop = ''string'' then
        (if key = ''plan'' then JString text
         else JString (''Informaci'' @ [CHR 0xF3] @ ''n extra'' @ [CHR 0xED] @ ''da para '' @ key))
      else if ps_type prop = ''boolean'' then JBool False
      else if ps_type prop = ''array'' then
        (case ps_items prop of
           None \<Rightarrow> JArray []
         | Some items \<Rightarrow>
             if it_type items = ''object'' then JArray [exampleItem items] else JArray [])
      else if ps_type prop = ''object'' then JObject []
      else JNull)"

definition createBasicResponseFromSchema :: "schema \<Rightarrow> string \<Rightarrow> json" where
  "createBasicResponseFromSchema sch text =
     JObject (case sc_properties sch of
                None \<Rightarrow> []
              | Some props \<Rightarrow>
                  concat (map (\<lambda>(key, prop).
                     case prop of None \<Rightarrow> [] | Some p \<Rightarrow> [(key, basicValue text key p)]) props))"

text \<open>
  \<^verbatim>\<open>getStructuredResponse\<close>, from the text the model answered with: the text is parsed;
  when that throws, what \<^verbatim>\<open>extractJsonFromText\<close> returns is the result if it is truthy,
  and otherwise the basic response is built from the schema.
\<close>

definition getStructuredResponse :: "json_parser \<Rightarrow> (string \<Rightarrow> json) \<Rightarrow> schema \<Rightarrow> string \<Rightarrow> json" where
  "getStructuredResponse parse repair sch responseText =
     (case parse responseText of
        Some v \<Rightarrow> v
      | None \<Rightarrow>
          (let extractedJson = extractJsonFromText parse repair responseText in
           if truthy extractedJson then extractedJson
           else createBasicResponseFromSchema sch responseText))"

text \<open>A response wrapped in a fenced code block, with or without the language tag.\<close>

definition fenced :: "string \<Rightarrow> string \<Rightarrow> string" where
  "fenced lang s = fence @ lang @ [nl] @ s @ [nl] @ fence"

text \<open>A value has the JSON type of that name.\<close>

definition hasType :: "string \<Rightarrow> json \<Rightarrow> bool" where
  "hasType ty v =
     (if ty = ''string'' then (case v of JString s \<Rightarrow> True | _ \<Rightarrow> False)
      else if ty = ''boolean'' then (case v of JBool b \<Rightarrow> True | _ \<Rightarrow> False)
      else if ty = ''array'' then isArrayValue v
      else if ty = ''object'' then (case v of JObject ps \<Rightarrow> True | _ \<Rightarrow> False)
      else False)"

definition basicTypes :: "string list" where
  "basicTypes = [''string'', ''boolean'', ''array'', ''object'']"

text \<open>\<^verbatim>\<open>value[key]\<close> of an object: \<open>None\<close> when the value has no such property.\<close>

fun property :: "json \<Rightarrow> string \<Rightarrow> json option" where
  "property (JObject ps) key = map_of ps key"
| "property _ key = None"

text \<open>
  \<^verbatim>\<open>JSON.parse\<close> on the three literals, for the scenarios below: on every text it is
  applied to there (a text that starts with a fence, and a literal) it answers as
  \<^verbatim>\<open>JSON.parse\<close> does.
\<close>

definition literalParse :: json_parser where
  "literalParse t =
     (if t = ''true'' then Some (JBool True)
      else if t = ''false'' then Some (JBool False)
      else if t = ''null'' then Some JNull
      else None)"

definition planSchema :: schema where
  "planSchema =
     \<lparr>sc_properties = Some
        [(''plan'', Some \<lparr>ps_type = ''string'', ps_items = None\<rparr>),
         (''pasos'', Some \<lparr>ps_type = ''array'',
            ps_items = Some \<lparr>it_type = ''object'',
                              it_properties = Some [''paso'', ''explicacion'']\<rparr>\<rparr>),
         (''detallesVisualizacion'', Some \<lparr>ps_type = ''string'', ps_items = None\<rparr>)],
      sc_required = [''plan'', ''pasos'']\<rparr>"

text \<open>
  The two scans count brackets and know no strings. \<open>closesAtEnd opening closing s\<close>: the
  text starts with the opening bracket, and the count, taken bracket by bracket, comes back
  to zero at the last character of the text and not before.
\<close>

definition bracketDelta :: "char \<Rightarrow> char \<Rightarrow> char \<Rightarrow> int" where
  "bracketDelta opening closing c = (if c = opening then 1 else if c = closing then - 1 else 0)"

fun depthScan :: "char \<Rightarrow> char \<Rightarrow> int \<Rightarrow> string \<Rightarrow> bool" where
  "depthScan opening closing d [] = False"
| "depthScan opening closing d [c] = (d + bracketDelta opening closing c = 0)"
| "depthScan opening closing d (c # c' # cs) =
     (0 < d + bracketDelta opening closing c \<and>
      depthScan opening closing (d + bracketDelta opening closing c) (c' # cs))"

definition closesAtEnd :: "char \<Rightarrow> char \<Rightarrow> string \<Rightarrow> bool" where
  "closesAtEnd opening closing s = (s \<noteq> [] \<and> hd s = opening \<and> depthScan opening closing 0 s)"

text \<open>
  \<^verbatim>\<open>JSON.parse\<close> for the scenarios below: it skips the white space in front of the text and
  accepts the three literals and four texts: an object whose string holds a code block, an
  array whose string is a fence, an object whose string is a fence, and an array with that
  object. On every text it is applied to there it answers as \<^verbatim>\<open>JSON.parse\<close> does.
\<close>

definition planText :: string where
  \<open>planText = ''{"plan":"run '' @ fence @ ''ls'' @ fence @ ''","pasos":[]}''\<close>

definition planValue :: json where
  "planValue = JObject [(''plan'', JString (''run '' @ fence @ ''ls'' @ fence)), (''pasos'', JArray [])]"

definition tagsText :: string where
  \<open>tagsText = ''["'' @ fence @ ''"]''\<close>

definition innerText :: string where
  \<open>innerText = ''{"a":"'' @ fence @ ''"}''\<close>

definition arrayText :: string where
  "arrayText = ''['' @ innerText @ '']''"

definition innerValue :: json where
  "innerValue = JObject [(''a'', JString fence)]"

definition sampleParse :: json_parser where
  "sampleParse t =
     (let u = dropWhile isWhiteSpace t in
      if u = ''true'' then Some (JBool True)
      else if u = ''false'' then Some (JBool False)
      else if u = ''null'' then Some JNull
      else if u = planText then Some planValue
      else if u = tagsText then Some (JArray [JString fence])
      else if u = innerText then Some innerValue
      else if u = arrayText then Some (JArray [innerValue])
      else None)"
section \<open>The agentic planner: \<^verbatim>\<open>agentric-planning-flow.ts\<close>\<close>

text \<open>
  What a \<^verbatim>\<open>catch\<close> clause receives: an \<^verbatim>\<open>Error\<close> with its message, or a value that is not
  an \<^verbatim>\<open>Error\<close>.
\<close>

datatype thrown = Error string | NonError


































section \<open>Properties of the Command Executor\<close>

lemma slice_middle: "slice (Suc 0) (Suc (length ws)) (x # ws @ ys) = ws"
  by (simp add: slice_def)

lemma echo_redirect_shape: "isEchoRedirect (''echo'' # ws @ [''>'', f])"
  by (simp add: isEchoRedirect_def nth_append)

lemma not_both: "isEchoRedirect c \<Longrightarrow> \<not> isMkdirWithoutP c"
  by (auto simp: isEchoRedirect_def isMkdirWithoutP_def)

lemma execSync_line:
  "map fst (hx_ran (snd (execSync sh m cmdline s))) = map fst (hx_ran s) @ [cmdline]"
  by (simp add: execSync_def split: prod.splits)

lemma execute_POST_lines:
  assumes "body = Inr req" and "req_command req = Some command" and "req_containerId req \<noteq> []"
    and "fst (execSync sh defaultMaxBuffer (''docker container inspect '' @ req_containerId req) s)
           = Inr out1"
  shows "map fst (hx_ran (snd (execute_POST sh body s))) = map fst (hx_ran s) @
           [''docker container inspect '' @ req_containerId req,
            ''docker exec '' @ req_containerId req @ '' pwd'',
            execCommandLine (req_containerId req) command]"
proof -
  let ?i = "execSync sh defaultMaxBuffer (''docker container inspect '' @ req_containerId req) s"
  let ?w = "execSync sh defaultMaxBuffer (''docker exec '' @ req_containerId req @ '' pwd'') (snd ?i)"
  let ?r = "execSync sh execMaxBuffer (execCommandLine (req_containerId req) command) (snd ?w)"
  from assms have "snd (execute_POST sh body s) = snd ?r"
    by (auto simp: execute_POST_def split: prod.splits sum.splits)
  then show ?thesis by (simp add: execSync_line)
qed

text \<open>
  Claim C6, as amended. For a request with a command and the id of a container that
  exists, the handler starts no program from the tokens itself: it has the shell of the
  host run three command lines, the inspection of the container, the probe of its working
  directory, and \<^verbatim>\<open>docker exec <id>\<close> followed by the tokens of \<^verbatim>\<open>modifiedCommand\<close>, each
  written by \<^verbatim>\<open>JSON.stringify\<close> and separated by one space. The tokens of \<^verbatim>\<open>modifiedCommand\<close>
  are the submitted ones exactly when the command is neither an echo with a redirection
  nor a mkdir without \<^verbatim>\<open>-p\<close>. A mkdir without \<^verbatim>\<open>-p\<close> gets the token \<^verbatim>\<open>-p\<close> inserted; an echo of
  more than two tokens whose last but one token is \<^verbatim>\<open>>\<close> is rewritten by the handler itself
  into the three tokens of a \<^verbatim>\<open>bash -c\<close> invocation.
\<close>

theorem execute_rewrites_only_echo_redirect_and_mkdir:
  \<open>(\<forall>req command out1.
      body = Inr req \<and> req_command req = Some command \<and> req_containerId req \<noteq> [] \<and>
      fst (execSync sh defaultMaxBuffer (''docker container inspect '' @ req_containerId req) s)
        = Inr out1 \<longrightarrow>
      map fst (hx_ran (snd (execute_POST sh body s))) = map fst (hx_ran s) @
        [''docker container inspect '' @ req_containerId req,
         ''docker exec '' @ req_containerId req @ '' pwd'',
         ''docker exec '' @ req_containerId req @ '' '' @
           join '' '' (map JSON_stringify (modifiedCommand command))]) \<and>
   (modifiedCommand c = c \<longleftrightarrow> \<not> isEchoRedirect c \<and> \<not> isMkdirWithoutP c) \<and>
   (\<not> isEchoRedirect c \<and> \<not> isMkdirWithoutP c \<longrightarrow>
      execCommandLine cid c = ''docker exec '' @ cid @ '' '' @ join '' '' (map JSON_stringify c)) \<and>
   (''-p'' \<notin> set args \<longrightarrow> modifiedCommand (''mkdir'' # args) = ''mkdir'' # ''-p'' # args) \<and>
   modifiedCommand (''echo'' # ws @ [''>'', f]) =
      [''bash'', ''-c'', ''echo '' @ join '' '' ws @ '' > "'' @ f @ ''"'']\<close>
proof -
  have l: "\<forall>req command out1.
      body = Inr req \<and> req_command req = Some command \<and> req_containerId req \<noteq> [] \<and>
      fst (execSync sh defaultMaxBuffer (''docker container inspect '' @ req_containerId req) s)
        = Inr out1 \<longrightarrow>
      map fst (hx_ran (snd (execute_POST sh body s))) = map fst (hx_ran s) @
        [''docker container inspect '' @ req_containerId req,
         ''docker exec '' @ req_containerId req @ '' pwd'',
         ''docker exec '' @ req_containerId req @ '' '' @
           join '' '' (map JSON_stringify (modifiedCommand command))]"
    using execute_POST_lines[of body _ _ sh s]
    by (auto simp: execCommandLine_def escapedCommand_def)
  have a: "modifiedCommand c = c \<longleftrightarrow> \<not> isEchoRedirect c \<and> \<not> isMkdirWithoutP c"
    by (cases c) (auto simp: modifiedCommand_def Let_def isEchoRedirect_def isMkdirWithoutP_def)
  have b: "\<not> isEchoRedirect c \<and> \<not> isMkdirWithoutP c \<longrightarrow>
      execCommandLine cid c = ''docker exec '' @ cid @ '' '' @ join '' '' (map JSON_stringify c)"
    using a by (auto simp: execCommandLine_def escapedCommand_def)
  have c: "''-p'' \<notin> set args \<longrightarrow> modifiedCommand (''mkdir'' # args) = ''mkdir'' # ''-p'' # args"
    by (simp add: modifiedCommand_def Let_def isMkdirWithoutP_def)
  have d: \<open>modifiedCommand (''echo'' # ws @ [''>'', f]) =
      [''bash'', ''-c'', ''echo '' @ join '' '' ws @ '' > "'' @ f @ ''"'']\<close>
    using echo_redirect_shape[of ws f] not_both[of "''echo'' # ws @ [''>'', f]"]
    by (simp add: modifiedCommand_def Let_def slice_middle)
  from l a b c d show ?thesis by blast
qed

theorem execute_rewrites_witness:
  \<open>map fst (hx_ran (snd (execute_POST (\<lambda>cmdline w. (succeeded ''[{}]'', w))
      (Inr \<lparr>req_containerId = ''abc'', req_command = Some [''ls'', ''-la'']\<rparr>)
      \<lparr>hx_world = (), hx_ran = []\<rparr>))) =
     [''docker container inspect abc'', ''docker exec abc pwd'', ''docker exec abc "ls" "-la"''] \<and>
   modifiedCommand [''ls'', ''-la''] = [''ls'', ''-la''] \<and>
   execCommandLine ''abc'' [''ls'', ''-la''] = ''docker exec abc "ls" "-la"'' \<and>
   modifiedCommand [''mkdir'', ''data''] = [''mkdir'', ''-p'', ''data'']\<close>
proof -
  let ?sh = "\<lambda>(cmdline :: string) (w :: unit). (succeeded ''[{}]'', w)"
  let ?req = "\<lparr>req_containerId = ''abc'', req_command = Some [''ls'', ''-la'']\<rparr>"
  let ?s = "\<lparr>hx_world = (), hx_ran = []\<rparr> :: unit hx"
  have n: "\<not> isEchoRedirect [''ls'', ''-la''] \<and> \<not> isMkdirWithoutP [''ls'', ''-la'']"
    by (simp add: isEchoRedirect_def isMkdirWithoutP_def)
  have m: "''-p'' \<notin> set [''data'']" by simp
  have i: "fst (execSync ?sh defaultMaxBuffer (''docker container inspect '' @ req_containerId ?req) ?s)
      = Inr ''[{}]''"
    by (simp add: execSync_def succeeded_def defaultMaxBuffer_def)
  note t = execute_rewrites_only_echo_redirect_and_mkdir
    [of "Inr ?req" ?sh ?s "[''ls'', ''-la'']" "''abc''" "[''data'']"]
  from t i have lines: "map fst (hx_ran (snd (execute_POST ?sh (Inr ?req) ?s))) = map fst (hx_ran ?s) @
        [''docker container inspect '' @ req_containerId ?req,
         ''docker exec '' @ req_containerId ?req @ '' pwd'',
         ''docker exec '' @ req_containerId ?req @ '' '' @
           join '' '' (map JSON_stringify (modifiedCommand [''ls'', ''-la'']))]"
    by simp
  from t n m have rest: "modifiedCommand [''ls'', ''-la''] = [''ls'', ''-la'']"
    "execCommandLine ''abc'' [''ls'', ''-la''] =
       ''docker exec '' @ ''abc'' @ '' '' @ join '' '' (map JSON_stringify [''ls'', ''-la''])"
    "modifiedCommand (''mkdir'' # [''data'']) = ''mkdir'' # ''-p'' # [''data'']"
    by blast+
  from lines rest show ?thesis
    by (simp add: JSON_stringify_def quoteJSONChar_def dq_def bs_def)
qed

text \<open>
  Claim C6 as stated fails: the caller asked for no shell, and the handler runs a shell;
  the caller passed two tokens, and the handler runs three; and what the handler has run
  for the tokens \<^verbatim>\<open>printf\<close> and \<^verbatim>\<open>$HOME\<close> is a command line of the shell of the host, with
  \<^verbatim>\<open>$HOME\<close> between double quotes.
\<close>

theorem execute_implicit_shell_counterexample:
  \<open>modifiedCommand [''echo'', ''hi'', ''>'', ''f.txt''] = [''bash'', ''-c'', ''echo hi > "f.txt"''] \<and>
   modifiedCommand [''mkdir'', ''data''] = [''mkdir'', ''-p'', ''data''] \<and>
   execCommandLine ''abc'' [''mkdir'', ''data''] = ''docker exec abc "mkdir" "-p" "data"'' \<and>
   map fst (hx_ran (snd (execute_POST (\<lambda>cmdline w. (succeeded ''[{}]'', w))
      (Inr \<lparr>req_containerId = ''abc'', req_command = Some [''printf'', ''$HOME'']\<rparr>)
      \<lparr>hx_world = (), hx_ran = []\<rparr>))) =
     [''docker container inspect abc'', ''docker exec abc pwd'',
      ''docker exec abc "printf" "$HOME"'']\<close>
  by (simp add: modifiedCommand_def isEchoRedirect_def isMkdirWithoutP_def slice_def
      execCommandLine_def escapedCommand_def JSON_stringify_def quoteJSONChar_def dq_def bs_def
      execute_POST_def execSync_def succeeded_def defaultMaxBuffer_def execMaxBuffer_def
      emptyResponse_def)

lemma execSync_ran:
  "execSync sh m cmdline s = (res, s') \<Longrightarrow>
     \<exists>p. hx_ran s' = hx_ran s @ [(cmdline, p)] \<and>
         (\<forall>out. res = Inr out \<longrightarrow> out = proc_stdout p \<and> length (proc_stdout p) \<le> m) \<and>
         (m < length (proc_stdout p) \<longrightarrow> (\<exists>e. res = Inl e))"
  by (auto simp: execSync_def split: prod.splits if_splits)

lemma execute_POST_runs:
  assumes body: "body = Inr req" and cmd: "req_command req = Some command"
    and cid: "req_containerId req \<noteq> []"
    and i: "execSync sh defaultMaxBuffer (''docker container inspect '' @ req_containerId req) s
              = (Inr out1, s1)"
    and w: "execSync sh defaultMaxBuffer (''docker exec '' @ req_containerId req @ '' pwd'') s1
              = (r2, s2)"
    and run: "sh (execCommandLine (req_containerId req) command) (hx_world s2) = (p, w3)"
  shows "snd (execute_POST sh body s) =
           \<lparr>hx_world = w3,
            hx_ran = hx_ran s2 @ [(execCommandLine (req_containerId req) command, p)]\<rparr>"
    and "exit_status p = 0 \<Longrightarrow> length (proc_stdout p) \<le> execMaxBuffer \<Longrightarrow>
         length (proc_stderr p) \<le> execMaxBuffer \<Longrightarrow>
         fst (execute_POST sh body s) =
           emptyResponse\<lparr>resp_success := Some True, resp_output := Some (trim (proc_stdout p))\<rparr>"
    and "exit_status p \<noteq> 0 \<or> execMaxBuffer < length (proc_stdout p)
           \<or> execMaxBuffer < length (proc_stderr p) \<Longrightarrow>
         resp_success (fst (execute_POST sh body s)) = Some False \<and>
         resp_error (fst (execute_POST sh body s)) = Some ''Error al ejecutar comando'' \<and>
         resp_status (fst (execute_POST sh body s)) = 200"
  using assms
  by (auto simp: execute_POST_def execSync_def emptyResponse_def split: prod.splits sum.splits)

lemma execute_response_shape:
  assumes "execute_POST sh body s = (r, s')"
  shows "(resp_success r = Some True \<longrightarrow>
            (\<exists>req command pre p. body = Inr req \<and> req_command req = Some command \<and>
               hx_ran s' = pre @ [(execCommandLine (req_containerId req) command, p)] \<and>
               length pre = length (hx_ran s) + 2 \<and>
               length (proc_stdout p) \<le> execMaxBuffer \<and>
               resp_output r = Some (trim (proc_stdout p)))) \<and>
         (\<forall>req command pre p. body = Inr req \<and> req_command req = Some command \<and>
               hx_ran s' = pre @ [(execCommandLine (req_containerId req) command, p)] \<and>
               length pre = length (hx_ran s) + 2 \<and>
               execMaxBuffer < length (proc_stdout p)
            \<longrightarrow> resp_success r = Some False \<and> resp_error r \<noteq> None)"
proof (cases body)
  case (Inl msg)
  with assms show ?thesis by (auto simp: execute_POST_def emptyResponse_def)
next
  case (Inr req)
  show ?thesis
  proof (cases "req_command req")
    case None
    with Inr assms show ?thesis by (auto simp: execute_POST_def emptyResponse_def)
  next
    case (Some command)
    show ?thesis
    proof (cases "req_containerId req = []")
      case True
      with Inr Some assms show ?thesis by (auto simp: execute_POST_def emptyResponse_def)
    next
      case False
      obtain r1 s1 where e1: "execSync sh defaultMaxBuffer
          (''docker container inspect '' @ req_containerId req) s = (r1, s1)" by force
      from execSync_ran[OF e1] obtain p1 where
        l1: "hx_ran s1 = hx_ran s @ [(''docker container inspect '' @ req_containerId req, p1)]"
        by blast
      show ?thesis
      proof (cases r1)
        case (Inl e)
        with Inr Some False e1 assms have "s' = s1" "resp_success r = None"
          by (auto simp: execute_POST_def emptyResponse_def)
        with l1 show ?thesis by auto
      next
        case inspected: (Inr out1)
        obtain r2 s2 where e2: "execSync sh defaultMaxBuffer
            (''docker exec '' @ req_containerId req @ '' pwd'') s1 = (r2, s2)" by force
        obtain r3 s3 where e3: "execSync sh execMaxBuffer
            (execCommandLine (req_containerId req) command) s2 = (r3, s3)" by force
        from execSync_ran[OF e2] l1 have l2: "length (hx_ran s2) = length (hx_ran s) + 2"
          by auto
        from execSync_ran[OF e3] obtain p3 where
          l3: "hx_ran s3 = hx_ran s2 @ [(execCommandLine (req_containerId req) command, p3)]"
          and ok3: "\<forall>out. r3 = Inr out \<longrightarrow> out = proc_stdout p3 \<and> length (proc_stdout p3) \<le> execMaxBuffer"
          and big3: "execMaxBuffer < length (proc_stdout p3) \<longrightarrow> (\<exists>e. r3 = Inl e)"
          by blast
        from Inr Some False e1 inspected e2 e3 assms have res:
          "s' = s3"
          "\<forall>out. r3 = Inr out \<longrightarrow> resp_success r = Some True \<and> resp_output r = Some (trim out)"
          "\<forall>e. r3 = Inl e \<longrightarrow> resp_success r = Some False \<and> resp_error r \<noteq> None"
          by (auto simp: execute_POST_def emptyResponse_def split: sum.splits)
        have a: "resp_success r = Some True \<longrightarrow>
            (\<exists>req' command' pre p. body = Inr req' \<and> req_command req' = Some command' \<and>
               hx_ran s' = pre @ [(execCommandLine (req_containerId req') command', p)] \<and>
               length pre = length (hx_ran s) + 2 \<and>
               length (proc_stdout p) \<le> execMaxBuffer \<and>
               resp_output r = Some (trim (proc_stdout p)))"
        proof
          assume t: "resp_success r = Some True"
          with res(3) obtain out where o: "r3 = Inr out" by (cases r3) auto
          with ok3 res(2) have "length (proc_stdout p3) \<le> execMaxBuffer"
            "resp_output r = Some (trim (proc_stdout p3))" by auto
          with Inr Some l2 l3 res(1) show "\<exists>req' command' pre p. body = Inr req' \<and>
               req_command req' = Some command' \<and>
               hx_ran s' = pre @ [(execCommandLine (req_containerId req') command', p)] \<and>
               length pre = length (hx_ran s) + 2 \<and>
               length (proc_stdout p) \<le> execMaxBuffer \<and>
               resp_output r = Some (trim (proc_stdout p))"
            by blast
        qed
        have b: "\<forall>req' command' pre p. body = Inr req' \<and> req_command req' = Some command' \<and>
               hx_ran s' = pre @ [(execCommandLine (req_containerId req') command', p)] \<and>
               length pre = length (hx_ran s) + 2 \<and>
               execMaxBuffer < length (proc_stdout p)
            \<longrightarrow> resp_success r = Some False \<and> resp_error r \<noteq> None"
          using Inr Some l3 res(1) res(3) big3 by auto
        from a b show ?thesis by blast
      qed
    qed
  qed
qed


text \<open>
  Claim C7. The command of a request is the third command line the handler runs, after
  the inspection of the container, which must succeed, and the probe of its working
  directory. When the process of that command ends with status 0 and wrote no more than
  the ceiling of 5 MB to either stream, the response is \<open>success = true\<close> with the whole
  standard output, trimmed, as its output, and nothing else. When the process wrote more
  than the ceiling to a stream, or ended with another status, the response is an error
  with \<open>success = false\<close>. A response with \<open>success = true\<close> is always of the first kind,
  and a command that was run and whose output exceeds the ceiling is never answered with
  \<open>success = true\<close>.
\<close>

theorem execute_success_is_trimmed_stdout_and_overflow_fails:
  assumes "execute_POST sh body s = (r, s')"
  shows "(\<forall>req command out1 s1 r2 s2 p w3.
            body = Inr req \<and> req_command req = Some command \<and> req_containerId req \<noteq> [] \<and>
            execSync sh defaultMaxBuffer (''docker container inspect '' @ req_containerId req) s
              = (Inr out1, s1) \<and>
            execSync sh defaultMaxBuffer (''docker exec '' @ req_containerId req @ '' pwd'') s1
              = (r2, s2) \<and>
            sh (execCommandLine (req_containerId req) command) (hx_world s2) = (p, w3) \<longrightarrow>
            s' = \<lparr>hx_world = w3,
                  hx_ran = hx_ran s2 @ [(execCommandLine (req_containerId req) command, p)]\<rparr> \<and>
            (exit_status p = 0 \<and> length (proc_stdout p) \<le> execMaxBuffer \<and>
             length (proc_stderr p) \<le> execMaxBuffer \<longrightarrow>
               r = emptyResponse\<lparr>resp_success := Some True,
                                  resp_output := Some (trim (proc_stdout p))\<rparr>) \<and>
            (exit_status p \<noteq> 0 \<or> execMaxBuffer < length (proc_stdout p) \<or>
             execMaxBuffer < length (proc_stderr p) \<longrightarrow>
               resp_success r = Some False \<and> resp_error r = Some ''Error al ejecutar comando'' \<and>
               resp_status r = 200)) \<and>
         (resp_success r = Some True \<longrightarrow>
            (\<exists>req command pre p. body = Inr req \<and> req_command req = Some command \<and>
               hx_ran s' = pre @ [(execCommandLine (req_containerId req) command, p)] \<and>
               length pre = length (hx_ran s) + 2 \<and>
               length (proc_stdout p) \<le> execMaxBuffer \<and>
               resp_output r = Some (trim (proc_stdout p)))) \<and>
         (\<forall>req command pre p. body = Inr req \<and> req_command req = Some command \<and>
               hx_ran s' = pre @ [(execCommandLine (req_containerId req) command, p)] \<and>
               length pre = length (hx_ran s) + 2 \<and>
               execMaxBuffer < length (proc_stdout p)
            \<longrightarrow> resp_success r = Some False \<and> resp_error r \<noteq> None)"
proof -
  have run: "\<forall>req command out1 s1 r2 s2 p w3.
            body = Inr req \<and> req_command req = Some command \<and> req_containerId req \<noteq> [] \<and>
            execSync sh defaultMaxBuffer (''docker container inspect '' @ req_containerId req) s
              = (Inr out1, s1) \<and>
            execSync sh defaultMaxBuffer (''docker exec '' @ req_containerId req @ '' pwd'') s1
              = (r2, s2) \<and>
            sh (execCommandLine (req_containerId req) command) (hx_world s2) = (p, w3) \<longrightarrow>
            s' = \<lparr>hx_world = w3,
                  hx_ran = hx_ran s2 @ [(execCommandLine (req_containerId req) command, p)]\<rparr> \<and>
            (exit_status p = 0 \<and> length (proc_stdout p) \<le> execMaxBuffer \<and>
             length (proc_stderr p) \<le> execMaxBuffer \<longrightarrow>
               r = emptyResponse\<lparr>resp_success := Some True,
                                  resp_output := Some (trim (proc_stdout p))\<rparr>) \<and>
            (exit_status p \<noteq> 0 \<or> execMaxBuffer < length (proc_stdout p) \<or>
             execMaxBuffer < length (proc_stderr p) \<longrightarrow>
               resp_success r = Some False \<and> resp_error r = Some ''Error al ejecutar comando'' \<and>
               resp_status r = 200)"
  proof (intro allI impI)
    fix req command out1 s1 r2 s2 p w3
    assume h: "body = Inr req \<and> req_command req = Some command \<and> req_containerId req \<noteq> [] \<and>
            execSync sh defaultMaxBuffer (''docker container inspect '' @ req_containerId req) s
              = (Inr out1, s1) \<and>
            execSync sh defaultMaxBuffer (''docker exec '' @ req_containerId req @ '' pwd'') s1
              = (r2, s2) \<and>
            sh (execCommandLine (req_containerId req) command) (hx_world s2) = (p, w3)"
    then have h1: "body = Inr req" and h2: "req_command req = Some command"
      and h3: "req_containerId req \<noteq> []"
      and h4: "execSync sh defaultMaxBuffer (''docker container inspect '' @ req_containerId req) s
              = (Inr out1, s1)"
      and h5: "execSync sh defaultMaxBuffer (''docker exec '' @ req_containerId req @ '' pwd'') s1
              = (r2, s2)"
      and h6: "sh (execCommandLine (req_containerId req) command) (hx_world s2) = (p, w3)"
      by simp_all
    note R = execute_POST_runs[OF h1 h2 h3 h4 h5 h6]
    from assms have f: "fst (execute_POST sh body s) = r" "snd (execute_POST sh body s) = s'"
      by simp_all
    from R f show "s' = \<lparr>hx_world = w3,
                  hx_ran = hx_ran s2 @ [(execCommandLine (req_containerId req) command, p)]\<rparr> \<and>
            (exit_status p = 0 \<and> length (proc_stdout p) \<le> execMaxBuffer \<and>
             length (proc_stderr p) \<le> execMaxBuffer \<longrightarrow>
               r = emptyResponse\<lparr>resp_success := Some True,
                                  resp_output := Some (trim (proc_stdout p))\<rparr>) \<and>
            (exit_status p \<noteq> 0 \<or> execMaxBuffer < length (proc_stdout p) \<or>
             execMaxBuffer < length (proc_stderr p) \<longrightarrow>
               resp_success r = Some False \<and> resp_error r = Some ''Error al ejecutar comando'' \<and>
               resp_status r = 200)"
      by auto
  qed
  from run execute_response_shape[OF assms] show ?thesis by blast
qed

theorem execute_success_and_overflow_witness:
  "fst (execute_POST
      (\<lambda>c w. (\<lparr>exit_status = 0, proc_stdout = ''  hi '' @ [nl], proc_stderr = []\<rparr>, w))
      (Inr \<lparr>req_containerId = ''abc'', req_command = Some [''ls'', ''-la'']\<rparr>)
      \<lparr>hx_world = (), hx_ran = []\<rparr>) =
     emptyResponse\<lparr>resp_success := Some True, resp_output := Some ''hi''\<rparr> \<and>
   resp_success (fst (execute_POST
      (\<lambda>c w. (\<lparr>exit_status = 0,
                 proc_stdout = (if c = execCommandLine ''abc'' [''ls'', ''-la'']
                                then replicate 6000000 (CHR ''x'') else []),
                 proc_stderr = []\<rparr>, w))
      (Inr \<lparr>req_containerId = ''abc'', req_command = Some [''ls'', ''-la'']\<rparr>)
      \<lparr>hx_world = (), hx_ran = []\<rparr>)) = Some False"
proof -
  let ?ok = "\<lparr>exit_status = 0, proc_stdout = ''  hi '' @ [nl], proc_stderr = []\<rparr>"
  let ?h0 = "\<lambda>(c::string) (w::unit). (?ok, w)"
  let ?h1 = "\<lambda>(c::string) (w::unit). (\<lparr>exit_status = 0,
                 proc_stdout = (if c = execCommandLine ''abc'' [''ls'', ''-la'']
                                then replicate 6000000 (CHR ''x'') else []),
                 proc_stderr = []\<rparr>, w)"
  let ?req = "\<lparr>req_containerId = ''abc'', req_command = Some [''ls'', ''-la'']\<rparr>"
  let ?s = "\<lparr>hx_world = (), hx_ran = []\<rparr> :: unit hx"
  let ?big = "\<lparr>exit_status = 0, proc_stdout = replicate 6000000 (CHR ''x''), proc_stderr = []\<rparr>"
  let ?none = "\<lparr>exit_status = 0, proc_stdout = [], proc_stderr = []\<rparr>"
  have cl: "execCommandLine ''abc'' [''ls'', ''-la''] \<noteq> ''docker container inspect abc''"
    "execCommandLine ''abc'' [''ls'', ''-la''] \<noteq> ''docker exec abc pwd''"
    by (simp_all add: execCommandLine_def escapedCommand_def modifiedCommand_def isEchoRedirect_def
        isMkdirWithoutP_def JSON_stringify_def quoteJSONChar_def dq_def bs_def)
  have t: "trim (''  hi '' @ [nl]) = ''hi''"
    by (simp add: trim_def trimStart_def trimEnd_def isWhiteSpace_def nl_def)
  have i0: "execSync ?h0 defaultMaxBuffer (''docker container inspect '' @ req_containerId ?req) ?s
      = (Inr (''  hi '' @ [nl]),
         \<lparr>hx_world = (), hx_ran = [(''docker container inspect abc'', ?ok)]\<rparr>)"
    by (simp add: execSync_def defaultMaxBuffer_def)
  have w0: "execSync ?h0 defaultMaxBuffer (''docker exec '' @ req_containerId ?req @ '' pwd'')
        \<lparr>hx_world = (), hx_ran = [(''docker container inspect abc'', ?ok)]\<rparr>
      = (Inr (''  hi '' @ [nl]),
         \<lparr>hx_world = (), hx_ran = [(''docker container inspect abc'', ?ok),
                                   (''docker exec abc pwd'', ?ok)]\<rparr>)"
    by (simp add: execSync_def defaultMaxBuffer_def)
  have r0: "?h0 (execCommandLine (req_containerId ?req) [''ls'', ''-la''])
        (hx_world \<lparr>hx_world = (), hx_ran = [(''docker container inspect abc'', ?ok),
                                   (''docker exec abc pwd'', ?ok)]\<rparr>) = (?ok, ())"
    by simp
  have small: "exit_status ?ok = 0 \<and> length (proc_stdout ?ok) \<le> execMaxBuffer \<and>
      length (proc_stderr ?ok) \<le> execMaxBuffer"
    by (simp add: execMaxBuffer_def)
  from execute_success_is_trimmed_stdout_and_overflow_fails
      [where sh = ?h0 and body = "Inr ?req" and s = ?s, OF surjective_pairing, THEN conjunct1,
       rule_format, of ?req "[''ls'', ''-la'']", OF conjI[OF refl conjI[OF _ conjI[OF _ conjI[OF i0 conjI[OF w0 r0]]]]]]
    small
  have one: "fst (execute_POST ?h0 (Inr ?req) ?s) =
      emptyResponse\<lparr>resp_success := Some True, resp_output := Some (trim (proc_stdout ?ok))\<rparr>"
    by simp
  have i1: "execSync ?h1 defaultMaxBuffer (''docker container inspect '' @ req_containerId ?req) ?s
      = (Inr [], \<lparr>hx_world = (), hx_ran = [(''docker container inspect abc'', ?none)]\<rparr>)"
    using cl by (simp add: execSync_def defaultMaxBuffer_def)
  have w1: "execSync ?h1 defaultMaxBuffer (''docker exec '' @ req_containerId ?req @ '' pwd'')
        \<lparr>hx_world = (), hx_ran = [(''docker container inspect abc'', ?none)]\<rparr>
      = (Inr [], \<lparr>hx_world = (), hx_ran = [(''docker container inspect abc'', ?none),
                                           (''docker exec abc pwd'', ?none)]\<rparr>)"
    using cl by (simp add: execSync_def defaultMaxBuffer_def)
  have r1: "?h1 (execCommandLine (req_containerId ?req) [''ls'', ''-la''])
        (hx_world \<lparr>hx_world = (), hx_ran = [(''docker container inspect abc'', ?none),
                                   (''docker exec abc pwd'', ?none)]\<rparr>) = (?big, ())"
    by simp
  have big: "execMaxBuffer < length (proc_stdout ?big)"
    by (simp add: execMaxBuffer_def)
  from execute_success_is_trimmed_stdout_and_overflow_fails
      [where sh = ?h1 and body = "Inr ?req" and s = ?s, OF surjective_pairing, THEN conjunct1,
       rule_format, of ?req "[''ls'', ''-la'']", OF conjI[OF refl conjI[OF _ conjI[OF _ conjI[OF i1 conjI[OF w1 r1]]]]]]
    big
  have two: "resp_success (fst (execute_POST ?h1 (Inr ?req) ?s)) = Some False"
    by simp
  from one two t show ?thesis by simp
qed
section \<open>Properties of the Command Repair Heuristics\<close>

lemma callExec_log:
  "callExec ex k cid cmd s = (res, s') \<Longrightarrow> fx_calls s' = fx_calls s @ [(k, cmd, res)]"
  by (auto simp: callExec_def split: prod.splits)

lemma callExec_world:
  "callExec ex k cid cmd s = (res, s') \<Longrightarrow> (res, fx_world s') = ex cid cmd (fx_world s)"
  by (auto simp: callExec_def split: prod.splits)

lemma fixFileNotFound_log:
  "fixFileNotFound ex cid oc s = (res, s') \<Longrightarrow>
     \<exists>L. fx_calls s' = fx_calls s @ L \<and> lookupsOnly L res"
  unfolding fixFileNotFound_def Let_def
  by (auto simp: lookupsOnly_def split: if_splits prod.splits sum.splits dest!: callExec_log)

lemma fixInterpreterAlias_log:
  "fixInterpreterAlias ex cid oc s = (res, s') \<Longrightarrow>
     \<exists>L. fx_calls s' = fx_calls s @ L \<and> lookupsOnly L res"
  unfolding fixInterpreterAlias_def Let_def
  by (auto simp: lookupsOnly_def split: if_splits prod.splits sum.splits dest!: callExec_log)

lemma fixCommandNotFound_log:
  assumes "fixCommandNotFound ex rx cid oc s = (res, s')"
  shows "\<exists>L. fx_calls s' = fx_calls s @ L \<and> lookupsOnly L res"
proof -
  obtain r1 s1 where a: "fixInterpreterAlias ex cid oc s = (r1, s1)" by force
  from fixInterpreterAlias_log[OF a] obtain L1 where
    L1: "fx_calls s1 = fx_calls s @ L1" "lookupsOnly L1 r1" by blast
  show ?thesis
    using assms a L1 unfolding fixCommandNotFound_def Let_def
    by (auto simp: lookupsOnly_def split: if_splits prod.splits sum.splits dest!: callExec_log)
qed

lemma computeFix_log:
  assumes "computeFix ex rx args s = (res, s')"
  shows "\<exists>L. fx_calls s' = fx_calls s @ L \<and> lookupsOnly L res"
proof -
  obtain r1 s1 where a: "fixFileNotFound ex (container_id args) (failed_command args) s = (r1, s1)" by force
  obtain r2 s2 where b: "fixCommandNotFound ex rx (container_id args) (failed_command args) s = (r2, s2)" by force
  from fixFileNotFound_log[OF a] obtain L1 where
    L1: "fx_calls s1 = fx_calls s @ L1" "lookupsOnly L1 r1" by blast
  from fixCommandNotFound_log[OF b] obtain L2 where
    L2: "fx_calls s2 = fx_calls s @ L2" "lookupsOnly L2 r2" by blast
  have e: "fx_calls s = fx_calls s @ []" "lookupsOnly [] res" by (simp_all add: lookupsOnly_def)
  show ?thesis
    using assms a b L1 L2 unfolding computeFix_def Let_def
    by (auto simp: lookupsOnly_def split: if_splits prod.splits sum.splits)
qed

lemma fixFileNotFound_error:
  "fixFileNotFound ex cid oc s = (Inl e, s') \<Longrightarrow>
     \<exists>cmd. (Lookup, cmd, Inl e) \<in> set (fx_calls s')"
  unfolding fixFileNotFound_def Let_def
  by (auto split: if_splits prod.splits sum.splits dest!: callExec_log)

lemma computeFix_file_not_found:
  assumes "includes_js (error_message args) ''No such file or directory''"
  shows "computeFix ex rx args s =
     (case fixFileNotFound ex (container_id args) (failed_command args) s of
        (Inl e, s1) \<Rightarrow> (Inl e, s1)
      | (Inr fixedCommand, s1) \<Rightarrow> (Inr (file_not_found, fixedCommand), s1))"
  using assms by (simp add: computeFix_def Let_def)

text \<open>
  Claim C3. When the error text contains \<^verbatim>\<open>No such file or directory\<close>, the report keeps
  the failed command as it was given in \<open>original_command\<close> (the rewritten command is
  another value, \<open>fixed_command\<close>), and the strategy it names is \<open>file_not_found\<close> and
  no other. The report names no strategy only when a lookup threw: then it is the failed
  repair of the outer \<^verbatim>\<open>catch\<close>, with the error of that lookup.
\<close>

theorem fix_no_such_file_is_file_not_found:
  assumes "includes_js (error_message args) ''No such file or directory''"
    and "shell_fix_command ex rx args s = (r, s')"
  shows "original_command r = failed_command args \<and>
         (fix_strategy r = Some file_not_found \<or> fix_strategy r = None) \<and>
         (fix_strategy r = None \<longrightarrow>
            \<not> fix_success r \<and> (\<exists>e cmd. fix_error r = Some e \<and> (Lookup, cmd, Inl e) \<in> set (fx_calls s')))"
proof -
  obtain r1 s1 where a:
    "fixFileNotFound ex (container_id args) (failed_command args) s = (r1, s1)" by force
  show ?thesis
  proof (cases r1)
    case (Inl e)
    with a assms(2) computeFix_file_not_found[OF assms(1), of ex rx s]
    have "r = \<lparr>original_command = failed_command args, fixed_command = None,
            fix_strategy = None, fix_success = False, fix_output = None,
            fix_error = Some e\<rparr>" and "s' = s1"
      by (auto simp: shell_fix_command_def)
    moreover from a Inl fixFileNotFound_error[of ex "container_id args" "failed_command args" s e s1]
    obtain cmd where "(Lookup, cmd, Inl e) \<in> set (fx_calls s1)" by blast
    ultimately show ?thesis by auto
  next
    case (Inr f)
    with a assms(2) computeFix_file_not_found[OF assms(1), of ex rx s]
    show ?thesis
      by (auto simp: shell_fix_command_def split: prod.splits sum.splits)
  qed
qed

theorem fix_no_such_file_witness:
  "fix_strategy (fst (shell_fix_command
      (\<lambda>cid cmd w. (if hd cmd = ''find'' then Inr (''/uploads/data.csv'' @ [nl]) else Inr ''a,b'', w))
      (\<lambda>p s t. Inl ''Invalid regular expression'')
      \<lparr>container_id = ''c1'', failed_command = ''cat data.csv'',
        error_message = ''cat: data.csv: No such file or directory''\<rparr>
      \<lparr>fx_world = (), fx_calls = []\<rparr>)) = Some file_not_found \<and>
   fixed_command (fst (shell_fix_command
      (\<lambda>cid cmd w. (if hd cmd = ''find'' then Inr (''/uploads/data.csv'' @ [nl]) else Inr ''a,b'', w))
      (\<lambda>p s t. Inl ''Invalid regular expression'')
      \<lparr>container_id = ''c1'', failed_command = ''cat data.csv'',
        error_message = ''cat: data.csv: No such file or directory''\<rparr>
      \<lparr>fx_world = (), fx_calls = []\<rparr>)) = Some ''cat /uploads/data.csv''"
proof -
  let ?ex = "\<lambda>(cid::string) (cmd::string list) (w::unit).
      (if hd cmd = ''find'' then Inr (''/uploads/data.csv'' @ [nl]) else Inr ''a,b'' :: string + string, w)"
  let ?rx = "\<lambda>(p::string) (s::string) (t::string). Inl ''Invalid regular expression'' :: string + string"
  let ?args = "\<lparr>container_id = ''c1'', failed_command = ''cat data.csv'',
        error_message = ''cat: data.csv: No such file or directory''\<rparr>"
  let ?s = "\<lparr>fx_world = (), fx_calls = []\<rparr>"
  have h: "includes_js (error_message ?args) ''No such file or directory''"
    by code_simp
  have f: "fixed_command (fst (shell_fix_command ?ex ?rx ?args ?s)) = Some ''cat /uploads/data.csv''"
    by code_simp
  from fix_no_such_file_is_file_not_found[OF h, of ?ex ?rx ?s "fst (shell_fix_command ?ex ?rx ?args ?s)"
      "snd (shell_fix_command ?ex ?rx ?args ?s)"]
  have "fix_strategy (fst (shell_fix_command ?ex ?rx ?args ?s)) = Some file_not_found \<or>
        fix_strategy (fst (shell_fix_command ?ex ?rx ?args ?s)) = None" by simp
  moreover have "fix_strategy (fst (shell_fix_command ?ex ?rx ?args ?s)) \<noteq> None"
    by code_simp
  ultimately show ?thesis using f by blast 
qed

lemma getSubstitution_no_dollar:
  "CHR ''$'' \<notin> set p \<Longrightarrow>
     getSubstitution m pre post caps (p @ t) = p @ getSubstitution m pre post caps t"
proof (induction p)
  case Nil
  then show ?case by simp
next
  case (Cons c p)
  then show ?case by (cases "p @ t") auto
qed

lemma getSubstitution_capture1: "getSubstitution m pre post [cap] ''$1'' = cap"
  by (simp add: isDigit_def digitValue_def)

lemma scenario1_not_file: "\<not> includes_js ''bash: foo: command not found'' ''No such file or directory''"
  by code_simp
lemma scenario1_not_perm: "\<not> includes_js ''bash: foo: command not found'' ''Permission denied''"
  by code_simp
lemma scenario1_cnf: "includes_js ''bash: foo: command not found'' ''command not found''"
  by code_simp
lemma scenario1_main: "hd (splitOn (CHR '' '') ''foo --version'') = ''foo''"
  by code_simp
lemma scenario1_rmc:
  "replaceMainCommand rx ''foo --version'' ''foo'' t =
     Inr (replaceLeadingWord ''foo --version'' ''foo'' t)"
  by (simp add: replaceMainCommand_def isSyntaxCharacter_def bs_def)
lemma scenario1_parts: "commandParts ''foo --version'' = [''foo'', ''--version'']"
  by code_simp

lemma scenario1_replace:
  assumes "CHR ''$'' \<notin> set p"
  shows "replaceLeadingWord ''foo --version'' ''foo'' (p @ ''$1'') = p @ '' --version''"
proof -
  have "replaceLeadingWord ''foo --version'' ''foo'' (p @ ''$1'') =
        getSubstitution ''foo '' [] ''--version'' ['' ''] (p @ ''$1'') @ ''--version''"
    by (simp add: replaceLeadingWord_def startsWith_def isWhiteSpace_def)
  also have "\<dots> = (p @ '' '') @ ''--version''"
    by (simp only: getSubstitution_no_dollar[OF assms] getSubstitution_capture1)
  finally show ?thesis by simp
qed

lemma scenario1_alias:
  "fixInterpreterAlias ex cid ''foo --version'' s = (Inr ''foo --version'', s)"
  by (simp add: fixInterpreterAlias_def Let_def scenario1_main)

lemma scenario1_computeFix:
  assumes "ex cid whichFoo (fx_world s) = (Inr out, w1)"
  shows "computeFix ex rx (scenario1 cid) s =
           (Inr (command_not_found,
                 if includes_js out ''Not found'' then ''foo --version''
                 else replaceLeadingWord ''foo --version'' ''foo'' (trim out @ ''$1'')),
            \<lparr>fx_world = w1, fx_calls = fx_calls s @ [(Lookup, whichFoo, Inr out)]\<rparr>)"
proof -
  have w: \<open>[''bash'', ''-c'', ''which '' @ ''foo'' @ '' || echo "Not found"''] = whichFoo\<close>
    by (simp add: whichFoo_def)
  have c: "callExec ex Lookup cid whichFoo s =
      (Inr out, \<lparr>fx_world = w1, fx_calls = fx_calls s @ [(Lookup, whichFoo, Inr out)]\<rparr>)"
    using assms by (simp add: callExec_def)
  have "fixCommandNotFound ex rx cid ''foo --version'' s =
         (Inr (if includes_js out ''Not found'' then ''foo --version''
               else replaceLeadingWord ''foo --version'' ''foo'' (trim out @ ''$1'')),
          \<lparr>fx_world = w1, fx_calls = fx_calls s @ [(Lookup, whichFoo, Inr out)]\<rparr>)"
    unfolding fixCommandNotFound_def Let_def scenario1_main scenario1_alias
    by (simp add: c[unfolded whichFoo_def] scenario1_rmc whichFoo_def)
  then show ?thesis
    unfolding computeFix_def Let_def scenario1_def
    using scenario1_not_file scenario1_not_perm scenario1_cnf by simp
qed

text \<open>
  Claim C4, as amended. In scenario 1, when the lookup \<^verbatim>\<open>which foo || echo "Not found"\<close>
  returns, the strategy is \<open>command_not_found\<close>. When the output does not contain
  \<^verbatim>\<open>Not found\<close> (and has no dollar sign, which the replacement template would expand), the
  trimmed output replaces \<^verbatim>\<open>foo\<close> in the command. When the output contains \<^verbatim>\<open>Not found\<close>,
  the command stays \<^verbatim>\<open>foo --version\<close> and is run again as it is, as the tokens \<^verbatim>\<open>foo\<close> and
  \<^verbatim>\<open>--version\<close>: the fallback is reserved for an error text that no branch matched.
\<close>

theorem fix_foo_not_found_keeps_command_not_found:
  assumes "ex cid whichFoo (fx_world s) = (Inr out, w1)"
    and "shell_fix_command ex rx (scenario1 cid) s = (r, s')"
  shows "fix_strategy r = Some command_not_found \<and>
         (\<not> includes_js out ''Not found'' \<and> CHR ''$'' \<notin> set (trim out) \<longrightarrow>
            fixed_command r = Some (trim out @ '' --version'')) \<and>
         (includes_js out ''Not found'' \<longrightarrow>
            fixed_command r = Some ''foo --version'' \<and>
            (\<exists>res. fx_calls s' = fx_calls s @ [(Lookup, whichFoo, Inr out),
                                                (Rerun, [''foo'', ''--version''], res)]))"
proof -
  note cf = scenario1_computeFix[where rx = rx and ex = ex and cid = cid and s = s, OF assms(1)]
  have 1: "fix_strategy r = Some command_not_found"
    using assms(2) cf by (auto simp: shell_fix_command_def split: prod.splits sum.splits)
  have 2: "fixed_command r = Some (trim out @ '' --version'')"
    if "\<not> includes_js out ''Not found''" "CHR ''$'' \<notin> set (trim out)"
    using assms(2) cf that scenario1_replace[OF that(2)]
    by (auto simp: shell_fix_command_def split: prod.splits sum.splits)
  have 3: "fixed_command r = Some ''foo --version'' \<and>
            (\<exists>res. fx_calls s' = fx_calls s @ [(Lookup, whichFoo, Inr out),
                                                (Rerun, [''foo'', ''--version''], res)])"
    if "includes_js out ''Not found''"
    using assms(2) cf that scenario1_parts
    by (auto simp: shell_fix_command_def callExec_def scenario1_def split: prod.splits sum.splits)
  from 1 2 3 show ?thesis by blast
qed

theorem fix_foo_not_found_witness:
  \<open>fixed_command (fst (shell_fix_command
      (\<lambda>cid cmd w. (if cmd = whichFoo then Inr (''/opt/bin/foo'' @ [nl]) else Inr ''foo 1.0'', w))
      (\<lambda>p s t. Inl ''Invalid regular expression'')
      (scenario1 ''c1'') \<lparr>fx_world = (), fx_calls = []\<rparr>)) = Some ''/opt/bin/foo --version'' \<and>
   fixed_command (fst (shell_fix_command
      (\<lambda>cid cmd w. (if cmd = whichFoo then Inr ''Not found'' else Inl ''exec failed'', w))
      (\<lambda>p s t. Inl ''Invalid regular expression'')
      (scenario1 ''c1'') \<lparr>fx_world = (), fx_calls = []\<rparr>)) = Some ''foo --version''\<close>
proof -
  let ?ex1 = "\<lambda>(cid::string) (cmd::string list) (w::unit).
      (if cmd = whichFoo then Inr (''/opt/bin/foo'' @ [nl]) else Inr ''foo 1.0'' :: string + string, w)"
  let ?ex0 = "\<lambda>(cid::string) (cmd::string list) (w::unit).
      (if cmd = whichFoo then Inr ''Not found'' else Inl ''exec failed'' :: string + string, w)"
  let ?rx = "\<lambda>(p::string) (s::string) (t::string). Inl ''Invalid regular expression'' :: string + string"
  let ?s = "\<lparr>fx_world = (), fx_calls = []\<rparr> :: unit fx"
  have a1: "?ex1 ''c1'' whichFoo (fx_world ?s) = (Inr (''/opt/bin/foo'' @ [nl]), ())" by simp
  have a0: "?ex0 ''c1'' whichFoo (fx_world ?s) = (Inr ''Not found'', ())" by simp
  have n1: "\<not> includes_js (''/opt/bin/foo'' @ [nl]) ''Not found''" by code_simp
  have t1: "trim (''/opt/bin/foo'' @ [nl]) = ''/opt/bin/foo''" by code_simp
  have n0: "includes_js ''Not found'' ''Not found''" by code_simp
  have d1: "CHR ''$'' \<notin> set (trim (''/opt/bin/foo'' @ [nl]))" unfolding t1 by simp
  note T1 = fix_foo_not_found_keeps_command_not_found[where ex = ?ex1 and cid = "''c1''"
      and s = ?s and rx = ?rx, OF a1 surjective_pairing]
  from T1 n1 d1 have "fixed_command (fst (shell_fix_command ?ex1 ?rx (scenario1 ''c1'') ?s)) =
      Some (trim (''/opt/bin/foo'' @ [nl]) @ '' --version'')" by blast
  then have one: "fixed_command (fst (shell_fix_command ?ex1 ?rx (scenario1 ''c1'') ?s)) =
      Some ''/opt/bin/foo --version''" unfolding t1 by simp
  note T0 = fix_foo_not_found_keeps_command_not_found[where ex = ?ex0 and cid = "''c1''"
      and s = ?s and rx = ?rx, OF a0 surjective_pairing]
  from T0 n0 have two: "fixed_command (fst (shell_fix_command ?ex0 ?rx (scenario1 ''c1'') ?s)) =
      Some ''foo --version''" by blast
  from one two show ?thesis by blast
qed

text \<open>
  Claim C4 as stated fails: with no location on the path, the strategy is not
  \<open>general_fallback\<close> and the command is not wrapped in \<^verbatim>\<open>bash -c\<close>.
\<close>

theorem fix_foo_not_found_no_fallback_counterexample:
  \<open>fix_strategy (fst (shell_fix_command
      (\<lambda>cid cmd w. (if cmd = whichFoo then Inr ''Not found'' else Inl ''exec failed'', w))
      (\<lambda>p s t. Inl ''Invalid regular expression'')
      (scenario1 ''c1'') \<lparr>fx_world = (), fx_calls = []\<rparr>)) = Some command_not_found \<and>
   fix_strategy (fst (shell_fix_command
      (\<lambda>cid cmd w. (if cmd = whichFoo then Inr ''Not found'' else Inl ''exec failed'', w))
      (\<lambda>p s t. Inl ''Invalid regular expression'')
      (scenario1 ''c1'') \<lparr>fx_world = (), fx_calls = []\<rparr>)) \<noteq> Some general_fallback \<and>
   fixed_command (fst (shell_fix_command
      (\<lambda>cid cmd w. (if cmd = whichFoo then Inr ''Not found'' else Inl ''exec failed'', w))
      (\<lambda>p s t. Inl ''Invalid regular expression'')
      (scenario1 ''c1'') \<lparr>fx_world = (), fx_calls = []\<rparr>)) = Some ''foo --version'' \<and>
   fx_calls (snd (shell_fix_command
      (\<lambda>cid cmd w. (if cmd = whichFoo then Inr ''Not found'' else Inl ''exec failed'', w))
      (\<lambda>p s t. Inl ''Invalid regular expression'')
      (scenario1 ''c1'') \<lparr>fx_world = (), fx_calls = []\<rparr>)) =
     [(Lookup, whichFoo, Inr ''Not found''), (Rerun, [''foo'', ''--version''], Inl ''exec failed'')]\<close>
  by code_simp

text \<open>
  Over any executor, the callback always returns a report. The calls it makes are
  lookups, followed by exactly one run of the fixed command when the fix was computed, and
  by none when computing it threw: then the report has \<open>success = false\<close> and the error. A
  lookup that throws ends the computation with its error. When the one run of the fixed
  command throws, the report has \<open>success = false\<close> and carries the message thrown as its
  output; when it returns, the report has \<open>success = true\<close> and what it returned.
\<close>

lemma fix_runs_fixed_command_once:
  assumes "shell_fix_command ex rx args s = (r, s')"
  shows "\<exists>L. (\<forall>x \<in> set L. fst x = Lookup) \<and>
           (\<forall>x \<in> set L. \<forall>e. snd (snd x) = Inl e \<longrightarrow> fix_error r = Some e \<and> \<not> fix_success r) \<and>
           (case fix_error r of
              Some e \<Rightarrow> fx_calls s' = fx_calls s @ L \<and> \<not> fix_success r
            | None \<Rightarrow>
                (\<exists>fixed res. fixed_command r = Some fixed \<and>
                   fx_calls s' = fx_calls s @ L @ [(Rerun, commandParts fixed, res)] \<and>
                   (\<forall>msg. res = Inl msg \<longrightarrow> \<not> fix_success r \<and> fix_output r = Some msg) \<and>
                   (\<forall>out. res = Inr out \<longrightarrow> fix_success r \<and> fix_output r = Some out)))"
proof -
  obtain r1 s1 where c: "computeFix ex rx args s = (r1, s1)" by force
  from computeFix_log[OF c] obtain L where
    L: "fx_calls s1 = fx_calls s @ L" "lookupsOnly L r1" by blast
  show ?thesis
  proof (cases r1)
    case (Inl e)
    with c assms have "r = \<lparr>original_command = failed_command args, fixed_command = None,
            fix_strategy = None, fix_success = False, fix_output = None,
            fix_error = Some e\<rparr>" and "s' = s1"
      by (auto simp: shell_fix_command_def)
    with L Inl show ?thesis
      by (intro exI[of _ L]) (auto simp: lookupsOnly_def)
  next
    case (Inr p)
    obtain strat fixed where p: "p = (strat, fixed)" by (cases p)
    obtain res s2 where e: "callExec ex Rerun (container_id args) (commandParts fixed) s1 = (res, s2)"
      by force
    from callExec_log[OF e] L have log: "fx_calls s2 = fx_calls s @ L @ [(Rerun, commandParts fixed, res)]"
      by simp
    from L(2) Inr have noerr: "\<forall>x \<in> set L. \<forall>e. snd (snd x) \<noteq> Inl e"
      by (auto simp: lookupsOnly_def)
    from assms c Inr p e have rs: "s' = s2" "fix_error r = None" "fixed_command r = Some fixed"
      "\<forall>msg. res = Inl msg \<longrightarrow> \<not> fix_success r \<and> fix_output r = Some msg"
      "\<forall>out. res = Inr out \<longrightarrow> fix_success r \<and> fix_output r = Some out"
      by (auto simp: shell_fix_command_def split: sum.splits)
    with log noerr L(2) show ?thesis
      by (intro exI[of _ L]) (auto simp: lookupsOnly_def)
  qed
qed

lemma fix_runs_fixed_command_once_example:
  \<open>fix_success (fst (shell_fix_command
      (\<lambda>cid cmd w. (if cmd = whichFoo then Inr ''Not found'' else Inl ''exec failed'', w))
      (\<lambda>p s t. Inl ''Invalid regular expression'')
      (scenario1 ''c1'') \<lparr>fx_world = (), fx_calls = []\<rparr>)) = False \<and>
   fix_output (fst (shell_fix_command
      (\<lambda>cid cmd w. (if cmd = whichFoo then Inr ''Not found'' else Inl ''exec failed'', w))
      (\<lambda>p s t. Inl ''Invalid regular expression'')
      (scenario1 ''c1'') \<lparr>fx_world = (), fx_calls = []\<rparr>)) = Some ''exec failed''\<close>
proof -
  let ?ex0 = "\<lambda>(cid::string) (cmd::string list) (w::unit).
      (if cmd = whichFoo then Inr ''Not found'' else Inl ''exec failed'' :: string + string, w)"
  let ?rx = "\<lambda>(p::string) (s::string) (t::string). Inl ''Invalid regular expression'' :: string + string"
  let ?s = "\<lparr>fx_world = (), fx_calls = []\<rparr> :: unit fx"
  let ?r = "fst (shell_fix_command ?ex0 ?rx (scenario1 ''c1'') ?s)"
  let ?s' = "snd (shell_fix_command ?ex0 ?rx (scenario1 ''c1'') ?s)"
  have noerr: "fix_error ?r = None" by code_simp
  have calls: "fx_calls ?s' =
     [(Lookup, whichFoo, Inr ''Not found''), (Rerun, [''foo'', ''--version''], Inl ''exec failed'')]"
    by code_simp
  from fix_runs_fixed_command_once[where ex = ?ex0 and rx = ?rx and args = "scenario1 ''c1''" and s = ?s,
      OF surjective_pairing]
  obtain L fixed res where
    "fx_calls ?s' = fx_calls ?s @ L @ [(Rerun, commandParts fixed, res)]"
    "\<forall>msg. res = Inl msg \<longrightarrow> \<not> fix_success ?r \<and> fix_output ?r = Some msg"
    using noerr by auto
  with calls show ?thesis by auto
qed

text \<open>
  Claim C5. The callback over \<^verbatim>\<open>DockerServiceServer.executeCommand\<close> and the handler of the
  Command Executor, at scenario 1 in a container without \<^verbatim>\<open>foo\<close>. The lookup answers
  \<^verbatim>\<open>Not found\<close>, so the fixed command is the failed one, and it is run exactly once. That run
  fails with status 127; the handler answers it with status 200, \<open>success = false\<close> and the
  standard error as output; \<^verbatim>\<open>executeCommand\<close> returns that output without throwing; and
  the report of the repair has \<open>success = true\<close>, with the error text of the second failure
  as its output.
\<close>

theorem failed_rerun_is_reported_as_success:
  "fst (shell_fix_command (executeCommandServer fooShell) (\<lambda>pattern s template. Inr s)
          (scenario1 ''c1'') freshHost) =
     \<lparr>original_command = ''foo --version'', fixed_command = Some ''foo --version'',
      fix_strategy = Some command_not_found, fix_success = True,
      fix_output = Some (fooMissing @ [nl]), fix_error = None\<rparr> \<and>
   fx_calls (snd (shell_fix_command (executeCommandServer fooShell) (\<lambda>pattern s template. Inr s)
          (scenario1 ''c1'') freshHost)) =
     [(Lookup, whichFoo, Inr ''Not found''),
      (Rerun, [''foo'', ''--version''], Inr (fooMissing @ [nl]))] \<and>
   map (\<lambda>(cmdline, p). exit_status p)
     (hx_ran (fx_world (snd (shell_fix_command (executeCommandServer fooShell)
          (\<lambda>pattern s template. Inr s) (scenario1 ''c1'') freshHost)))) = [0, 0, 0, 0, 0, 127] \<and>
   fst (execute_POST fooShell
          (Inr \<lparr>req_containerId = ''c1'', req_command = Some [''foo'', ''--version'']\<rparr>)
          \<lparr>hx_world = (), hx_ran = []\<rparr>) =
     \<lparr>resp_status = 200, resp_success = Some False, resp_output = Some (fooMissing @ [nl]),
      resp_error = Some ''Error al ejecutar comando'',
      resp_details = Some (''Command failed: '' @ execCommandLine ''c1'' [''foo'', ''--version''] @
                           [nl] @ fooMissing @ [nl]),
      resp_stderr = Some (fooMissing @ [nl])\<rparr>"
  by code_simp

section \<open>Properties of the route handlers\<close>

lemma filterThrowing_member:
  "filterThrowing f xs = Inr ys \<Longrightarrow> y \<in> set ys \<Longrightarrow> y \<in> set xs \<and> f y = Inr True"
proof (induction xs arbitrary: ys)
  case Nil
  then show ?case by simp
next
  case (Cons x xs)
  then show ?case
    by (auto split: sum.splits if_splits)
qed

lemma cleanupTargets_app:
  assumes "cleanupTargets keep out = Inr cs"
  shows "set (map fst cs) \<subseteq> set (appLineIds out)"
proof
  fix i assume "i \<in> set (map fst cs)"
  then obtain c where c: "c \<in> set cs" "i = fst c" by auto
  from filterThrowing_member[OF assms[unfolded cleanupTargets_def] c(1)]
  have m: "c \<in> set (map parseLine3 (outputLines out))"
    and f: "(case appFilter3 c of Inl e \<Rightarrow> Inl e
             | Inr b \<Rightarrow> Inr (b \<and> (case keep of None \<Rightarrow> True | Some k \<Rightarrow> fst c \<noteq> k))) = Inr True"
    by simp_all
  from f have "appFilter3 c = Inr True" by (cases "appFilter3 c") auto
  with m c(2) show "i \<in> set (appLineIds out)"
    by (auto simp: appLineIds_def)
qed

lemma execSync_new:
  "execSync sh m cmdline s = (res, s') \<Longrightarrow>
     \<exists>p. hx_ran s' = hx_ran s @ [(cmdline, p)] \<and> (\<forall>out. res = Inr out \<longrightarrow> out = proc_stdout p)"
  by (auto simp: execSync_def split: prod.splits if_splits)

lemma single_removal:
  "i \<in> set allowed \<Longrightarrow> ''docker stop '' @ i \<in> removalCommands allowed"
  "i \<in> set allowed \<Longrightarrow> ''docker rm '' @ i \<in> removalCommands allowed"
  unfolding removalCommands_def
  by (rule CollectI, rule exI[of _ "[i]"], simp)+

lemma removeEach_ran:
  "removeEach sh ids s = (rs, s') \<Longrightarrow> set ids \<subseteq> set allowed \<Longrightarrow>
     \<exists>new. hx_ran s' = hx_ran s @ new \<and> fst ` set new \<subseteq> removalCommands allowed"
proof (induction ids arbitrary: s rs s')
  case Nil
  then show ?case by simp
next
  case (Cons i ids)
  obtain r1 s1 where e1: "execSync sh defaultMaxBuffer (''docker stop '' @ i) s = (r1, s1)" by force
  from execSync_new[OF e1] obtain p1 where l1: "hx_ran s1 = hx_ran s @ [(''docker stop '' @ i, p1)]" by blast
  from Cons.prems have i: "i \<in> set allowed" and sub: "set ids \<subseteq> set allowed" by auto
  show ?case
  proof (cases r1)
    case (Inl e)
    obtain rs1 s2 where rec: "removeEach sh ids s1 = (rs1, s2)" by force
    from Cons.IH[OF rec sub] obtain new where n: "hx_ran s2 = hx_ran s1 @ new"
      "fst ` set new \<subseteq> removalCommands allowed" by blast
    from Cons.prems(1) e1 Inl rec have "s' = s2" by simp
    with n l1 single_removal(1)[OF i] show ?thesis
      by (intro exI[of _ "(''docker stop '' @ i, p1) # new"]) auto
  next
    case (Inr o1)
    obtain r2 s2 where e2: "execSync sh defaultMaxBuffer (''docker rm '' @ i) s1 = (r2, s2)" by force
    from execSync_new[OF e2] obtain p2 where l2: "hx_ran s2 = hx_ran s1 @ [(''docker rm '' @ i, p2)]" by blast
    obtain rs1 s3 where rec: "removeEach sh ids s2 = (rs1, s3)" by force
    from Cons.IH[OF rec sub] obtain new where n: "hx_ran s3 = hx_ran s2 @ new"
      "fst ` set new \<subseteq> removalCommands allowed" by blast
    from Cons.prems(1) e1 Inr e2 rec have "s' = s3" by (auto split: sum.splits)
    with n l1 l2 single_removal[OF i] show ?thesis
      by (intro exI[of _ "(''docker stop '' @ i, p1) # (''docker rm '' @ i, p2) # new"]) auto
  qed
qed

lemma removeBatch_ran:
  assumes "removeBatch sh ids s = (rs, s')" "set ids \<subseteq> set allowed"
  shows "\<exists>new. hx_ran s' = hx_ran s @ new \<and> fst ` set new \<subseteq> removalCommands allowed"
proof -
  have a: "''docker stop '' @ join '' '' ids \<in> removalCommands allowed"
    "''docker rm '' @ join '' '' ids \<in> removalCommands allowed"
    using assms(2) unfolding removalCommands_def by blast+
  obtain r1 s1 where e1: "execSync sh defaultMaxBuffer (''docker stop '' @ join '' '' ids) s = (r1, s1)" by force
  from execSync_new[OF e1] obtain p1 where
    l1: "hx_ran s1 = hx_ran s @ [(''docker stop '' @ join '' '' ids, p1)]" by blast
  obtain r2 s2 where e2: "execSync sh defaultMaxBuffer (''docker rm '' @ join '' '' ids) s1 = (r2, s2)" by force
  from execSync_new[OF e2] obtain p2 where
    l2: "hx_ran s2 = hx_ran s1 @ [(''docker rm '' @ join '' '' ids, p2)]" by blast
  show ?thesis
  proof (cases r1)
    case (Inl e)
    with assms(1) e1 have "s' = s1" by (simp add: removeBatch_def)
    with l1 a show ?thesis by (intro exI[of _ "[(''docker stop '' @ join '' '' ids, p1)]"]) auto
  next
    case (Inr o1)
    with assms(1) e1 e2 have "s' = s2" by (auto simp: removeBatch_def split: sum.splits)
    with l1 l2 a show ?thesis
      by (intro exI[of _ "[(''docker stop '' @ join '' '' ids, p1), (''docker rm '' @ join '' '' ids, p2)]"]) auto
  qed
qed

lemma cleanup_others_ran:
  assumes "cleanup_others_POST pf keep s = (r, s')"
  shows "hx_ran s' = hx_ran s \<or>
         (\<exists>p rest. hx_ran s' = hx_ran s @ (listCmd3, p) # rest \<and>
            fst ` set rest \<subseteq> removalCommands (appLineIds (proc_stdout p)))"
proof (cases "keep = []")
  case True
  with assms show ?thesis by (simp add: cleanup_others_POST_def)
next
  case False
  obtain r1 s1 where e1: "execSync (pf_shell pf) defaultMaxBuffer listCmd3 s = (r1, s1)" by force
  from execSync_new[OF e1] obtain p where l1: "hx_ran s1 = hx_ran s @ [(listCmd3, p)]"
    and out: "\<forall>out. r1 = Inr out \<longrightarrow> out = proc_stdout p" by blast
  show ?thesis
  proof (cases r1)
    case (Inl e)
    with assms False e1 have "s' = s1" by (simp add: cleanup_others_POST_def)
    with l1 show ?thesis by auto
  next
    case (Inr o1)
    with out have o1: "o1 = proc_stdout p" by simp
    show ?thesis
    proof (cases "cleanupTargets (Some keep) o1")
      case (Inl e)
      with assms False e1 Inr have "s' = s1" by (simp add: cleanup_others_POST_def)
      with l1 show ?thesis by auto
    next
      case targets: (Inr cs)
      from cleanupTargets_app[OF targets] o1
      have sub: "set (map fst cs) \<subseteq> set (appLineIds (proc_stdout p))" by simp
      obtain rb s2 where b: "removeBatch (pf_shell pf) (map fst cs) s1 = (rb, s2)" by force
      from removeBatch_ran[OF b sub] obtain new1 where
        n1: "hx_ran s2 = hx_ran s1 @ new1" "fst ` set new1 \<subseteq> removalCommands (appLineIds (proc_stdout p))"
        by blast
      obtain re s3 where e: "removeEach (pf_shell pf) (map fst cs) s2 = (re, s3)" by force
      from removeEach_ran[OF e sub] obtain new2 where
        n2: "hx_ran s3 = hx_ran s2 @ new2" "fst ` set new2 \<subseteq> removalCommands (appLineIds (proc_stdout p))"
        by blast
      from assms False e1 Inr targets b e have "s' = s1 \<or> s' = s2 \<or> s' = s3"
        by (auto simp: cleanup_others_POST_def split: if_splits option.splits)
      with l1 n1 n2 show ?thesis
        by (elim disjE) (rule disjI2, rule exI[of _ p], (rule exI[of _ "[]"] | rule exI[of _ new1] | rule exI[of _ "new1 @ new2"]), auto)+
    qed
  qed
qed

lemma cleanup_ran:
  assumes "cleanup_POST pf s = (r, s')"
  shows "\<exists>p rest. hx_ran s' = hx_ran s @ (listCmd3, p) # rest \<and>
            fst ` set rest \<subseteq> removalCommands (appLineIds (proc_stdout p))"
proof -
  obtain r1 s1 where e1: "execSync (pf_shell pf) defaultMaxBuffer listCmd3 s = (r1, s1)" by force
  from execSync_new[OF e1] obtain p where l1: "hx_ran s1 = hx_ran s @ [(listCmd3, p)]"
    and out: "\<forall>out. r1 = Inr out \<longrightarrow> out = proc_stdout p" by blast
  show ?thesis
  proof (cases r1)
    case (Inl e)
    with assms e1 have "s' = s1" by (simp add: cleanup_POST_def)
    with l1 show ?thesis by auto
  next
    case (Inr o1)
    with out have o1: "o1 = proc_stdout p" by simp
    show ?thesis
    proof (cases "cleanupTargets None o1")
      case (Inl e)
      with assms e1 Inr have "s' = s1" by (simp add: cleanup_POST_def)
      with l1 show ?thesis by auto
    next
      case targets: (Inr cs)
      from cleanupTargets_app[OF targets] o1
      have sub: "set (map fst cs) \<subseteq> set (appLineIds (proc_stdout p))" by simp
      obtain re s3 where e: "removeEach (pf_shell pf) (map fst cs) s1 = (re, s3)" by force
      from removeEach_ran[OF e sub] obtain new2 where
        n2: "hx_ran s3 = hx_ran s1 @ new2" "fst ` set new2 \<subseteq> removalCommands (appLineIds (proc_stdout p))"
        by blast
      from assms e1 Inr targets e have "s' = s3"
        by (auto simp: cleanup_POST_def)
      with l1 n2 show ?thesis by auto
    qed
  qed
qed

section \<open>Properties of the Pool Reconciler\<close>

lemma fetchContainers_sent:
  "fetchContainers sv n = (r, n') \<Longrightarrow>
     net_sent n' = net_sent n @ [GetContainers] \<and> (r, net_world n') = sv_getContainers sv (net_world n)"
  by (auto simp: fetchContainers_def split: prod.splits)

lemma fetchDelete_sent:
  "fetchDelete sv i n = (r, n') \<Longrightarrow>
     net_sent n' = net_sent n @ [DeleteContainer i] \<and>
     net_world n' = snd (sv_deleteContainer sv i (net_world n))"
  by (auto simp: fetchDelete_def split: prod.splits)

lemma fetchCreate_sent:
  "fetchCreate sv cfg n = (r, n') \<Longrightarrow>
     net_sent n' = net_sent n @ [PostContainer cfg] \<and> (r, net_world n') = sv_postContainer sv cfg (net_world n)"
  by (auto simp: fetchCreate_def split: prod.splits)




lemma getAllContainers_sent:
  "getAllContainers sv ds n = (r, ds', n') \<Longrightarrow>
     net_sent n' = net_sent n @ [GetContainers] \<and> initState ds' = initState ds"
  by (auto simp: getAllContainers_def split: prod.splits reply.splits dest!: fetchContainers_sent)





lemma set_insertSorted: "set (insertSorted cmp x ys) = insert x (set ys)"
  by (induction ys) auto

lemma set_stableSort: "set (stableSort cmp xs) = set xs"
  unfolding stableSort_def by (induction xs) (auto simp: set_insertSorted)

lemma set_permute: "set (permute positions xs) = set xs"
proof (induction positions arbitrary: xs)
  case Nil
  then show ?case by simp
next
  case (Cons i positions)
  show ?case
  proof (cases "xs = []")
    case True
    then show ?thesis by simp
  next
    case False
    let ?j = "i mod length xs"
    from False have j: "?j < length xs" by simp
    have "set xs = set (take ?j xs @ xs ! ?j # drop (Suc ?j) xs)"
      using id_take_nth_drop[OF j] by simp
    then have "set xs = insert (xs ! ?j) (set (take ?j xs @ drop (Suc ?j) xs))" by simp
    with False Cons.IH[of "take ?j xs @ drop (Suc ?j) xs"] show ?thesis by simp
  qed
qed

lemma set_sortWith: "set (sortWith pick cmp xs) = set xs"
  by (simp add: sortWith_def set_stableSort set_permute)




lemma sortWith_nonempty: "xs \<noteq> [] \<Longrightarrow> sortWith pick cmp xs \<noteq> []"
  by (metis empty_iff empty_set list.set_intros(1) neq_Nil_conv set_sortWith)

lemma sortWith_hd_member: "xs \<noteq> [] \<Longrightarrow> hd (sortWith pick cmp xs) \<in> set xs"
  using sortWith_nonempty[of xs pick cmp] set_sortWith[of pick cmp xs] by (metis list.set_sel(1))


lemma createContainer_sent:
  assumes "createContainer sv config cs ds n = (r, ds', n')"
  shows "\<exists>more. net_sent n' =
           net_sent n @ PostContainer (case config of None \<Rightarrow> defaultConfig | Some cfg \<Rightarrow> cfg) # more"
proof -
  let ?cfg = "case config of None \<Rightarrow> defaultConfig | Some cfg \<Rightarrow> cfg"
  obtain rc n1 where f: "fetchCreate sv ?cfg n = (rc, n1)" by force
  from fetchCreate_sent[OF f] have s1: "net_sent n1 = net_sent n @ [PostContainer ?cfg]" by simp
  show ?thesis
  proof (cases rc)
    case (Ok info)
    let ?ds1 = "ds\<lparr>containerPool := (containerPool ds)(ci_id info \<mapsto> info)\<rparr>"
    obtain b ds2 n2 where fc: "forceCleanupExceptLatest sv (ci_id info) ?ds1 n1 = (b, ds2, n2)"
      by (metis prod_cases3)
    obtain rg dsg ng where g: "getAllContainers sv ?ds1 n1 = (rg, dsg, ng)" by (metis prod_cases3)
    have "\<exists>more. net_sent n2 = net_sent n1 @ more"
    proof (cases rg)
      case (Inl e)
      with fc g getAllContainers_sent[OF g] show ?thesis
        by (auto simp: forceCleanupExceptLatest_def)
    next
      case (Inr cs2)
      obtain ds3 n3 where r: "removeAllExcept sv (ci_id info) cs2 dsg ng = (ds3, n3)" by force
      have "\<And>cs ds n ds' n'. removeAllExcept sv (ci_id info) cs ds n = (ds', n') \<Longrightarrow>
              \<exists>more. net_sent n' = net_sent n @ more"
      proof -
        fix cs ds n ds' n'
        show "removeAllExcept sv (ci_id info) cs ds n = (ds', n') \<Longrightarrow>
              \<exists>more. net_sent n' = net_sent n @ more"
        proof (induction cs arbitrary: ds n)
          case Nil
          then show ?case by simp
        next
          case (Cons c cs)
          show ?case
          proof (cases "ci_id c = ci_id info")
            case True
            with Cons show ?thesis by simp
          next
            case False
            obtain r1 d1 m1 where rc: "removeContainer sv (ci_id c) ds n = (r1, d1, m1)"
              by (metis prod_cases3)
            then have "\<exists>more. net_sent m1 = net_sent n @ more"
              by (auto simp: removeContainer_def split: option.splits prod.splits reply.splits
                  dest!: fetchDelete_sent)
            moreover from Cons.prems False rc have "removeAllExcept sv (ci_id info) cs d1 m1 = (ds', n')"
              by simp
            from Cons.IH[OF this] obtain more where "net_sent n' = net_sent m1 @ more" by blast
            ultimately show ?thesis by auto
          qed
        qed
      qed
      from this[OF r] obtain more where "net_sent n3 = net_sent ng @ more" by blast
      with Inr fc g r getAllContainers_sent[OF g] show ?thesis
        by (auto simp: forceCleanupExceptLatest_def)
    qed
    with assms f Ok fc s1 show ?thesis
      by (auto simp: createContainer_def Let_def split: if_splits)
  next
    case (Failed st t)
    with assms f s1 show ?thesis by (auto simp: createContainer_def)
  next
    case (NoReply e)
    with assms f s1 show ?thesis by (auto simp: createContainer_def)
  qed
qed







lemma tracked_refl: "tracked P sv n n [] []"
  by (simp add: tracked_def)

lemma tracked_trans:
  assumes "tracked P sv n n1 new1 newL1" "tracked P sv n1 n2 new2 newL2"
  shows "tracked P sv n n2 (new1 @ new2) (newL1 @ newL2)"
  using assms unfolding tracked_def by auto blast+

lemma containers_GET_app:
  "containers_GET pf s = (Ok cs, s') \<Longrightarrow> c \<in> set cs \<Longrightarrow>
     isAppContainer (ci_name c) (ci_image c)"
  by (auto simp: containers_GET_def split: prod.splits sum.splits)

lemma routesServer_listsOnly:
  "listsOnly (\<lambda>c. isAppContainer (ci_name c) (ci_image c)) (routesServer pf)"
  unfolding listsOnly_def routesServer_def
  by (auto dest: containers_GET_app)

lemma getAllContainers_tracked:
  assumes "getAllContainers sv ds n = (r, ds', n')"
  shows "tracked P sv n n' [GetContainers] (case r of Inr cs \<Rightarrow> [cs] | Inl e \<Rightarrow> [])"
proof -
  obtain rp n1 where f: "fetchContainers sv n = (rp, n1)" by force
  obtain w where w: "sv_getContainers sv (net_world n) = (rp, w)"
    using f by (auto simp: fetchContainers_def split: prod.splits)
  from f w have n1: "net_sent n1 = net_sent n @ [GetContainers]"
    "net_listed n1 = (case rp of Ok cs \<Rightarrow> net_listed n @ [cs] | _ \<Rightarrow> net_listed n)"
    by (auto simp: fetchContainers_def)
  from assms f have n': "n' = n1" by (auto simp: getAllContainers_def split: reply.splits)
  show ?thesis
  proof (cases rp)
    case (Ok cs)
    with assms f have "r = Inr cs" by (auto simp: getAllContainers_def)
    with Ok n1 n' w show ?thesis by (auto simp: tracked_def listsOnly_def)
  next
    case (Failed st t)
    with assms f have "\<exists>e. r = Inl e" by (auto simp: getAllContainers_def)
    with Failed n1 n' show ?thesis by (auto simp: tracked_def)
  next
    case (NoReply e)
    with assms f have "\<exists>e. r = Inl e" by (auto simp: getAllContainers_def)
    with NoReply n1 n' show ?thesis by (auto simp: tracked_def)
  qed
qed

lemma removeContainer_requests:
  "removeContainer sv i ds n = (r, ds', n') \<Longrightarrow>
     net_listed n' = net_listed n \<and>
     (net_sent n' = net_sent n \<or> net_sent n' = net_sent n @ [DeleteContainer i])"
  by (auto simp: removeContainer_def fetchDelete_def split: option.splits prod.splits reply.splits)

lemma removeAllExcept_requests:
  "removeAllExcept sv keep cs ds n = (ds', n') \<Longrightarrow>
     \<exists>new. net_sent n' = net_sent n @ new \<and> net_listed n' = net_listed n \<and>
           set new \<subseteq> DeleteContainer ` ci_id ` set cs"
proof (induction cs arbitrary: ds n)
  case Nil
  then show ?case by simp
next
  case (Cons c cs)
  show ?case
  proof (cases "ci_id c = keep")
    case True
    with Cons.prems have "removeAllExcept sv keep cs ds n = (ds', n')" by simp
    from Cons.IH[OF this] show ?thesis by auto
  next
    case False
    obtain r ds1 n1 where rc: "removeContainer sv (ci_id c) ds n = (r, ds1, n1)"
      by (metis prod_cases3)
    from Cons.prems False rc have rest: "removeAllExcept sv keep cs ds1 n1 = (ds', n')" by simp
    from Cons.IH[OF rest] obtain new where
      n: "net_sent n' = net_sent n1 @ new" "net_listed n' = net_listed n1"
         "set new \<subseteq> DeleteContainer ` ci_id ` set cs" by blast
    from removeContainer_requests[OF rc] have
      "net_listed n1 = net_listed n \<and>
       (net_sent n1 = net_sent n \<or> net_sent n1 = net_sent n @ [DeleteContainer (ci_id c)])" .
    then show ?thesis
    proof (elim conjE disjE)
      assume "net_listed n1 = net_listed n" "net_sent n1 = net_sent n"
      with n show ?thesis by (intro exI[of _ new]) auto
    next
      assume "net_listed n1 = net_listed n" "net_sent n1 = net_sent n @ [DeleteContainer (ci_id c)]"
      with n show ?thesis by (intro exI[of _ "DeleteContainer (ci_id c) # new"]) auto
    qed
  qed
qed

lemma forceCleanup_tracked:
  assumes "forceCleanupExceptLatest sv keep ds n = (b, ds', n')"
  shows "\<exists>new newL. tracked P sv n n' new newL \<and> (\<forall>cfg. PostContainer cfg \<notin> set new)"
proof -
  obtain r ds1 n1 where g: "getAllContainers sv ds n = (r, ds1, n1)" by (metis prod_cases3)
  note T = getAllContainers_tracked[OF g, of P]
  show ?thesis
  proof (cases r)
    case (Inl e)
    with assms g have "n' = n1" by (simp add: forceCleanupExceptLatest_def)
    with T show ?thesis by (intro exI[of _ "[GetContainers]"] exI) auto
  next
    case (Inr cs)
    obtain ds2 n2 where ra: "removeAllExcept sv keep cs ds1 n1 = (ds2, n2)" by force
    from removeAllExcept_requests[OF ra] obtain new where
      n: "net_sent n2 = net_sent n1 @ new" "net_listed n2 = net_listed n1"
         "set new \<subseteq> DeleteContainer ` ci_id ` set cs" by blast
    from assms g Inr ra have n': "n' = n2" by (simp add: forceCleanupExceptLatest_def)
    from T Inr n n' have "tracked P sv n n' (GetContainers # new) [cs]"
      unfolding tracked_def by auto
    moreover from n(3) have "\<forall>cfg. PostContainer cfg \<notin> set (GetContainers # new)" by auto
    ultimately show ?thesis by blast
  qed
qed

lemma createContainer_tracked:
  assumes "createContainer sv config cs ds n = (r, ds', n')"
  shows "\<exists>new newL. tracked P sv n n' new newL \<and> (\<exists>cfg. PostContainer cfg \<in> set new)"
proof -
  let ?cfg = "case config of None \<Rightarrow> defaultConfig | Some cfg \<Rightarrow> cfg"
  obtain rc n1 where f: "fetchCreate sv ?cfg n = (rc, n1)" by force
  then have t1: "tracked P sv n n1 [PostContainer ?cfg] []"
    by (auto simp: fetchCreate_def tracked_def split: prod.splits)
  show ?thesis
  proof (cases rc)
    case (Ok info)
    let ?ds1 = "ds\<lparr>containerPool := (containerPool ds)(ci_id info \<mapsto> info)\<rparr>"
    obtain b ds2 n2 where fc: "forceCleanupExceptLatest sv (ci_id info) ?ds1 n1 = (b, ds2, n2)"
      by (metis prod_cases3)
    from forceCleanup_tracked[OF fc, of P] obtain new newL where t2: "tracked P sv n1 n2 new newL"
      by blast
    from assms f Ok fc have "n' = n1 \<or> n' = n2"
      by (auto simp: createContainer_def Let_def split: if_splits)
    then show ?thesis
    proof
      assume "n' = n1"
      with t1 show ?thesis by (intro exI[of _ "[PostContainer ?cfg]"] exI[of _ "[]"]) auto
    next
      assume "n' = n2"
      with tracked_trans[OF t1 t2] show ?thesis
        by (intro exI[of _ "[PostContainer ?cfg] @ new"] exI[of _ "[] @ newL"]) auto
    qed
  next
    case (Failed st t)
    with assms f have "n' = n1" by (auto simp: createContainer_def)
    with t1 show ?thesis by (intro exI[of _ "[PostContainer ?cfg]"] exI[of _ "[]"]) auto
  next
    case (NoReply e)
    with assms f have "n' = n1" by (auto simp: createContainer_def)
    with t1 show ?thesis by (intro exI[of _ "[PostContainer ?cfg]"] exI[of _ "[]"]) auto
  qed
qed

lemma ensureInitialized_tracked:
  assumes "ensureInitialized sv ds n = (r, ds', n')"
  shows "\<exists>new. tracked P sv n n' new [] \<and> set new \<subseteq> {PostInitialize}"
proof (cases "initState ds")
  case NotInitialized
  obtain rp n1 where f: "fetchInitialize sv n = (rp, n1)" by force
  then have "tracked P sv n n1 [PostInitialize] []"
    by (auto simp: fetchInitialize_def tracked_def split: prod.splits)
  moreover from assms NotInitialized f have "n' = n1"
    by (auto simp: ensureInitialized_def split: reply.splits)
  ultimately show ?thesis by (intro exI[of _ "[PostInitialize]"]) auto
next
  case (InitFailed e)
  with assms have "n' = n" by (simp add: ensureInitialized_def)
  then show ?thesis by (intro exI[of _ "[]"]) (auto simp: tracked_refl)
next
  case Initialized
  with assms have "n' = n" by (simp add: ensureInitialized_def)
  then show ?thesis by (intro exI[of _ "[]"]) (auto simp: tracked_refl)
qed

lemma getAvailableContainer_tracked:
  assumes "getAvailableContainer parseDate pick sv config ds n = (r, ds', n')"
  shows "\<exists>new newL. tracked P sv n n' new newL \<and>
           (\<forall>c. r = Inr c \<and> (\<forall>cfg. PostContainer cfg \<notin> set new) \<longrightarrow> (\<exists>cs \<in> set newL. c \<in> set cs))"
proof -
  obtain r0 ds0 n0 where e: "ensureInitialized sv ds n = (r0, ds0, n0)" by (metis prod_cases3)
  from ensureInitialized_tracked[OF e, of P] obtain new0 where
    t0: "tracked P sv n n0 new0 []" and p0: "set new0 \<subseteq> {PostInitialize}" by blast
  show ?thesis
  proof (cases r0)
    case (Inl err)
    with assms e have "r = Inl err" "n' = n0" by (auto simp: getAvailableContainer_def)
    with t0 show ?thesis by (intro exI[of _ new0] exI[of _ "[]"]) auto
  next
    case (Inr u)
    obtain r1 ds1 n1 where g: "getAllContainers sv ds0 n0 = (r1, ds1, n1)" by (metis prod_cases3)
    note t1 = getAllContainers_tracked[OF g, of P]
    show ?thesis
    proof (cases r1)
      case (Inl err)
      with assms e Inr g have "r = Inl err" "n' = n1" by (auto simp: getAvailableContainer_def)
      with tracked_trans[OF t0 t1] Inl show ?thesis
        by (intro exI[of _ "new0 @ [GetContainers]"] exI[of _ "[] @ []"]) auto
    next
      case listed: (Inr cs)
      from tracked_trans[OF t0 t1] listed have t01: "tracked P sv n n1 (new0 @ [GetContainers]) [cs]"
        by simp
      let ?latest = "hd (sortWith pick (compareCreated parseDate) cs)"
      obtain b ds2 n2 where fc: "forceCleanupExceptLatest sv (ci_id ?latest) ds1 n1 = (b, ds2, n2)"
        by (metis prod_cases3)
      from forceCleanup_tracked[OF fc, of P] obtain new2 newL2 where
        t2: "tracked P sv n1 n2 new2 newL2" and np2: "\<forall>cfg. PostContainer cfg \<notin> set new2" by blast
      consider (reuseMany) "1 < length cs" "reusable config ?latest"
        | (createMany) "1 < length cs" "\<not> reusable config ?latest"
        | (reuseOne) "\<not> 1 < length cs" "length cs = 1 \<and> reusable config (hd cs)"
        | (createFew) "\<not> 1 < length cs" "\<not> (length cs = 1 \<and> reusable config (hd cs))"
        by blast
      then show ?thesis
      proof cases
        case reuseMany
        with assms e Inr g listed fc have res: "r = Inr ?latest" "n' = n2"
          by (auto simp: getAvailableContainer_def Let_def)
        from reuseMany(1) have "cs \<noteq> []" by auto
        from sortWith_hd_member[OF this] have "?latest \<in> set cs" .
        with tracked_trans[OF t01 t2] res show ?thesis
          by (intro exI[of _ "(new0 @ [GetContainers]) @ new2"] exI[of _ "[cs] @ newL2"]) auto
      next
        case createMany
        with assms e Inr g listed fc have c: "createContainer sv config cs ds2 n2 = (r, ds', n')"
          by (auto simp: getAvailableContainer_def Let_def)
        from createContainer_tracked[OF c, of P] obtain new3 newL3 where
          t3: "tracked P sv n2 n' new3 newL3" and p3: "\<exists>cfg. PostContainer cfg \<in> set new3" by blast
        from tracked_trans[OF tracked_trans[OF t01 t2] t3] p3 show ?thesis
          by (intro exI[of _ "((new0 @ [GetContainers]) @ new2) @ new3"]
              exI[of _ "([cs] @ newL2) @ newL3"]) auto
      next
        case reuseOne
        with assms e Inr g listed have res: "r = Inr (hd cs)" "n' = n1"
          by (auto simp: getAvailableContainer_def Let_def)
        from reuseOne(2) have "hd cs \<in> set cs" by (cases cs) auto
        with t01 res show ?thesis
          by (intro exI[of _ "new0 @ [GetContainers]"] exI[of _ "[cs]"]) auto
      next
        case createFew
        with assms e Inr g listed have c: "createContainer sv config cs ds1 n1 = (r, ds', n')"
          by (auto simp: getAvailableContainer_def Let_def)
        from createContainer_tracked[OF c, of P] obtain new3 newL3 where
          t3: "tracked P sv n1 n' new3 newL3" and p3: "\<exists>cfg. PostContainer cfg \<in> set new3" by blast
        from tracked_trans[OF t01 t3] p3 show ?thesis
          by (intro exI[of _ "(new0 @ [GetContainers]) @ new3"] exI[of _ "[cs] @ newL3"]) auto
      qed
    qed
  qed
qed





text \<open>
  Claim C10. The listing returns only containers whose name or image contains
  \<^verbatim>\<open>codeai\<close>. On the handlers, \<^verbatim>\<open>getAvailableContainer\<close> receives only such listings; every
  removal it requests is of a container of one of them, and a container it returns
  without having created one is a container of one of them. The cleanup handlers run,
  after the listing, only \<^verbatim>\<open>docker stop\<close> and \<^verbatim>\<open>docker rm\<close> on ids of lines of that listing
  whose name or image contains \<^verbatim>\<open>codeai\<close>.
\<close>

theorem containers_outside_the_filter_are_invisible:
  "(\<forall>cs s'. containers_GET pf s = (Ok cs, s') \<longrightarrow>
       (\<forall>c \<in> set cs. isAppContainer (ci_name c) (ci_image c))) \<and>
   (\<forall>r ds' n'. getAvailableContainer parseDate pick (routesServer pf) config ds n = (r, ds', n') \<longrightarrow>
       (\<exists>new newL.
          net_sent n' = net_sent n @ new \<and> net_listed n' = net_listed n @ newL \<and>
          (\<forall>cs \<in> set newL. \<forall>c \<in> set cs. isAppContainer (ci_name c) (ci_image c)) \<and>
          (\<forall>i. DeleteContainer i \<in> set new \<longrightarrow> (\<exists>cs \<in> set newL. i \<in> ci_id ` set cs)) \<and>
          (\<forall>c. r = Inr c \<and> (\<forall>cfg. PostContainer cfg \<notin> set new) \<longrightarrow>
                 (\<exists>cs \<in> set newL. c \<in> set cs)))) \<and>
   (\<forall>keep r s'. cleanup_others_POST pf keep s = (r, s') \<longrightarrow>
       hx_ran s' = hx_ran s \<or>
       (\<exists>p rest. hx_ran s' = hx_ran s @ (listCmd3, p) # rest \<and>
          fst ` set rest \<subseteq> removalCommands (appLineIds (proc_stdout p)))) \<and>
   (\<forall>r s'. cleanup_POST pf s = (r, s') \<longrightarrow>
       (\<exists>p rest. hx_ran s' = hx_ran s @ (listCmd3, p) # rest \<and>
          fst ` set rest \<subseteq> removalCommands (appLineIds (proc_stdout p))))"
proof (intro conjI allI impI)
  fix cs s'
  assume "containers_GET pf s = (Ok cs, s')"
  then show "\<forall>c \<in> set cs. isAppContainer (ci_name c) (ci_image c)"
    by (auto dest: containers_GET_app)
next
  fix r ds' n'
  assume g: "getAvailableContainer parseDate pick (routesServer pf) config ds n = (r, ds', n')"
  let ?P = "\<lambda>c. isAppContainer (ci_name c) (ci_image c)"
  from getAvailableContainer_tracked[OF g, of ?P] obtain new newL where
    t: "tracked ?P (routesServer pf) n n' new newL" and
    u: "\<forall>c. r = Inr c \<and> (\<forall>cfg. PostContainer cfg \<notin> set new) \<longrightarrow> (\<exists>cs \<in> set newL. c \<in> set cs)"
    by blast
  from t routesServer_listsOnly[of pf] have
    "net_sent n' = net_sent n @ new" "net_listed n' = net_listed n @ newL"
    "\<forall>cs \<in> set newL. \<forall>c \<in> set cs. ?P c"
    "\<forall>i. DeleteContainer i \<in> set new \<longrightarrow> (\<exists>cs \<in> set newL. i \<in> ci_id ` set cs)"
    unfolding tracked_def by blast+
  with u show "\<exists>new newL.
          net_sent n' = net_sent n @ new \<and> net_listed n' = net_listed n @ newL \<and>
          (\<forall>cs \<in> set newL. \<forall>c \<in> set cs. isAppContainer (ci_name c) (ci_image c)) \<and>
          (\<forall>i. DeleteContainer i \<in> set new \<longrightarrow> (\<exists>cs \<in> set newL. i \<in> ci_id ` set cs)) \<and>
          (\<forall>c. r = Inr c \<and> (\<forall>cfg. PostContainer cfg \<notin> set new) \<longrightarrow>
                 (\<exists>cs \<in> set newL. c \<in> set cs))"
    by blast
next
  fix keep r s'
  assume "cleanup_others_POST pf keep s = (r, s')"
  then show "hx_ran s' = hx_ran s \<or>
       (\<exists>p rest. hx_ran s' = hx_ran s @ (listCmd3, p) # rest \<and>
          fst ` set rest \<subseteq> removalCommands (appLineIds (proc_stdout p)))"
    by (rule cleanup_others_ran)
next
  fix r s'
  assume "cleanup_POST pf s = (r, s')"
  then show "\<exists>p rest. hx_ran s' = hx_ran s @ (listCmd3, p) # rest \<and>
          fst ` set rest \<subseteq> removalCommands (appLineIds (proc_stdout p))"
    by (rule cleanup_ran)
qed

theorem containers_outside_the_filter_witness:
  "fst (containers_GET demoPlatform mixedRegistry) =
     Ok [\<lparr>ci_id = ''c1'', ci_name = ''codeai-container-7'', ci_image = defaultImage,
          ci_status = ''running'', ci_created = Some ''2026-01-01 00:00:00 +0000 UTC''\<rparr>] \<and>
   isAppContainer ''codeai-container-7'' defaultImage \<and>
   \<not> isAppContainer ''sandbox'' ''python:3.11'' \<and>
   map fst (hx_ran (snd (cleanup_POST demoPlatform mixedRegistry))) =
     [listCmd3, ''docker stop c1'', ''docker rm c1'']"
proof -
  let ?c = "\<lparr>ci_id = ''c1'', ci_name = ''codeai-container-7'', ci_image = defaultImage,
          ci_status = ''running'', ci_created = Some ''2026-01-01 00:00:00 +0000 UTC''\<rparr>"
  have a: "fst (containers_GET demoPlatform mixedRegistry) = Ok [?c]" by code_simp
  then have e: "containers_GET demoPlatform mixedRegistry =
      (Ok [?c], snd (containers_GET demoPlatform mixedRegistry))"
    by (metis prod.collapse)
  from containers_outside_the_filter_are_invisible[where pf = demoPlatform and s = mixedRegistry,
      THEN conjunct1, rule_format, OF e, of ?c]
  have b: "isAppContainer ''codeai-container-7'' defaultImage" by simp
  have c: "\<not> isAppContainer ''sandbox'' ''python:3.11''" by code_simp
  have d: "map fst (hx_ran (snd (cleanup_POST demoPlatform mixedRegistry))) =
     [listCmd3, ''docker stop c1'', ''docker rm c1'']" by code_simp
  from a b c d show ?thesis by blast
qed


section \<open>Properties of the structured responses\<close>

lemma fence_not_nl: "\<not> startsWith (nl # s) fence"
  by (simp add: startsWith_def fence_def nl_def)

lemma startsWith_fence_append:
  "\<not> startsWith (c # cs) fence \<Longrightarrow> \<not> startsWith (c # cs @ nl # fence) fence"
proof (cases cs)
  case Nil
  then show ?thesis by (simp add: startsWith_def fence_def nl_def)
next
  case (Cons d ds)
  assume a: "\<not> startsWith (c # cs) fence"
  show ?thesis
  proof (cases ds)
    case Nil
    with Cons show ?thesis by (simp add: startsWith_def fence_def nl_def)
  next
    case (Cons e es)
    with \<open>cs = d # ds\<close> a show ?thesis by (simp add: startsWith_def fence_def)
  qed
qed

lemma findFirst_fence_end:
  "\<not> includes_js s fence \<Longrightarrow> findFirst fence (s @ nl # fence) = Some (s @ [nl], [])"
proof (induction s)
  case Nil
  have "findFirst fence fence = Some ([], [])"
    by (simp add: fence_def startsWith_def)
  then show ?case using fence_not_nl [of fence] by simp
next
  case (Cons c cs)
  then have a: "\<not> startsWith (c # cs) fence" and b: "\<not> includes_js cs fence" by simp_all
  from startsWith_fence_append [OF a] Cons.IH [OF b] show ?case by simp
qed

lemma findFirst_fence_start: "findFirst fence (fence @ rest) = Some ([], rest)"
  by (simp add: fence_def startsWith_def)

lemma includes_nl: "\<not> includes_js s fence \<Longrightarrow> \<not> includes_js (nl # s) fence"
  using fence_not_nl [of s] by simp

lemma includes_json: "\<not> includes_js s fence \<Longrightarrow> \<not> includes_js (''json'' @ nl # s) fence"
  using fence_not_nl [of s] by (simp add: startsWith_def fence_def)

lemma dropWhile_body:
  assumes "dropWhile isWhiteSpace s \<noteq> []"
  shows "dropWhile isWhiteSpace (nl # s @ [nl]) = dropWhile isWhiteSpace s @ [nl]"
proof -
  from assms obtain x where "x \<in> set s" "\<not> isWhiteSpace x"
    by (auto simp: dropWhile_eq_Nil_conv)
  then have "dropWhile isWhiteSpace (s @ [nl]) = dropWhile isWhiteSpace s @ [nl]"
    by (rule dropWhile_append1)
  moreover have "isWhiteSpace nl" by (simp add: isWhiteSpace_def nl_def)
  ultimately show ?thesis by simp
qed

text \<open>The capture of a fenced text without a fence inside: the text between the fences,
  without the white space in front of it.\<close>

lemma codeBlockCapture_fenced:
  assumes nf: "\<not> includes_js s fence" and core: "dropWhile isWhiteSpace s \<noteq> []"
    and lang: "lang = [] \<or> lang = ''json''"
  shows "codeBlockCapture (fenced lang s) = Some (dropWhile isWhiteSpace s)"
proof -
  have nj: "\<not> startsWith (nl # s @ [nl]) ''json''"
    by (simp add: startsWith_def nl_def)
  note b = dropWhile_body [OF core]
  from lang show ?thesis
  proof
    assume l: "lang = []"
    have "findFirst fence ((nl # s) @ nl # fence) = Some ((nl # s) @ [nl], [])"
      by (rule findFirst_fence_end [OF includes_nl [OF nf]])
    then have r: "findFirst fence (nl # s @ nl # fence) = Some (nl # s @ [nl], [])" by simp
    show ?thesis
      unfolding codeBlockCapture_def fenced_def l
      using r nj b core
      by (simp add: findFirst_fence_start Let_def del: findFirst.simps dropWhile.simps dropWhile_eq_Nil_conv)
  next
    assume l: "lang = ''json''"
    have "findFirst fence ((''json'' @ nl # s) @ nl # fence) = Some ((''json'' @ nl # s) @ [nl], [])"
      by (rule findFirst_fence_end [OF includes_json [OF nf]])
    then have r: "findFirst fence (''json'' @ nl # s @ nl # fence) = Some (''json'' @ nl # s @ [nl], [])"
      by simp
    have sj: "startsWith (''json'' @ nl # s @ [nl]) ''json''" by (simp add: startsWith_def)
    show ?thesis
      unfolding codeBlockCapture_def fenced_def l
      using r sj b core
      by (simp add: findFirst_fence_start Let_def del: findFirst.simps dropWhile.simps dropWhile_eq_Nil_conv)
  qed
qed

lemma fenced_rejected:
  assumes "\<forall>t. parse (CHR 0x60 # t) = None"
  shows "parse (fenced lang s) = None"
  using assms by (simp add: fenced_def fence_def)

lemma extract_fenced:
  assumes white: "\<forall>t v. parse t = Some v \<longrightarrow> parse (trimStart t) = Some v \<and> parse (trim t) = Some v"
    and start: "parse [] = None \<and> (\<forall>t. parse (CHR 0x60 # t) = None)"
    and s: "parse s = Some j" and lang: "lang = [] \<or> lang = ''json''"
    and nf: "\<not> includes_js s fence"
  shows "extractJsonFromText parse repair (fenced lang s) = j"
proof -
  from white s have c: "parse (dropWhile isWhiteSpace s) = Some j"
    unfolding trimStart_def by blast
  have ne: "dropWhile isWhiteSpace s \<noteq> []"
  proof
    assume "dropWhile isWhiteSpace s = []"
    with c start show False by (simp del: dropWhile_eq_Nil_conv)
  qed
  from start have r: "parse (fenced lang s) = None" by (simp add: fenced_rejected)
  from codeBlockCapture_fenced [OF nf ne lang] c ne r show ?thesis
    by (simp add: extractJsonFromText_def del: dropWhile_eq_Nil_conv)
qed

text \<open>The first fence of a text, when more text follows and when a tag stands in front.\<close>

lemma findFirst_length:
  "findFirst pat s = Some (t, u) \<Longrightarrow> length pat \<le> length s \<and> s = t @ pat @ u"
proof (induction s arbitrary: t)
  case Nil
  then show ?case by (simp split: if_splits)
next
  case (Cons c cs)
  show ?case
  proof (cases "startsWith (c # cs) pat")
    case True
    with Cons.prems have t: "t = []" and u: "u = drop (length pat) (c # cs)" by simp_all
    from True have p: "take (length pat) (c # cs) = pat" by (simp add: startsWith_def)
    then have "length (take (length pat) (c # cs)) = length pat" by simp
    then have "length pat \<le> length (c # cs)" by (simp add: min_def split: if_splits)
    moreover from p have "c # cs = pat @ drop (length pat) (c # cs)"
      by (metis append_take_drop_id)
    ultimately show ?thesis using t u by simp
  next
    case False
    with Cons.prems obtain t' where f: "findFirst pat cs = Some (t', u)" and t: "t = c # t'"
      by auto
    from Cons.IH [OF f] t show ?thesis by simp
  qed
qed

lemma findFirst_append:
  "findFirst pat s = Some (t, u) \<Longrightarrow> findFirst pat (s @ r) = Some (t, u @ r)"
proof (induction s arbitrary: t)
  case Nil
  then have "pat = []" "t = []" "u = []" by (simp_all split: if_splits)
  then show ?case by (cases r) (simp_all add: startsWith_def)
next
  case (Cons c cs)
  show ?case
  proof (cases "startsWith (c # cs) pat")
    case True
    with Cons.prems have t: "t = []" and u: "u = drop (length pat) (c # cs)" by simp_all
    from True have p: "take (length pat) (c # cs) = pat" by (simp add: startsWith_def)
    then have "length (take (length pat) (c # cs)) = length pat" by simp
    then have l: "length pat \<le> length (c # cs)" by (simp add: min_def split: if_splits)
    then have "take (length pat) (c # cs @ r) = take (length pat) (c # cs)"
      by (cases pat) simp_all
    with p have "startsWith (c # cs @ r) pat"
      by (simp add: startsWith_def)
    moreover from l have "drop (length pat) (c # cs @ r) = drop (length pat) (c # cs) @ r"
      by (cases pat) simp_all
    ultimately show ?thesis using t u by simp
  next
    case False
    with Cons.prems obtain t' where f: "findFirst pat cs = Some (t', u)" and t: "t = c # t'"
      by auto
    from findFirst_length [OF f] have l: "length pat \<le> length cs" by simp
    then have "take (length pat) (c # cs @ r) = take (length pat) (c # cs)"
      by (cases pat) simp_all
    with False have "\<not> startsWith (c # cs @ r) pat" by (simp add: startsWith_def)
    with Cons.IH [OF f] t show ?thesis by simp
  qed
qed

lemma includes_findFirst:
  "includes_js s pat \<Longrightarrow> \<exists>t u. findFirst pat s = Some (t, u)"
  by (induction s) auto

lemma includes_char: "c \<in> set s \<Longrightarrow> includes_js s [c]"
  by (induction s) (auto simp add: startsWith_def)

lemma not_fence_start: "c \<noteq> CHR 0x60 \<Longrightarrow> \<not> startsWith (c # x) fence"
  by (simp add: startsWith_def fence_def)

lemma findFirst_after_tag:
  assumes "findFirst fence s = Some (t, u)" and "lang = [] \<or> lang = ''json''"
  shows "findFirst fence (lang @ nl # s) = Some (lang @ nl # t, u)"
  using assms not_fence_start [of nl] not_fence_start [of "CHR ''j''"] not_fence_start [of "CHR ''s''"]
    not_fence_start [of "CHR ''o''"] not_fence_start [of "CHR ''n''"]
  by (auto simp: nl_def)

text \<open>The capture of a fenced text with a fence inside ends in front of that fence.\<close>

lemma codeBlockCapture_inner_fence:
  assumes f: "findFirst fence s = Some (t, u)" and lang: "lang = [] \<or> lang = ''json''"
  shows "\<exists>cap r. codeBlockCapture (fenced lang s) = Some cap \<and> dropWhile isWhiteSpace t = cap @ r"
proof -
  let ?b = "dropWhile isWhiteSpace t"
  let ?cap = "if ?b \<noteq> [] \<and> last ?b = nl then butlast ?b else ?b"
  from findFirst_append [OF f, of "nl # fence"]
  have "findFirst fence (s @ nl # fence) = Some (t, u @ nl # fence)" .
  from findFirst_after_tag [OF this lang]
  have r: "findFirst fence (lang @ nl # s @ nl # fence) = Some (lang @ nl # t, u @ nl # fence)" .
  have w: "isWhiteSpace nl" by (simp add: isWhiteSpace_def nl_def)
  have b: "(if startsWith (lang @ nl # t) ''json'' then drop 4 (lang @ nl # t) else lang @ nl # t)
            = nl # t"
    using lang by (auto simp add: startsWith_def nl_def)
  have "codeBlockCapture (fenced lang s) = Some ?cap"
    unfolding codeBlockCapture_def fenced_def
    using r b w
    by (simp add: findFirst_fence_start Let_def
        del: findFirst.simps dropWhile_eq_Nil_conv)
  moreover have "\<exists>r. ?b = ?cap @ r"
  proof (cases "?b \<noteq> [] \<and> last ?b = nl")
    case True
    then have "butlast ?b @ [last ?b] = ?b" using append_butlast_last_id by blast
    with True show ?thesis by (metis (full_types))
  next
    case False
    then have "?b = ?cap @ []" by (auto simp del: dropWhile_eq_Nil_conv)
    then show ?thesis by blast
  qed
  ultimately show ?thesis by blast
qed

lemma capture_rejected:
  assumes white: "\<forall>t v. parse t = Some v \<longrightarrow> parse (trimStart t) = Some v \<and> parse (trim t) = Some v"
    and prefix: "\<forall>a b v. parse (a @ b) = Some v \<and> CHR 0x60 \<in> set b \<longrightarrow> parse a = None"
    and s: "parse s = Some j" and lang: "lang = [] \<or> lang = ''json''"
    and inc: "includes_js s fence"
  shows "(case codeBlockCapture (fenced lang s) of
            None \<Rightarrow> None
          | Some captured \<Rightarrow> if captured = [] then None else parse captured) = None"
proof -
  from includes_findFirst [OF inc] obtain t u where f: "findFirst fence s = Some (t, u)"
    by blast
  from codeBlockCapture_inner_fence [OF f lang] obtain cap r
    where c: "codeBlockCapture (fenced lang s) = Some cap"
      and b: "dropWhile isWhiteSpace t = cap @ r" by blast
  show ?thesis
  proof (cases "cap = []")
    case True
    with c show ?thesis by simp
  next
    case False
    with b have "dropWhile isWhiteSpace t \<noteq> []" by (simp del: dropWhile_eq_Nil_conv)
    then obtain x where "x \<in> set t" "\<not> isWhiteSpace x"
      by (auto simp: dropWhile_eq_Nil_conv)
    then have "dropWhile isWhiteSpace (t @ fence @ u) = dropWhile isWhiteSpace t @ fence @ u"
      by (rule dropWhile_append1)
    moreover from findFirst_length [OF f] have "s = t @ fence @ u" by simp
    ultimately have "trimStart s = cap @ (r @ fence @ u)"
      using b by (simp add: trimStart_def del: dropWhile_eq_Nil_conv)
    with white s have "parse (cap @ (r @ fence @ u)) = Some j" by metis
    moreover have "CHR 0x60 \<in> set (r @ fence @ u)" by (simp add: fence_def)
    ultimately have "parse cap = None" using prefix by blast
    with c False show ?thesis by simp
  qed
qed

text \<open>A text is its trimmed text between white space.\<close>

lemma trim_between:
  "\<exists>a b. s = a @ trim s @ b \<and> (\<forall>c \<in> set a. isWhiteSpace c)"
proof -
  let ?x = "dropWhile isWhiteSpace s"
  have "?x = rev (dropWhile isWhiteSpace (rev ?x)) @ rev (takeWhile isWhiteSpace (rev ?x))"
    by (metis rev_append rev_rev_ident takeWhile_dropWhile_id)
  then have "?x = trim s @ rev (takeWhile isWhiteSpace (rev ?x))"
    by (simp add: trim_def trimEnd_def trimStart_def)
  then have "s = takeWhile isWhiteSpace s @ trim s @ rev (takeWhile isWhiteSpace (rev ?x))"
    by (metis takeWhile_dropWhile_id)
  moreover have "\<forall>c \<in> set (takeWhile isWhiteSpace s). isWhiteSpace c"
    by (auto dest: set_takeWhileD)
  ultimately show ?thesis by blast
qed

text \<open>The scans: over characters that are no bracket, over a text without an opening
  bracket, and over a text whose brackets close at its end.\<close>

lemma scan_skip:
  "\<forall>c \<in> set pre. c \<noteq> ob \<and> c \<noteq> cb \<Longrightarrow>
   scanBrackets parse accept ob cb whole (pre @ rest) i count start =
   scanBrackets parse accept ob cb whole rest (i + length pre) count start"
  by (induction pre arbitrary: i) auto

lemma scan_nothing:
  "ob \<notin> set cs \<Longrightarrow>
   scanBrackets parse accept ob cb whole cs i count None = None"
  by (induction cs arbitrary: i count) auto

lemma scan_closes:
  assumes "depthScan ob cb d cs" and "0 < d"
    and "parse (slice st (i + length cs) whole) = Some v" and "accept v"
  shows "scanBrackets parse accept ob cb whole (cs @ post) i d (Some st) = Some v"
  using assms
proof (induction ob cb d cs arbitrary: i rule: depthScan.induct)
  case (1 ob cb d)
  then show ?case by simp
next
  case (2 ob cb d c)
  then have c: "c = cb" and o: "c \<noteq> ob" and d: "d = 1"
    by (auto simp: bracketDelta_def split: if_splits)
  with 2 show ?case by simp
next
  case (3 ob cb d c c' cs)
  from "3.prems"(1) have p: "0 < d + bracketDelta ob cb c"
    and r: "depthScan ob cb (d + bracketDelta ob cb c) (c' # cs)"
    by simp_all
  from "3.prems"(3) have s: "parse (slice st (i + 1 + length (c' # cs)) whole) = Some v" by simp
  note IH = "3.IH" [OF r p s "3.prems"(4)]
  show ?case
  proof (cases "c = ob")
    case True
    with IH "3.prems"(2) show ?thesis by (simp add: bracketDelta_def)
  next
    case False
    show ?thesis
    proof (cases "c = cb")
      case True
      with p False have "d - 1 \<noteq> 0" by (simp add: bracketDelta_def)
      with True False IH show ?thesis by (simp add: bracketDelta_def)
    next
      case nc: False
      with False IH show ?thesis by (simp add: bracketDelta_def)
    qed
  qed
qed

lemma scan_whole:
  assumes c: "closesAtEnd ob cb s"
    and pre: "\<forall>c \<in> set pre. c \<noteq> ob \<and> c \<noteq> cb"
    and p: "parse s = Some v" and o: "accept v"
  shows "scanBrackets parse accept ob cb (pre @ s @ post) (pre @ s @ post) 0 0 None = Some v"
proof -
  from c obtain s' where s: "s = ob # s'" and d: "depthScan ob cb 0 s"
    by (cases s) (auto simp: closesAtEnd_def)
  from d s obtain c' r where s': "s' = c' # r" and d1: "depthScan ob cb 1 s'"
    by (cases s') (auto simp: bracketDelta_def)
  have sl: "slice (length pre) (length pre + 1 + length s') (pre @ s @ post) = s"
    using s by (simp add: slice_def)
  from p sl have ps: "parse (slice (length pre) (length pre + 1 + length s') (pre @ s @ post)) = Some v"
    by simp
  have "scanBrackets parse accept ob cb (pre @ s @ post) (pre @ s @ post) 0 0 None =
        scanBrackets parse accept ob cb (pre @ s @ post) (s @ post) (length pre) 0 None"
    using scan_skip [OF pre, of parse accept "pre @ s @ post" "s @ post" 0 0 None] by simp
  also have "\<dots> = scanBrackets parse accept ob cb (pre @ s @ post) (s' @ post)
          (length pre + 1) 1 (Some (length pre))"
    using s by simp
  also have "\<dots> = Some v"
    using scan_closes [where d = 1 and cs = s' and parse = parse and st = "length pre"
        and i = "length pre + 1" and whole = "pre @ s @ post" and v = v and post = post
        and accept = accept and ob = ob and cb = cb, OF d1 _ _ o]
      ps by simp
  finally show ?thesis .
qed

lemma depth_closing:
  "depthScan ob cb d cs \<Longrightarrow> 0 < d \<Longrightarrow> cb \<in> set cs"
proof (induction ob cb d cs rule: depthScan.induct)
  case (1 ob cb d)
  then show ?case by simp
next
  case (2 ob cb d c)
  then show ?case by (auto simp: bracketDelta_def split: if_splits)
next
  case (3 ob cb d c c' cs)
  then show ?case by simp
qed

lemma closesAtEnd_brackets:
  assumes "closesAtEnd ob cb s"
  shows "ob \<in> set s \<and> cb \<in> set s"
proof -
  from assms obtain s' where s: "s = ob # s'" and d: "depthScan ob cb 0 s"
    by (cases s) (auto simp: closesAtEnd_def)
  from d s obtain c' r where s': "s' = c' # r" and d1: "depthScan ob cb 1 s'"
    by (cases s') (auto simp: bracketDelta_def)
  from depth_closing [OF d1] s show ?thesis by simp
qed

lemma white_no_bracket:
  "isWhiteSpace c \<Longrightarrow> c \<notin> {CHR ''{'', CHR ''}'', CHR ''['', CHR '']''}"
  by (auto simp add: isWhiteSpace_def)

lemma tag_no_bracket:
  assumes "lang = [] \<or> lang = ''json''" and "c \<in> set (fence @ lang @ [nl])"
  shows "c \<notin> {CHR ''{'', CHR ''}'', CHR ''['', CHR '']''}"
  using assms by (auto simp add: fence_def nl_def)

lemma fenced_between:
  assumes lang: "lang = [] \<or> lang = ''json''"
  shows "\<exists>pre post. fenced lang s = pre @ trim s @ post
           \<and> (\<forall>c \<in> set pre. c \<notin> {CHR ''{'', CHR ''}'', CHR ''['', CHR '']''})"
proof -
  from trim_between [of s] obtain a b where s: "s = a @ trim s @ b"
    and a: "\<forall>c \<in> set a. isWhiteSpace c" by blast
  from s have "fenced lang s = fenced lang (a @ trim s @ b)" by (rule arg_cong)
  also have "\<dots> = ((fence @ lang @ [nl]) @ a) @ trim s @ (b @ [nl] @ fence)"
    by (simp add: fenced_def)
  finally have f: "fenced lang s = ((fence @ lang @ [nl]) @ a) @ trim s @ (b @ [nl] @ fence)" .
  have "\<forall>c \<in> set ((fence @ lang @ [nl]) @ a). c \<notin> {CHR ''{'', CHR ''}'', CHR ''['', CHR '']''}"
  proof
    fix c
    assume "c \<in> set ((fence @ lang @ [nl]) @ a)"
    then have "c \<in> set (fence @ lang @ [nl]) \<or> c \<in> set a" by (simp only: set_append Un_iff)
    then show "c \<notin> {CHR ''{'', CHR ''}'', CHR ''['', CHR '']''}"
      using tag_no_bracket [OF lang] white_no_bracket a by blast
  qed
  with f show ?thesis by blast
qed

lemma extract_object:
  assumes white: "\<forall>t v. parse t = Some v \<longrightarrow> parse (trimStart t) = Some v \<and> parse (trim t) = Some v"
    and start: "parse [] = None \<and> (\<forall>t. parse (CHR 0x60 # t) = None)"
    and prefix: "\<forall>a b v. parse (a @ b) = Some v \<and> CHR 0x60 \<in> set b \<longrightarrow> parse a = None"
    and s: "parse s = Some j" and lang: "lang = [] \<or> lang = ''json''"
    and inc: "includes_js s fence"
    and c: "closesAtEnd (CHR ''{'') (CHR ''}'') (trim s)" and o: "isObjectValue j"
  shows "extractJsonFromText parse repair (fenced lang s) = j"
proof -
  from start have r: "parse (fenced lang s) = None" by (simp add: fenced_rejected)
  note cap = capture_rejected [OF white prefix s lang inc]
  from white s have t: "parse (trim s) = Some j" by blast
  from fenced_between [OF lang, of s] obtain pre post where f: "fenced lang s = pre @ trim s @ post"
    and p: "\<forall>c \<in> set pre. c \<noteq> CHR ''{'' \<and> c \<noteq> CHR ''}''" by fastforce
  from scan_whole [where parse = parse and accept = isObjectValue and post = post, OF c p t] o f
  have "scanBrackets parse isObjectValue (CHR ''{'') (CHR ''}'') (fenced lang s) (fenced lang s)
          0 0 None = Some j" by simp
  with r cap show ?thesis by (simp add: extractJsonFromText_def)
qed

lemma extract_array:
  assumes white: "\<forall>t v. parse t = Some v \<longrightarrow> parse (trimStart t) = Some v \<and> parse (trim t) = Some v"
    and start: "parse [] = None \<and> (\<forall>t. parse (CHR 0x60 # t) = None)"
    and prefix: "\<forall>a b v. parse (a @ b) = Some v \<and> CHR 0x60 \<in> set b \<longrightarrow> parse a = None"
    and s: "parse s = Some j" and lang: "lang = [] \<or> lang = ''json''"
    and inc: "includes_js s fence"
    and c: "closesAtEnd (CHR ''['') (CHR '']'') (trim s)" and o: "isArrayValue j"
    and nb: "CHR ''{'' \<notin> set s"
  shows "extractJsonFromText parse repair (fenced lang s) = j"
proof -
  from start have r: "parse (fenced lang s) = None" by (simp add: fenced_rejected)
  note cap = capture_rejected [OF white prefix s lang inc]
  from white s have t: "parse (trim s) = Some j" by blast
  from fenced_between [OF lang, of s] obtain pre post where f: "fenced lang s = pre @ trim s @ post"
    and p: "\<forall>c \<in> set pre. c \<noteq> CHR ''['' \<and> c \<noteq> CHR '']''" by fastforce
  from scan_whole [where parse = parse and accept = isArrayValue and post = post, OF c p t] o f
  have a: "scanBrackets parse isArrayValue (CHR ''['') (CHR '']'') (fenced lang s) (fenced lang s)
          0 0 None = Some j" by simp
  from nb lang have "CHR ''{'' \<notin> set (fenced lang s)"
    by (auto simp add: fenced_def fence_def nl_def)
  then have n: "scanBrackets parse isObjectValue (CHR ''{'') (CHR ''}'') (fenced lang s) (fenced lang s)
          0 0 None = None" by (rule scan_nothing)
  from closesAtEnd_brackets [OF c] f
  have "CHR ''['' \<in> set (fenced lang s)" and "CHR '']'' \<in> set (fenced lang s)" by simp_all
  then have i: "includes_js (fenced lang s) ''[''" "includes_js (fenced lang s) '']''"
    by (simp_all add: includes_char)
  from r cap n i a show ?thesis by (simp add: extractJsonFromText_def)
qed

lemma basicValue_typed:
  "ps_type prop \<in> set basicTypes \<Longrightarrow> hasType (ps_type prop) (basicValue text key prop)"
  by (auto simp add: basicTypes_def hasType_def basicValue_def split: option.splits)

lemma basicValue_other:
  "ps_type prop \<notin> set basicTypes \<Longrightarrow> basicValue text key prop = JNull"
  by (simp add: basicTypes_def basicValue_def)

lemma map_of_entries:
  "distinct (map fst props) \<Longrightarrow> (key, Some p) \<in> set props \<Longrightarrow>
   map_of (concat (map (\<lambda>(k, pr). case pr of None \<Rightarrow> [] | Some q \<Rightarrow> [(k, f k q)]) props)) key
     = Some (f key p)"
proof (induction props)
  case Nil
  then show ?case by simp
next
  case (Cons a props)
  obtain k pr where a: "a = (k, pr)" by (cases a)
  show ?case
  proof (cases "(key, Some p) = a")
    case True
    then show ?thesis using a by auto
  next
    case False
    with Cons.prems have m: "(key, Some p) \<in> set props" by simp
    with Cons.prems a have ne: "k \<noteq> key" by (auto simp add: rev_image_eqI)
    from Cons.prems have "distinct (map fst props)" by simp
    from Cons.IH [OF this m] ne a show ?thesis by (simp split: option.splits)
  qed
qed

lemma property_basic:
  "sc_properties sch = Some props \<Longrightarrow> distinct (map fst props) \<Longrightarrow> (key, Some p) \<in> set props \<Longrightarrow>
   property (createBasicResponseFromSchema sch text) key = Some (basicValue text key p)"
  by (simp add: createBasicResponseFromSchema_def map_of_entries)

lemma fenced_starts_with_fence: "literalParse (fenced lang s) = None"
  by (simp add: literalParse_def fenced_def fence_def)

lemma placeholder_false:
  "createBasicResponseFromSchema planSchema t =
     JObject [(''plan'', JString t),
              (''pasos'', JArray [JObject [(''paso'', JString ''Ejemplo de paso''),
                                          (''explicacion'', JString ''Ejemplo de explicacion'')]]),
              (''detallesVisualizacion'',
                 JString (''Informaci'' @ [CHR 0xF3] @ ''n extra'' @ [CHR 0xED] @ ''da para detallesVisualizacion''))]"
  by (simp add: createBasicResponseFromSchema_def planSchema_def basicValue_def exampleItem_def)

lemma no_fence_in_literal: "\<not> includes_js ''true'' fence" "\<not> includes_js ''false'' fence"
  "\<not> includes_js ''  true'' fence" "\<not> includes_js ''null'' fence"
  by (simp_all add: fence_def startsWith_def)

text \<open>The parser of the scenarios has the three properties of \<^verbatim>\<open>JSON.parse\<close> that the
  theorem below asks for.\<close>

lemma sampleParse_accepts:
  "sampleParse t = Some v \<Longrightarrow>
   dropWhile isWhiteSpace t \<in> set [''true'', ''false'', ''null'', planText, tagsText, innerText, arrayText]"
  by (simp add: sampleParse_def Let_def split: if_splits del: dropWhile_eq_Nil_conv)

lemma sampleParse_core: "sampleParse (dropWhile isWhiteSpace t) = sampleParse t"
  by (simp add: sampleParse_def)

lemma sample_trimmed:
  "x \<in> set [''true'', ''false'', ''null'', planText, tagsText, innerText, arrayText] \<Longrightarrow>
   trimEnd x = x \<and> x \<noteq> []"
  by (auto simp add: trimEnd_def isWhiteSpace_def planText_def tagsText_def innerText_def
      arrayText_def fence_def)

lemma sample_no_prefix:
  assumes "x \<in> set [''true'', ''false'', ''null'', planText, tagsText, innerText, arrayText]"
    and "x @ b \<in> set [''true'', ''false'', ''null'', planText, tagsText, innerText, arrayText]"
  shows "b = []"
  using assms
  by (auto simp add: planText_def tagsText_def innerText_def arrayText_def fence_def)

lemma sampleParse_white:
  "\<forall>t v. sampleParse t = Some v \<longrightarrow>
     sampleParse (trimStart t) = Some v \<and> sampleParse (trim t) = Some v"
proof (intro allI impI)
  fix t v
  assume a: "sampleParse t = Some v"
  from sample_trimmed [OF sampleParse_accepts [OF a]]
  have "trimEnd (dropWhile isWhiteSpace t) = dropWhile isWhiteSpace t" by blast
  then have "trim t = dropWhile isWhiteSpace t" by (simp add: trim_def trimStart_def)
  with a show "sampleParse (trimStart t) = Some v \<and> sampleParse (trim t) = Some v"
    by (simp add: trimStart_def sampleParse_core del: dropWhile_eq_Nil_conv)
qed

lemma sampleParse_start: "sampleParse [] = None \<and> (\<forall>t. sampleParse (CHR 0x60 # t) = None)"
  by (simp add: sampleParse_def isWhiteSpace_def planText_def tagsText_def innerText_def
      arrayText_def)

lemma sampleParse_prefix:
  "\<forall>a b v. sampleParse (a @ b) = Some v \<and> CHR 0x60 \<in> set b \<longrightarrow> sampleParse a = None"
proof (intro allI impI)
  fix a b v
  assume h: "sampleParse (a @ b) = Some v \<and> CHR 0x60 \<in> set b"
  show "sampleParse a = None"
  proof (rule ccontr)
    assume "sampleParse a \<noteq> None"
    then obtain w where w: "sampleParse a = Some w" by blast
    note x = sampleParse_accepts [OF w]
    from sample_trimmed [OF x] have "dropWhile isWhiteSpace a \<noteq> []" by blast
    then obtain c where "c \<in> set a" "\<not> isWhiteSpace c"
      by (auto simp: dropWhile_eq_Nil_conv)
    then have "dropWhile isWhiteSpace (a @ b) = dropWhile isWhiteSpace a @ b"
      by (rule dropWhile_append1)
    with sampleParse_accepts [of "a @ b" v] h
    have "dropWhile isWhiteSpace a @ b
        \<in> set [''true'', ''false'', ''null'', planText, tagsText, innerText, arrayText]"
      by (simp del: dropWhile_eq_Nil_conv)
    from sample_no_prefix [OF x this] h show False by simp
  qed
qed

text \<open>
  Claim C9, as amended. \<^verbatim>\<open>JSON.parse\<close> is a parameter, with three of its properties: it accepts a text
  with white space around it as it accepts the text without; it rejects the empty text and
  every text that starts with a backquote; and it accepts no part of a text it accepts that
  ends in front of a backquote (in JSON a backquote stands inside a string). Let \<open>s\<close> be
  a text that \<^verbatim>\<open>JSON.parse\<close> accepts with the value \<open>j\<close>, and let the response be \<open>s\<close> between
  two fences on lines of their own, the first with the tag \<^verbatim>\<open>json\<close> or without it. The bare
  response \<open>s\<close> gives \<open>j\<close>. The fenced response gives \<open>j\<close> as well when \<open>j\<close> is truthy and
  one of these holds: \<open>s\<close> contains no fence; or \<open>j\<close> is an object and the braces of \<open>s\<close>,
  counted one by one, close at the end of \<open>s\<close> (white space apart) and not before; or \<open>j\<close>
  is an array, \<open>s\<close> has no opening brace, and its square brackets close at its end and not
  before. When \<open>j\<close> is falsy (\<^verbatim>\<open>false\<close>, \<^verbatim>\<open>0\<close>, \<^verbatim>\<open>""\<close>, \<^verbatim>\<open>null\<close>) and \<open>s\<close> contains no fence,
  the fenced response gives the basic response built from the schema. For every response
  that does not parse and from which the extraction returns nothing truthy, the result is
  the basic response; there, every property of the schema has a value, of the declared
  type when that is \<^verbatim>\<open>string\<close>, \<^verbatim>\<open>boolean\<close>, \<^verbatim>\<open>array\<close> or \<^verbatim>\<open>object\<close>, and \<^verbatim>\<open>null\<close> for any
  other declared type.
\<close>

theorem fenced_json_is_extracted_when_truthy_else_basic_response:
  assumes white: "\<forall>t v. parse t = Some v \<longrightarrow> parse (trimStart t) = Some v \<and> parse (trim t) = Some v"
    and start: "parse [] = None \<and> (\<forall>t. parse (CHR 0x60 # t) = None)"
    and prefix: "\<forall>a b v. parse (a @ b) = Some v \<and> CHR 0x60 \<in> set b \<longrightarrow> parse a = None"
    and s: "parse s = Some j" and lang: "lang = [] \<or> lang = ''json''"
  shows "getStructuredResponse parse repair sch s = j
       \<and> (truthy j \<and>
            (\<not> includes_js s fence
             \<or> isObjectValue j \<and> closesAtEnd (CHR ''{'') (CHR ''}'') (trim s)
             \<or> isArrayValue j \<and> closesAtEnd (CHR ''['') (CHR '']'') (trim s) \<and> CHR ''{'' \<notin> set s) \<longrightarrow>
          getStructuredResponse parse repair sch (fenced lang s) = j)
       \<and> (\<not> truthy j \<and> \<not> includes_js s fence \<longrightarrow>
          getStructuredResponse parse repair sch (fenced lang s)
            = createBasicResponseFromSchema sch (fenced lang s))
       \<and> (\<forall>text. parse text = None \<and> \<not> truthy (extractJsonFromText parse repair text) \<longrightarrow>
              getStructuredResponse parse repair sch text = createBasicResponseFromSchema sch text)
       \<and> (\<forall>props key prop text.
              sc_properties sch = Some props \<and> distinct (map fst props) \<and> (key, Some prop) \<in> set props \<longrightarrow>
              (\<exists>v. property (createBasicResponseFromSchema sch text) key = Some v
                 \<and> (if ps_type prop \<in> set basicTypes then hasType (ps_type prop) v else v = JNull)))"
proof (intro conjI allI impI)
  show "getStructuredResponse parse repair sch s = j"
    using s by (simp add: getStructuredResponse_def)
next
  from start have r: "parse (fenced lang s) = None" by (simp add: fenced_rejected)
  assume a: "truthy j \<and>
            (\<not> includes_js s fence
             \<or> isObjectValue j \<and> closesAtEnd (CHR ''{'') (CHR ''}'') (trim s)
             \<or> isArrayValue j \<and> closesAtEnd (CHR ''['') (CHR '']'') (trim s) \<and> CHR ''{'' \<notin> set s)"
  have "extractJsonFromText parse repair (fenced lang s) = j"
  proof (cases "includes_js s fence")
    case False
    then show ?thesis by (rule extract_fenced [OF white start s lang])
  next
    case True
    with a consider
      (obj) "isObjectValue j" "closesAtEnd (CHR ''{'') (CHR ''}'') (trim s)"
      | (arr) "isArrayValue j" "closesAtEnd (CHR ''['') (CHR '']'') (trim s)" "CHR ''{'' \<notin> set s"
      by blast
    then show ?thesis
    proof cases
      case obj
      from extract_object [OF white start prefix s lang True obj(2) obj(1)] show ?thesis .
    next
      case arr
      from extract_array [OF white start prefix s lang True arr(2) arr(1) arr(3)] show ?thesis .
    qed
  qed
  with a r show "getStructuredResponse parse repair sch (fenced lang s) = j"
    by (simp add: getStructuredResponse_def)
next
  from start have r: "parse (fenced lang s) = None" by (simp add: fenced_rejected)
  assume a: "\<not> truthy j \<and> \<not> includes_js s fence"
  then have "extractJsonFromText parse repair (fenced lang s) = j"
    using extract_fenced [OF white start s lang] by blast
  with a r show "getStructuredResponse parse repair sch (fenced lang s)
      = createBasicResponseFromSchema sch (fenced lang s)"
    by (simp add: getStructuredResponse_def)
next
  fix tx
  assume "parse tx = None \<and> \<not> truthy (extractJsonFromText parse repair tx)"
  then show "getStructuredResponse parse repair sch tx = createBasicResponseFromSchema sch tx"
    by (simp add: getStructuredResponse_def)
next
  fix props key p tx
  assume a: "sc_properties sch = Some props \<and> distinct (map fst props) \<and> (key, Some p) \<in> set props"
  then have "property (createBasicResponseFromSchema sch tx) key = Some (basicValue tx key p)"
    by (simp add: property_basic)
  then show "\<exists>v. property (createBasicResponseFromSchema sch tx) key = Some v
      \<and> (if ps_type p \<in> set basicTypes then hasType (ps_type p) v else v = JNull)"
    using basicValue_typed [of p tx key] basicValue_other [of p tx key] by simp
qed

text \<open>
  The theorem at four responses and the schema of the detailed plan: \<^verbatim>\<open>true\<close> after two
  spaces, an object whose string holds a code block, an array whose string is a fence, and
  \<^verbatim>\<open>null\<close>; and at a response that is no JSON.
\<close>

theorem fenced_json_witness:
  "getStructuredResponse sampleParse (\<lambda>t. JNull) planSchema ''  true'' = JBool True
   \<and> getStructuredResponse sampleParse (\<lambda>t. JNull) planSchema (fenced ''json'' ''  true'') = JBool True
   \<and> getStructuredResponse sampleParse (\<lambda>t. JNull) planSchema (fenced [] planText) = planValue
   \<and> getStructuredResponse sampleParse (\<lambda>t. JNull) planSchema (fenced ''json'' tagsText)
       = JArray [JString fence]
   \<and> getStructuredResponse sampleParse (\<lambda>t. JNull) planSchema (fenced ''json'' ''null'')
       = createBasicResponseFromSchema planSchema (fenced ''json'' ''null'')
   \<and> getStructuredResponse sampleParse (\<lambda>t. JNull) planSchema ''no plan'' =
       createBasicResponseFromSchema planSchema ''no plan''
   \<and> (\<exists>v. property (createBasicResponseFromSchema planSchema ''no plan'') ''pasos'' = Some v
          \<and> hasType ''array'' v)"
proof -
  note t = fenced_json_is_extracted_when_truthy_else_basic_response
    [OF sampleParse_white sampleParse_start sampleParse_prefix]
  have h1: "sampleParse ''  true'' = Some (JBool True)"
    by (simp add: sampleParse_def isWhiteSpace_def)
  have a: "getStructuredResponse sampleParse (\<lambda>t. JNull) planSchema ''  true'' = JBool True"
    using t [OF h1, of "''json''" "\<lambda>t. JNull" planSchema] by blast
  have b: "getStructuredResponse sampleParse (\<lambda>t. JNull) planSchema (fenced ''json'' ''  true'')
      = JBool True"
    using t [OF h1, of "''json''" "\<lambda>t. JNull" planSchema] no_fence_in_literal(3) by simp
  have h2: "sampleParse planText = Some planValue"
    by (simp add: sampleParse_def isWhiteSpace_def planText_def)
  have c2: "closesAtEnd (CHR ''{'') (CHR ''}'') (trim planText)"
    by (simp add: trim_def trimEnd_def trimStart_def isWhiteSpace_def planText_def fence_def
        closesAtEnd_def bracketDelta_def)
  have c: "getStructuredResponse sampleParse (\<lambda>t. JNull) planSchema (fenced [] planText) = planValue"
    using t [OF h2, of "[]" "\<lambda>t. JNull" planSchema] c2 by (simp add: planValue_def)
  have h3: "sampleParse tagsText = Some (JArray [JString fence])"
    by (simp add: sampleParse_def isWhiteSpace_def planText_def tagsText_def)
  have c3: "closesAtEnd (CHR ''['') (CHR '']'') (trim tagsText)" "CHR ''{'' \<notin> set tagsText"
    by (simp_all add: trim_def trimEnd_def trimStart_def isWhiteSpace_def tagsText_def fence_def
        closesAtEnd_def bracketDelta_def)
  have d: "getStructuredResponse sampleParse (\<lambda>t. JNull) planSchema (fenced ''json'' tagsText)
      = JArray [JString fence]"
    using t [OF h3, of "''json''" "\<lambda>t. JNull" planSchema] c3 by simp
  have h4: "sampleParse ''null'' = Some JNull"
    by (simp add: sampleParse_def isWhiteSpace_def)
  have e: "getStructuredResponse sampleParse (\<lambda>t. JNull) planSchema (fenced ''json'' ''null'')
       = createBasicResponseFromSchema planSchema (fenced ''json'' ''null'')"
    using t [OF h4, of "''json''" "\<lambda>t. JNull" planSchema] no_fence_in_literal(4) by simp
  have n1: "sampleParse ''no plan'' = None"
    by (simp add: sampleParse_def isWhiteSpace_def planText_def tagsText_def innerText_def
        arrayText_def)
  have n2: "\<not> truthy (extractJsonFromText sampleParse (\<lambda>t. JNull) ''no plan'')"
    using n1 by (simp add: extractJsonFromText_def codeBlockCapture_def fence_def startsWith_def)
  have f: "getStructuredResponse sampleParse (\<lambda>t. JNull) planSchema ''no plan'' =
       createBasicResponseFromSchema planSchema ''no plan''"
    using t [OF h1, of "''json''" "\<lambda>t. JNull" planSchema] n1 n2 by blast
  have s: "sc_properties planSchema = Some
        [(''plan'', Some \<lparr>ps_type = ''string'', ps_items = None\<rparr>),
         (''pasos'', Some \<lparr>ps_type = ''array'',
            ps_items = Some \<lparr>it_type = ''object'',
                              it_properties = Some [''paso'', ''explicacion'']\<rparr>\<rparr>),
         (''detallesVisualizacion'', Some \<lparr>ps_type = ''string'', ps_items = None\<rparr>)]"
    by (simp add: planSchema_def)
  have "\<forall>props key prop tx.
          sc_properties planSchema = Some props \<and> distinct (map fst props) \<and> (key, Some prop) \<in> set props \<longrightarrow>
          (\<exists>v. property (createBasicResponseFromSchema planSchema tx) key = Some v
             \<and> (if ps_type prop \<in> set basicTypes then hasType (ps_type prop) v else v = JNull))"
    using t [OF h1, of "''json''" "\<lambda>t. JNull" planSchema] by blast
  from this [rule_format, OF conjI [OF s], of "''pasos''"
        "\<lparr>ps_type = ''array'',
            ps_items = Some \<lparr>it_type = ''object'',
                              it_properties = Some [''paso'', ''explicacion'']\<rparr>\<rparr>" "''no plan''"]
  have g: "\<exists>v. property (createBasicResponseFromSchema planSchema ''no plan'') ''pasos'' = Some v
          \<and> hasType ''array'' v"
    by (simp add: basicTypes_def)
  from a b c d e f g show ?thesis by blast
qed

text \<open>
  Two responses. \<^verbatim>\<open>false\<close>: bare, the result is \<^verbatim>\<open>false\<close>; inside a fenced block the
  extraction finds \<^verbatim>\<open>false\<close>, which is falsy, and the result is the basic response of the
  schema. An array with one object whose string is a fence: bare, the result is the array;
  inside a fenced block the capture ends in front of the inner fence and does not parse,
  the scan for an object finds the object inside the array, and the result is that object.
\<close>

theorem fenced_false_is_replaced_counterexample:
  "literalParse ''false'' = Some (JBool False)
   \<and> getStructuredResponse literalParse (\<lambda>t. JNull) planSchema ''false'' = JBool False
   \<and> literalParse (fenced ''json'' ''false'') = None
   \<and> codeBlockCapture (fenced ''json'' ''false'') = Some ''false''
   \<and> extractJsonFromText literalParse (\<lambda>t. JNull) (fenced ''json'' ''false'') = JBool False
   \<and> getStructuredResponse literalParse (\<lambda>t. JNull) planSchema (fenced ''json'' ''false'') =
       JObject [(''plan'', JString (fenced ''json'' ''false'')),
                (''pasos'', JArray [JObject [(''paso'', JString ''Ejemplo de paso''),
                                            (''explicacion'', JString ''Ejemplo de explicacion'')]]),
                (''detallesVisualizacion'',
                   JString (''Informaci'' @ [CHR 0xF3] @ ''n extra'' @ [CHR 0xED] @ ''da para detallesVisualizacion''))]
   \<and> sampleParse arrayText = Some (JArray [JObject [(''a'', JString fence)]])
   \<and> getStructuredResponse sampleParse (\<lambda>t. JNull) planSchema arrayText
       = JArray [JObject [(''a'', JString fence)]]
   \<and> sampleParse (fenced ''json'' arrayText) = None
   \<and> codeBlockCapture (fenced ''json'' arrayText) = Some (take 7 arrayText)
   \<and> sampleParse (take 7 arrayText) = None
   \<and> getStructuredResponse sampleParse (\<lambda>t. JNull) planSchema (fenced ''json'' arrayText)
       = JObject [(''a'', JString fence)]"
proof -
  have p: "literalParse ''false'' = Some (JBool False)" by (simp add: literalParse_def)
  have c: "codeBlockCapture (fenced ''json'' ''false'') = Some ''false''"
    using codeBlockCapture_fenced [OF no_fence_in_literal(2), of "''json''"]
    by (simp add: isWhiteSpace_def)
  have e: "extractJsonFromText literalParse (\<lambda>t. JNull) (fenced ''json'' ''false'') = JBool False"
    using p c by (simp add: extractJsonFromText_def fenced_starts_with_fence)
  have q: "sampleParse arrayText = Some (JArray [JObject [(''a'', JString fence)]])"
    by (simp add: sampleParse_def isWhiteSpace_def planText_def tagsText_def innerText_def
        arrayText_def innerValue_def)
  have r: "sampleParse (fenced ''json'' arrayText) = None"
    using sampleParse_start by (simp add: fenced_def fence_def)
  have k: "codeBlockCapture (fenced ''json'' arrayText) = Some (take 7 arrayText)"
    by (simp add: codeBlockCapture_def fenced_def fence_def arrayText_def innerText_def
        startsWith_def isWhiteSpace_def nl_def)
  have n: "sampleParse (take 7 arrayText) = None"
    by (simp add: sampleParse_def isWhiteSpace_def planText_def tagsText_def innerText_def
        arrayText_def fence_def)
  have i: "sampleParse innerText = Some (JObject [(''a'', JString fence)])"
    by (simp add: sampleParse_def isWhiteSpace_def planText_def tagsText_def innerText_def
        innerValue_def)
  have w: "scanBrackets sampleParse isObjectValue (CHR ''{'') (CHR ''}'')
             (fenced ''json'' arrayText) (fenced ''json'' arrayText) 0 0 None
           = Some (JObject [(''a'', JString fence)])"
  proof -
    have f: "fenced ''json'' arrayText = (fence @ ''json'' @ [nl] @ ''['') @ innerText @ ('']'' @ [nl] @ fence)"
      by (simp add: fenced_def arrayText_def)
    have b: "closesAtEnd (CHR ''{'') (CHR ''}'') innerText"
      by (simp add: closesAtEnd_def innerText_def fence_def bracketDelta_def)
    have o: "\<forall>c \<in> set (fence @ ''json'' @ [nl] @ ''[''). c \<noteq> CHR ''{'' \<and> c \<noteq> CHR ''}''"
      by (simp add: fence_def nl_def)
    from scan_whole [where parse = sampleParse and accept = isObjectValue, OF b o i] f
    show ?thesis by simp
  qed
  have x: "extractJsonFromText sampleParse (\<lambda>t. JNull) (fenced ''json'' arrayText)
      = JObject [(''a'', JString fence)]"
    using r k n w by (simp add: extractJsonFromText_def arrayText_def innerText_def)
  have y: "getStructuredResponse sampleParse (\<lambda>t. JNull) planSchema (fenced ''json'' arrayText)
       = JObject [(''a'', JString fence)]"
    using r x by (simp add: getStructuredResponse_def)
  have z: "getStructuredResponse sampleParse (\<lambda>t. JNull) planSchema arrayText
       = JArray [JObject [(''a'', JString fence)]]"
    using q by (simp add: getStructuredResponse_def)
  show ?thesis
    using p c e q r k n y z
    by (simp add: getStructuredResponse_def fenced_starts_with_fence placeholder_false)
qed

section \<open>Properties of the agentic planner\<close>










end
